theory Spec2Isabelle
  imports Complex_Main "HOL-Library.Word"
begin

section \<open>The image router of xpublish (\<^verbatim>\<open>src/xpublish/image_router.py\<close>)\<close>

text \<open>
  The module registers two request handlers, \<^verbatim>\<open>get_image\<close> and \<^verbatim>\<open>get_image_tile\<close>, on
  one \<^verbatim>\<open>APIRouter\<close>. Each handler is a straight sequence of calls into xarray, rioxarray,
  pyproj, mercantile, xesmf, numpy, matplotlib and PIL. The handlers are embedded as
  functions in an exception-and-state monad; the external libraries are a record of
  functions the handlers are parameterised by, and what the handlers compute themselves
  (parsing the bounding box, the normalisation arithmetic, the output grid, the shape
  arguments, the response) is written out.
\<close>

subsection \<open>Python floats\<close>

text \<open>
  A Python or numpy float is a finite number, an infinity or NaN. Finite numbers are
  reals here. The result of an operation is not rounded to 53 bits, and the sign of zero
  is not kept; but a result too large for a double is an infinity, as it is in IEEE 754:
  the largest double is \<open>2\<^sup>1\<^sup>0\<^sup>2\<^sup>4 - 2\<^sup>9\<^sup>7\<^sup>1\<close>, and rounding to nearest turns every
  number from \<open>2\<^sup>1\<^sup>0\<^sup>2\<^sup>4 - 2\<^sup>9\<^sup>7\<^sup>0\<close> on into an infinity. The special values are part
  of the model because the handlers meet them: \<^verbatim>\<open>float('nan')\<close> and \<^verbatim>\<open>float('inf')\<close>
  parse, numpy divides by zero and overflows without raising (\<^verbatim>\<open>0/0\<close> is NaN, \<^verbatim>\<open>x/0\<close>
  an infinity), and xarray's \<^verbatim>\<open>min()\<close> and \<^verbatim>\<open>max()\<close> skip NaN, its mark of a missing
  cell.
\<close>

datatype pyfloat = Fin real | PInf | NInf | NaN

text \<open>The number \<open>2\<^sup>1\<^sup>0\<^sup>2\<^sup>4 - 2\<^sup>9\<^sup>7\<^sup>0\<close>, from which on a result overflows.\<close>

definition overflow_threshold :: real where
  "overflow_threshold = 179769313486231580793728971405303415079934132710037826936173778980444968292764750946649017977587207096330286416692887910946555547851940402630657488671505820681908902000708383676273854845817711531764475730270069855571366959622842914819860834936475292719074168444365510704342711559699508093042880177904174497792"

text \<open>The float an operation returns whose exact result is \<open>x\<close>.\<close>

definition to_double :: "real \<Rightarrow> pyfloat" where
  "to_double x =
     (if overflow_threshold \<le> x then PInf
      else if x \<le> - overflow_threshold then NInf
      else Fin x)"

fun fneg :: "pyfloat \<Rightarrow> pyfloat" where
  "fneg (Fin a) = Fin (- a)"
| "fneg PInf = NInf"
| "fneg NInf = PInf"
| "fneg NaN = NaN"

text \<open>Subtraction \<^verbatim>\<open>a - b\<close> of IEEE 754.\<close>

fun fsub :: "pyfloat \<Rightarrow> pyfloat \<Rightarrow> pyfloat" where
  "fsub (Fin a) (Fin b) = to_double (a - b)"
| "fsub (Fin a) PInf = NInf"
| "fsub (Fin a) NInf = PInf"
| "fsub PInf (Fin b) = PInf"
| "fsub PInf NInf = PInf"
| "fsub PInf PInf = NaN"
| "fsub NInf (Fin b) = NInf"
| "fsub NInf PInf = NInf"
| "fsub NInf NInf = NaN"
| "fsub NaN b = NaN"
| "fsub a NaN = NaN"

text \<open>
  Division \<^verbatim>\<open>a / b\<close> as numpy computes it on arrays: a zero divisor raises nothing, it
  gives NaN for \<^verbatim>\<open>0/0\<close> and an infinity otherwise.
\<close>

fun fdiv :: "pyfloat \<Rightarrow> pyfloat \<Rightarrow> pyfloat" where
  "fdiv (Fin a) (Fin b) =
     (if b = 0 then (if a = 0 then NaN else if 0 < a then PInf else NInf)
      else to_double (a / b))"
| "fdiv (Fin a) PInf = Fin 0"
| "fdiv (Fin a) NInf = Fin 0"
| "fdiv PInf (Fin b) = (if 0 \<le> b then PInf else NInf)"
| "fdiv NInf (Fin b) = (if 0 \<le> b then NInf else PInf)"
| "fdiv PInf PInf = NaN"
| "fdiv PInf NInf = NaN"
| "fdiv NInf PInf = NaN"
| "fdiv NInf NInf = NaN"
| "fdiv NaN b = NaN"
| "fdiv a NaN = NaN"

text \<open>The order of the numbers among the floats; NaN compares false with everything.\<close>

fun fle :: "pyfloat \<Rightarrow> pyfloat \<Rightarrow> bool" where
  "fle NaN b = False"
| "fle a NaN = False"
| "fle NInf b = True"
| "fle a PInf = True"
| "fle (Fin a) (Fin b) = (a \<le> b)"
| "fle PInf b = False"
| "fle a NInf = False"

definition fmin2 :: "pyfloat \<Rightarrow> pyfloat \<Rightarrow> pyfloat" where
  "fmin2 a b = (if fle a b then a else b)"

definition fmax2 :: "pyfloat \<Rightarrow> pyfloat \<Rightarrow> pyfloat" where
  "fmax2 a b = (if fle a b then b else a)"

subsection \<open>Errors\<close>

text \<open>
  Every exception a handler can end with is a value. \<open>ValueError\<close> is raised by
  \<^verbatim>\<open>float\<close>, by unpacking and by numpy; \<open>ValidationError\<close> by pydantic;
  \<open>RequestValidationError\<close> by FastAPI for a parameter that is missing or of the wrong
  type; the other
  constructors are what the external libraries raise.
\<close>

datatype error =
    ValueError
  | KeyError
  | ValidationError
  | RequestValidationError
  | CRSError
  | LibraryError

subsection \<open>The builtin \<^verbatim>\<open>float\<close> on a string\<close>

text \<open>
  CPython's \<^verbatim>\<open>float(s)\<close>: strip white space at both ends, remove underscores (allowed
  only between two digits), then read, case-insensitively,
  \<^verbatim>\<open>[sign] (inf | infinity | nan | digits [. [digits]] [exponent] | . digits [exponent])\<close>
  up to the end of the string; anything else raises \<open>ValueError\<close>. A number too large
  for a double reads as an infinity. Characters are code points below 256.
\<close>

text \<open>
  The white space \<^verbatim>\<open>float\<close> strips: tab, line feed, vertical tab, form feed, carriage
  return and space (\<^verbatim>\<open>Py_ISSPACE\<close>), and the two white-space characters between 128 and
  255, NEL and the no-break space, which CPython turns into a space before it strips.
  The separators 28 to 31 are white space for \<^verbatim>\<open>str.isspace\<close> but not here.
\<close>

definition is_space :: "char \<Rightarrow> bool" where
  "is_space c = (let n = (of_char c :: nat) in
     (9 \<le> n \<and> n \<le> 13) \<or> n = 32 \<or> n = 133 \<or> n = 160)"

definition is_digit :: "char \<Rightarrow> bool" where
  "is_digit c = (let n = (of_char c :: nat) in 48 \<le> n \<and> n \<le> 57)"

definition digit_val :: "char \<Rightarrow> nat" where
  "digit_val c = (of_char c :: nat) - 48"

definition strip :: "string \<Rightarrow> string" where
  "strip s = rev (dropWhile is_space (rev (dropWhile is_space s)))"

definition lower :: "char \<Rightarrow> char" where
  "lower c =
     (case map_of (zip ''ABCDEFGHIJKLMNOPQRSTUVWXYZ'' ''abcdefghijklmnopqrstuvwxyz'') c of
        None \<Rightarrow> c
      | Some l \<Rightarrow> l)"

text \<open>
  Underscores, as \<^verbatim>\<open>_Py_string_to_number_with_underscores\<close> removes them: one is allowed
  only after a digit and only before a digit. The first argument is the previous
  character (NUL at the start).
\<close>

fun del_underscores :: "char \<Rightarrow> string \<Rightarrow> string option" where
  "del_underscores prev [] = (if prev = CHR ''_'' then None else Some [])"
| "del_underscores prev (c # cs) =
     (if c = CHR ''_'' then (if is_digit prev then del_underscores c cs else None)
      else if prev = CHR ''_'' \<and> \<not> is_digit c then None
      else map_option ((#) c) (del_underscores c cs))"

definition digits_val :: "string \<Rightarrow> nat" where
  "digits_val ds = foldl (\<lambda>acc c. 10 * acc + digit_val c) 0 ds"

text \<open>The value \<open>m \<times> 10\<^sup>e\<close> of a mantissa and a decimal exponent.\<close>

definition scale10 :: "nat \<Rightarrow> int \<Rightarrow> real" where
  "scale10 m e = (if 0 \<le> e then real m * 10 ^ nat e else real m / 10 ^ nat (- e))"

text \<open>An exponent part: empty, or \<^verbatim>\<open>e\<close> or \<^verbatim>\<open>E\<close>, an optional sign and at least one digit.\<close>

definition parse_exponent :: "string \<Rightarrow> int option" where
  "parse_exponent s =
     (case s of
        [] \<Rightarrow> Some 0
      | c # r \<Rightarrow>
          if c = CHR ''e'' \<or> c = CHR ''E'' then
            (let (neg, ds) =
               (case r of
                  [] \<Rightarrow> (False, r)
                | d # r' \<Rightarrow> if d = CHR ''-'' then (True, r')
                            else if d = CHR ''+'' then (False, r') else (False, r))
             in if ds \<noteq> [] \<and> list_all is_digit ds
                then Some (if neg then - int (digits_val ds) else int (digits_val ds))
                else None)
          else None)"

text \<open>An unsigned decimal number with an optional fraction and exponent.\<close>

definition parse_decimal :: "string \<Rightarrow> real option" where
  "parse_decimal s =
     (let ip = takeWhile is_digit s;
          r1 = dropWhile is_digit s;
          (fp, r2) = (case r1 of
                        [] \<Rightarrow> ([], r1)
                      | c # r \<Rightarrow> if c = CHR ''.''
                                 then (takeWhile is_digit r, dropWhile is_digit r)
                                 else ([], r1))
      in if ip = [] \<and> fp = [] then None
         else (case parse_exponent r2 of
                 None \<Rightarrow> None
               | Some e \<Rightarrow> Some (scale10 (digits_val (ip @ fp)) (e - int (length fp)))))"

definition parse_unsigned :: "string \<Rightarrow> pyfloat option" where
  "parse_unsigned s =
     (let l = map lower s in
      if l = ''inf'' \<or> l = ''infinity'' then Some PInf
      else if l = ''nan'' then Some NaN
      else map_option to_double (parse_decimal s))"

definition py_float :: "string \<Rightarrow> error + pyfloat" where
  "py_float s =
     (case del_underscores (CHR 0x00) (strip s) of
        None \<Rightarrow> Inl ValueError
      | Some t \<Rightarrow>
          (let (neg, u) =
             (case t of
                [] \<Rightarrow> (False, t)
              | c # r \<Rightarrow> if c = CHR ''-'' then (True, r)
                         else if c = CHR ''+'' then (False, r) else (False, t))
           in case parse_unsigned u of
                None \<Rightarrow> Inl ValueError
              | Some v \<Rightarrow> Inr (if neg then fneg v else v)))"

text \<open>\<^verbatim>\<open>s.split(',')\<close>: the pieces between the commas; an empty string gives one empty piece.\<close>

fun split_comma :: "string \<Rightarrow> string list" where
  "split_comma [] = [[]]"
| "split_comma (c # cs) =
     (if c = CHR '','' then [] # split_comma cs
      else (case split_comma cs of
              [] \<Rightarrow> [[c]]
            | p # ps \<Rightarrow> (c # p) # ps))"

subsection \<open>Arrays\<close>

text \<open>
  The values of a two-dimensional \<^verbatim>\<open>DataArray\<close>: a list of rows, row 0 first (dimension
  \<^verbatim>\<open>y\<close> then \<^verbatim>\<open>x\<close>, as rioxarray lays a raster out).
\<close>

type_synonym grid = "pyfloat list list"

definition nrows :: "'a list list \<Rightarrow> nat" where
  "nrows g = length g"

definition ncols :: "'a list list \<Rightarrow> nat" where
  "ncols g = (case g of [] \<Rightarrow> 0 | r # _ \<Rightarrow> length r)"

text \<open>
  \<^verbatim>\<open>DataArray.min()\<close> and \<^verbatim>\<open>max()\<close> over all cells of a float array: NaN cells are
  skipped (\<^verbatim>\<open>skipna\<close> is on for floats); an array of NaN only gives NaN; an array with
  no cell at all raises \<open>ValueError\<close>.
\<close>

definition nanmin :: "pyfloat list \<Rightarrow> error + pyfloat" where
  "nanmin xs =
     (if xs = [] then Inl ValueError
      else (case filter (\<lambda>v. v \<noteq> NaN) xs of
              [] \<Rightarrow> Inr NaN
            | y # ys \<Rightarrow> Inr (foldl fmin2 y ys)))"

definition nanmax :: "pyfloat list \<Rightarrow> error + pyfloat" where
  "nanmax xs =
     (if xs = [] then Inl ValueError
      else (case filter (\<lambda>v. v \<noteq> NaN) xs of
              [] \<Rightarrow> Inr NaN
            | y # ys \<Rightarrow> Inr (foldl fmax2 y ys)))"

text \<open>
  The arithmetic of lines 81 and 120, \<^verbatim>\<open>(data - min_value) / (max_value - min_value)\<close>,
  cell by cell.
\<close>

definition scale_cell :: "pyfloat \<Rightarrow> pyfloat \<Rightarrow> pyfloat \<Rightarrow> pyfloat" where
  "scale_cell min_value max_value v = fdiv (fsub v min_value) (fsub max_value min_value)"

definition scale_grid :: "grid \<Rightarrow> pyfloat \<Rightarrow> pyfloat \<Rightarrow> grid" where
  "scale_grid data min_value max_value = map (map (scale_cell min_value max_value)) data"

text \<open>
  \<^verbatim>\<open>np.linspace(start, stop, num)\<close>: \<open>num\<close> samples from \<open>start\<close> to \<open>stop\<close>, both
  included; one sample is \<open>start\<close> alone; a negative \<open>num\<close> raises \<open>ValueError\<close>.
\<close>

definition linspace :: "real \<Rightarrow> real \<Rightarrow> int \<Rightarrow> error + real list" where
  "linspace start stop num =
     (if num < 0 then Inl ValueError
      else if num = 1 then Inr [start]
      else Inr (map (\<lambda>i. start + real i * ((stop - start) / real (nat num - 1)))
                    [0..<nat num]))"

subsection \<open>Images and responses\<close>

type_synonym byte = "8 word"

type_synonym rgba = "real \<times> real \<times> real \<times> real"

type_synonym pixel = "byte \<times> byte \<times> byte \<times> byte"

text \<open>A PIL image: its size as PIL reports it, (width, height), and its rows of pixels.\<close>

record image =
  im_mode :: string
  im_width :: nat
  im_height :: nat
  im_pixels :: "pixel list list"

text \<open>\<^verbatim>\<open>np.uint8(x)\<close> on a float: truncation towards zero, then the low eight bits.\<close>

definition np_uint8 :: "real \<Rightarrow> byte" where
  "np_uint8 r = word_of_int (if 0 \<le> r then \<lfloor>r\<rfloor> else \<lceil>r\<rceil>)"

definition times255 :: "rgba \<Rightarrow> rgba" where
  "times255 c = (case c of (r, g, b, a) \<Rightarrow> (r * 255, g * 255, b * 255, a * 255))"

definition uint8_pixel :: "rgba \<Rightarrow> pixel" where
  "uint8_pixel c = (case c of (r, g, b, a) \<Rightarrow> (np_uint8 r, np_uint8 g, np_uint8 b, np_uint8 a))"

text \<open>
  \<^verbatim>\<open>Image.fromarray\<close> on an array of shape (rows, columns, 4): an RGBA image as wide as
  the array has columns and as tall as it has rows.
\<close>

definition Image_fromarray :: "pixel list list \<Rightarrow> image" where
  "Image_fromarray arr =
     \<lparr>im_mode = ''RGBA'', im_width = ncols arr, im_height = nrows arr, im_pixels = arr\<rparr>"

record Response =
  content :: "byte list"
  media_type :: string

subsection \<open>The request of the bounding-box endpoint\<close>

text \<open>The pydantic model \<^verbatim>\<open>ImageQuery\<close> (lines 30 to 37).\<close>

record ImageQuery =
  bbox :: string
  width :: int
  height :: int
  parameter :: string
  datetime :: string
  crs :: string
  cmap :: "string option"

text \<open>
  The constructor call of line 48 with the values \<^verbatim>\<open>image_query\<close> can pass: every field
  but \<^verbatim>\<open>cmap\<close> is required (\<^verbatim>\<open>Field(...)\<close>), and of the required ones only \<^verbatim>\<open>crs\<close> can
  arrive as \<^verbatim>\<open>None\<close>, which pydantic refuses for a \<^verbatim>\<open>str\<close> field.
\<close>

definition ImageQuery_init ::
  "string \<Rightarrow> int \<Rightarrow> int \<Rightarrow> string \<Rightarrow> string option \<Rightarrow> string \<Rightarrow> string option
   \<Rightarrow> error + ImageQuery" where
  "ImageQuery_init bbox' width' height' parameter' cmap' datetime' crs' =
     (case crs' of
        None \<Rightarrow> Inl ValidationError
      | Some c \<Rightarrow>
          Inr \<lparr>bbox = bbox', width = width', height = height', parameter = parameter',
               datetime = datetime', crs = c, cmap = cmap'\<rparr>)"

text \<open>The dependency \<^verbatim>\<open>image_query\<close> (lines 40 to 48).\<close>

definition image_query ::
  "string \<Rightarrow> int \<Rightarrow> int \<Rightarrow> string \<Rightarrow> string \<Rightarrow> string option \<Rightarrow> string option
   \<Rightarrow> error + ImageQuery" where
  "image_query bbox' width' height' parameter' datetime' crs' cmap' =
     ImageQuery_init bbox' width' height' parameter' cmap' datetime' crs'"

text \<open>Python's truth value of an optional string: \<^verbatim>\<open>None\<close> and \<^verbatim>\<open>''\<close> are false.\<close>

definition truthy :: "string option \<Rightarrow> bool" where
  "truthy s = (case s of None \<Rightarrow> False | Some t \<Rightarrow> t \<noteq> [])"

subsection \<open>Calls, the world and the monad\<close>

text \<open>An indexer of \<^verbatim>\<open>cf.sel\<close>: \<^verbatim>\<open>slice(a, b)\<close> or a label.\<close>

datatype indexer = Slice pyfloat pyfloat | Label string

datatype resampling = Nearest | Bilinear

text \<open>\<^verbatim>\<open>mercantile.LngLatBbox\<close>, in degrees.\<close>

record LngLatBbox =
  west :: real
  south :: real
  east :: real
  north :: real

text \<open>The dataset of line 104: two one-dimensional coordinates.\<close>

record out_grid =
  lat :: "real list"
  lon :: "real list"

text \<open>
  One event for each call a handler makes, with the arguments the call is made with;
  the events of a request, in the order of the calls, are its trace.
\<close>

datatype event =
    Float string
  | From_crs string string
  | Transform pyfloat pyfloat
  | Cf_sel "(string \<times> indexer) list"
  | Squeeze
  | Rio_crs
  | Write_crs int
  | Getitem string
  | Reproject string "(int \<times> int) option" resampling
  | Min_call
  | Max_call
  | Scale grid pyfloat pyfloat
  | Get_cmap "string option"
  | Cmap_call grid
  | Fromarray
  | Save image string
  | Respond string
  | Bounds int int int
  | Log_warning LngLatBbox
  | Linspace real real int
  | Regridder_init out_grid string
  | Regrid
  | Set_spatial_dims string string

text \<open>
  What a handler can read and write: the two objects FastAPI injects, the request object
  (none for the tile endpoint) and the dataset of \<^verbatim>\<open>Depends(get_dataset)\<close>, and the trace.
\<close>

record ('q, 'ds) world =
  request_obj :: 'q
  dataset_obj :: 'ds
  trace :: "event list"

type_synonym ('w, 'a) prog = "'w \<Rightarrow> (error + 'a) \<times> 'w"

definition ret :: "'a \<Rightarrow> ('w, 'a) prog" where
  "ret x = (\<lambda>w. (Inr x, w))"

definition raise :: "error \<Rightarrow> ('w, 'a) prog" where
  "raise e = (\<lambda>w. (Inl e, w))"

definition bnd :: "('w, 'a) prog \<Rightarrow> ('a \<Rightarrow> ('w, 'b) prog) \<Rightarrow> ('w, 'b) prog" where
  "bnd m f = (\<lambda>w. case m w of (Inl e, w') \<Rightarrow> (Inl e, w') | (Inr x, w') \<Rightarrow> f x w')"

definition emit :: "event \<Rightarrow> (('q, 'ds) world, unit) prog" where
  "emit ev = (\<lambda>w. (Inr (), w\<lparr>trace := trace w @ [ev]\<rparr>))"

text \<open>A call: its event, then its result or its exception.\<close>

definition call :: "event \<Rightarrow> error + 'a \<Rightarrow> (('q, 'ds) world, 'a) prog" where
  "call ev r = bnd (emit ev) (\<lambda>_. case r of Inl e \<Rightarrow> raise e | Inr x \<Rightarrow> ret x)"

definition get_request :: "(('q, 'ds) world, 'q) prog" where
  "get_request = (\<lambda>w. (Inr (request_obj w), w))"

definition set_request :: "'q \<Rightarrow> (('q, 'ds) world, unit) prog" where
  "set_request q = (\<lambda>w. (Inr (), w\<lparr>request_obj := q\<rparr>))"

definition get_dataset :: "(('q, 'ds) world, 'ds) prog" where
  "get_dataset = (\<lambda>w. (Inr (dataset_obj w), w))"

subsection \<open>The external libraries\<close>

text \<open>
  The calls into pyproj, xarray with cf\_xarray and rioxarray, mercantile, xesmf,
  matplotlib and PIL. Their objects are abstract: \<open>'ds\<close> a \<^verbatim>\<open>Dataset\<close>, \<open>'da\<close> a
  \<^verbatim>\<open>DataArray\<close>, \<open>'tr\<close> a \<^verbatim>\<open>Transformer\<close>, \<open>'rg\<close> a \<^verbatim>\<open>Regridder\<close>, \<open>'cm\<close> a colour
  map. Every call that can raise returns a sum. The xarray calls the handlers make
  (\<^verbatim>\<open>sel\<close>, \<^verbatim>\<open>squeeze\<close>, \<^verbatim>\<open>write_crs\<close> without \<^verbatim>\<open>inplace\<close>, indexing, \<^verbatim>\<open>reproject\<close>) return a
  new object and leave the one they are called on as it was, so they are functions of
  it. \<open>xr_values\<close> are the numbers of a two-dimensional array. \<open>fastapi_int\<close> is the
  conversion FastAPI applies to the text of a parameter that the signature of an
  endpoint or of a dependency declares \<^verbatim>\<open>int\<close>.
\<close>

record ('ds, 'da, 'tr, 'rg, 'cm) libs =
  pyproj_from_crs :: "string \<Rightarrow> string \<Rightarrow> error + 'tr"
  pyproj_transform :: "'tr \<Rightarrow> pyfloat \<Rightarrow> pyfloat \<Rightarrow> error + (pyfloat \<times> pyfloat)"
  cf_sel :: "'ds \<Rightarrow> (string \<times> indexer) list \<Rightarrow> error + 'ds"
  xr_squeeze :: "'ds \<Rightarrow> error + 'ds"
  rio_crs :: "'ds \<Rightarrow> string option"
  rio_write_crs :: "'ds \<Rightarrow> int \<Rightarrow> error + 'ds"
  xr_getitem :: "'ds \<Rightarrow> string \<Rightarrow> error + 'da"
  rio_reproject :: "'da \<Rightarrow> string \<Rightarrow> (int \<times> int) option \<Rightarrow> resampling \<Rightarrow> error + 'da"
  xr_values :: "'da \<Rightarrow> grid"
  cm_get_cmap :: "string option \<Rightarrow> error + 'cm"
  cm_call :: "'cm \<Rightarrow> pyfloat \<Rightarrow> rgba"
  pil_save :: "image \<Rightarrow> string \<Rightarrow> error + byte list"
  mercantile_bounds :: "int \<Rightarrow> int \<Rightarrow> int \<Rightarrow> error + LngLatBbox"
  xe_Regridder :: "'ds \<Rightarrow> out_grid \<Rightarrow> string \<Rightarrow> error + 'rg"
  xe_regrid :: "'rg \<Rightarrow> 'da \<Rightarrow> error + 'da"
  da_write_crs :: "'da \<Rightarrow> int \<Rightarrow> error + 'da"
  da_set_spatial_dims :: "'da \<Rightarrow> string \<Rightarrow> string \<Rightarrow> error + 'da"
  fastapi_int :: "string \<Rightarrow> error + int"

subsection \<open>The handlers\<close>

text \<open>Line 52: \<^verbatim>\<open>float\<close> on each piece in turn, the first failure ending the request.\<close>

fun float_each :: "string list \<Rightarrow> (('q, 'ds) world, pyfloat list) prog" where
  "float_each [] = ret []"
| "float_each (x # xs) =
     bnd (call (Float x) (py_float x)) (\<lambda>v.
     bnd (float_each xs) (\<lambda>vs.
     ret (v # vs)))"

text \<open>The unpacking of line 52 into four names: any other number of values raises.\<close>

definition unpack4 :: "'a list \<Rightarrow> error + ('a \<times> 'a \<times> 'a \<times> 'a)" where
  "unpack4 vs = (case vs of [a, b, c, d] \<Rightarrow> Inr (a, b, c, d) | _ \<Rightarrow> Inl ValueError)"

definition lift :: "error + 'a \<Rightarrow> ('w, 'a) prog" where
  "lift r = (case r of Inl e \<Rightarrow> raise e | Inr x \<Rightarrow> ret x)"

text \<open>Line 87 and line 126: colour map, times 255, \<^verbatim>\<open>np.uint8\<close>, \<^verbatim>\<open>Image.fromarray\<close>.\<close>

definition colorize ::
  "('ds, 'da, 'tr, 'rg, 'cm) libs \<Rightarrow> 'cm \<Rightarrow> grid \<Rightarrow> (('q, 'ds) world, image) prog" where
  "colorize L cm ds_scaled =
     bnd (call (Cmap_call ds_scaled) (Inr (map (map (cm_call L cm)) ds_scaled))) (\<lambda>colors.
     bnd (call Fromarray
            (Inr (Image_fromarray (map (map (\<lambda>c. uint8_pixel (times255 c))) colors)))) (\<lambda>im.
     ret im))"

text \<open>The handler of \<^verbatim>\<open>GET /\<close> (lines 51 to 93).\<close>

definition get_image ::
  "('ds, 'da, 'tr, 'rg, 'cm) libs \<Rightarrow> ((ImageQuery, 'ds) world, Response) prog" where
  "get_image L =
     bnd get_request (\<lambda>query.
     bnd get_dataset (\<lambda>dataset.
     bnd (float_each (split_comma (bbox query))) (\<lambda>vs.
     bnd (lift (unpack4 vs)) (\<lambda>(xmin, ymin, xmax, ymax).
     bnd (if crs query \<noteq> ''EPSG:4326'' then
            bnd (call (From_crs (crs query) ''EPSG:4326'')
                   (pyproj_from_crs L (crs query) ''EPSG:4326'')) (\<lambda>transformer.
            bnd (call (Transform xmin ymin) (pyproj_transform L transformer xmin ymin))
              (\<lambda>min_coord.
            bnd (call (Transform xmax ymax) (pyproj_transform L transformer xmax ymax))
              (\<lambda>max_coord.
            ret (min_coord, max_coord))))
          else ret ((xmin, ymin), (xmax, ymax))) (\<lambda>(min_coord, max_coord).
     bnd (ret [(''X'', Slice (fst min_coord) (fst max_coord)),
               (''Y'', Slice (snd min_coord) (snd max_coord)),
               (''T'', Label (datetime query))]) (\<lambda>sel.
     bnd (call (Cf_sel sel) (cf_sel L dataset sel)) (\<lambda>q0.
     bnd (call Squeeze (xr_squeeze L q0)) (\<lambda>q.
     bnd (call Rio_crs (Inr (rio_crs L q))) (\<lambda>c.
     bnd (if c = None then call (Write_crs 4326) (rio_write_crs L q 4326) else ret q) (\<lambda>q.
     bnd (call (Getitem (parameter query)) (xr_getitem L q (parameter query))) (\<lambda>da.
     bnd (call (Reproject (crs query) (Some (width query, height query)) Bilinear)
            (rio_reproject L da (crs query) (Some (width query, height query)) Bilinear))
       (\<lambda>resampled_data.
     bnd (call Min_call (nanmin (concat (xr_values L resampled_data)))) (\<lambda>min_value.
     bnd (call Max_call (nanmax (concat (xr_values L resampled_data)))) (\<lambda>max_value.
     bnd (call (Scale (xr_values L resampled_data) min_value max_value)
            (Inr (scale_grid (xr_values L resampled_data) min_value max_value)))
       (\<lambda>ds_scaled.
     bnd (if \<not> truthy (cmap query)
          then set_request (query\<lparr>cmap := Some ''rainbow''\<rparr>) else ret ()) (\<lambda>_.
     bnd get_request (\<lambda>query.
     bnd (call (Get_cmap (cmap query)) (cm_get_cmap L (cmap query))) (\<lambda>cm.
     bnd (colorize L cm ds_scaled) (\<lambda>im.
     bnd (call (Save im ''PNG'') (pil_save L im ''PNG'')) (\<lambda>image_bytes.
     bnd (emit (Respond ''image/png'')) (\<lambda>_.
     ret \<lparr>content = image_bytes, media_type = ''image/png''\<rparr>)))))))))))))))))))))"

text \<open>
  The handler of \<^verbatim>\<open>GET /tile/{parameter}/{t}/{z}/{x}/{y}\<close> (lines 96 to 132). The
  parameter \<^verbatim>\<open>size\<close> is \<open>tile_size\<close> here.
\<close>

definition get_image_tile ::
  "('ds, 'da, 'tr, 'rg, 'cm) libs \<Rightarrow> string \<Rightarrow> string \<Rightarrow> int \<Rightarrow> int \<Rightarrow> int \<Rightarrow> int
   \<Rightarrow> ((unit, 'ds) world, Response) prog" where
  "get_image_tile L param t z x y tile_size =
     bnd get_dataset (\<lambda>dataset.
     bnd (call Rio_crs (Inr (rio_crs L dataset))) (\<lambda>c.
     bnd (if c = None then call (Write_crs 4326) (rio_write_crs L dataset 4326)
          else ret dataset) (\<lambda>dataset.
     bnd (call (Cf_sel [(''T'', Label t)]) (cf_sel L dataset [(''T'', Label t)])) (\<lambda>q0.
     bnd (call Squeeze (xr_squeeze L q0)) (\<lambda>q.
     bnd (call (Bounds x y z) (mercantile_bounds L x y z)) (\<lambda>bbox.
     bnd (emit (Log_warning bbox)) (\<lambda>_.
     bnd (call (Linspace (south bbox) (north bbox) tile_size)
            (linspace (south bbox) (north bbox) tile_size)) (\<lambda>lats.
     bnd (call (Linspace (west bbox) (east bbox) tile_size)
            (linspace (west bbox) (east bbox) tile_size)) (\<lambda>lons.
     bnd (ret \<lparr>lat = lats, lon = lons\<rparr>) (\<lambda>ds_out.
     bnd (call (Regridder_init ds_out ''bilinear'') (xe_Regridder L q ds_out ''bilinear''))
       (\<lambda>regridder.
     bnd (call (Getitem param) (xr_getitem L q param)) (\<lambda>da.
     bnd (call Regrid (xe_regrid L regridder da)) (\<lambda>resampled_data.
     bnd (call (Write_crs 4326) (da_write_crs L resampled_data 4326)) (\<lambda>resampled_data.
     bnd (call (Set_spatial_dims ''lon'' ''lat'')
            (da_set_spatial_dims L resampled_data ''lon'' ''lat'')) (\<lambda>resampled_data.
     bnd (call (Reproject ''EPSG:3857'' None Nearest)
            (rio_reproject L resampled_data ''EPSG:3857'' None Nearest)) (\<lambda>resampled_data.
     bnd (ret (Fin 0)) (\<lambda>min_value.
     bnd (ret (Fin 5)) (\<lambda>max_value.
     bnd (call (Scale (xr_values L resampled_data) min_value max_value)
            (Inr (scale_grid (xr_values L resampled_data) min_value max_value)))
       (\<lambda>ds_scaled.
     bnd (call (Get_cmap (Some ''rainbow'')) (cm_get_cmap L (Some ''rainbow''))) (\<lambda>cm.
     bnd (colorize L cm ds_scaled) (\<lambda>im.
     bnd (call (Save im ''PNG'') (pil_save L im ''PNG'')) (\<lambda>image_bytes.
     bnd (emit (Respond ''image/png'')) (\<lambda>_.
     ret \<lparr>content = image_bytes, media_type = ''image/png''\<rparr>)))))))))))))))))))))))"

subsection \<open>The router and the endpoints\<close>

datatype http_method = GET | POST | PUT | DELETE

datatype handler = Get_image | Get_image_tile

record route =
  route_method :: http_method
  route_path :: string
  route_endpoint :: handler

text \<open>
  \<^verbatim>\<open>image_router\<close> after the module is loaded: the two decorators of lines 50 and 95
  have each added one route, in this order.
\<close>

definition image_router :: "route list" where
  "image_router =
     [\<lparr>route_method = GET, route_path = ''/'', route_endpoint = Get_image\<rparr>,
      \<lparr>route_method = GET, route_path = ''/tile/{parameter}/{t}/{z}/{x}/{y}'',
       route_endpoint = Get_image_tile\<rparr>]"

text \<open>
  What a client sends to \<^verbatim>\<open>GET /\<close>: each query parameter is there or not, and when it is
  there it is text.
\<close>

record image_params =
  p_bbox :: "string option"
  p_width :: "string option"
  p_height :: "string option"
  p_parameter :: "string option"
  p_datetime :: "string option"
  p_crs :: "string option"
  p_cmap :: "string option"

text \<open>
  FastAPI resolving \<^verbatim>\<open>Depends(image_query)\<close> (lines 40 to 47): a parameter with no
  default in the signature is required, and \<^verbatim>\<open>width\<close> and \<^verbatim>\<open>height\<close>, declared \<^verbatim>\<open>int\<close>,
  are converted from their text. A request that lacks a required parameter, or whose
  \<^verbatim>\<open>width\<close> or \<^verbatim>\<open>height\<close> does not convert, is refused with \<open>RequestValidationError\<close>
  (status 422) before \<^verbatim>\<open>image_query\<close> is called; \<^verbatim>\<open>crs\<close> and \<^verbatim>\<open>cmap\<close> have the default
  \<^verbatim>\<open>None\<close>.
\<close>

definition depends_image_query ::
  "('ds, 'da, 'tr, 'rg, 'cm) libs \<Rightarrow> image_params \<Rightarrow> error + ImageQuery" where
  "depends_image_query L ps =
     (case p_bbox ps of None \<Rightarrow> Inl RequestValidationError | Some b \<Rightarrow>
     (case p_width ps of None \<Rightarrow> Inl RequestValidationError | Some wt \<Rightarrow>
     (case fastapi_int L wt of Inl e \<Rightarrow> Inl RequestValidationError | Inr w \<Rightarrow>
     (case p_height ps of None \<Rightarrow> Inl RequestValidationError | Some ht \<Rightarrow>
     (case fastapi_int L ht of Inl e \<Rightarrow> Inl RequestValidationError | Inr h \<Rightarrow>
     (case p_parameter ps of None \<Rightarrow> Inl RequestValidationError | Some p \<Rightarrow>
     (case p_datetime ps of None \<Rightarrow> Inl RequestValidationError | Some d \<Rightarrow>
        image_query b w h p d (p_crs ps) (p_cmap ps))))))))"

text \<open>
  One request to \<^verbatim>\<open>GET /\<close>: FastAPI resolves the dependencies, and only when they
  resolve does it call the handler, on the request object and the dataset it injects
  and with an empty trace. The result is what the handler returned or raised, the
  dataset object as the request leaves it, and the trace.
\<close>

definition serve_image ::
  "('ds, 'da, 'tr, 'rg, 'cm) libs \<Rightarrow> image_params \<Rightarrow> 'ds
   \<Rightarrow> (error + Response) \<times> 'ds \<times> event list" where
  "serve_image L ps dataset =
     (case depends_image_query L ps of
        Inl e \<Rightarrow> (Inl e, dataset, [])
      | Inr query \<Rightarrow>
          (case get_image L \<lparr>request_obj = query, dataset_obj = dataset, trace = []\<rparr> of
             (r, w) \<Rightarrow> (r, dataset_obj w, trace w)))"

text \<open>
  The parameters of a tile request: the five path parameters, which a request that
  matches the route always has, and the query parameter \<^verbatim>\<open>size\<close>, whose default in the
  signature of line 96 is 256.
\<close>

record tile_params =
  tp_parameter :: string
  tp_t :: string
  tp_z :: int
  tp_x :: int
  tp_y :: int
  tp_size :: "int option"

definition serve_tile ::
  "('ds, 'da, 'tr, 'rg, 'cm) libs \<Rightarrow> tile_params \<Rightarrow> 'ds
   \<Rightarrow> (error + Response) \<times> 'ds \<times> event list" where
  "serve_tile L ps dataset =
     (case get_image_tile L (tp_parameter ps) (tp_t ps) (tp_z ps) (tp_x ps) (tp_y ps)
             (case tp_size ps of None \<Rightarrow> 256 | Some n \<Rightarrow> n)
             \<lparr>request_obj = (), dataset_obj = dataset, trace = []\<rparr> of
        (r, w) \<Rightarrow> (r, dataset_obj w, trace w))"

subsection \<open>A stand-in for the libraries\<close>

text \<open>
  A small implementation of the library record, to run the handlers on concrete
  requests: a dataset is a list of named arrays, selection and CRS tagging return their
  argument, reprojection and regridding sample the array at the requested number of rows
  and columns (the first component of \<^verbatim>\<open>shape\<close> is the number of rows, as in rioxarray),
  the colour map is a grey ramp, and the encoder writes a signature and the two sizes.
  An array with fewer than two rows or two columns has lost a dimension in
  \<^verbatim>\<open>squeeze\<close>, and reprojection and regridding raise on it. An integer is read from an
  optional sign and decimal digits.
\<close>

definition demo_int :: "string \<Rightarrow> error + int" where
  "demo_int s =
     (let (neg, ds) =
        (case s of
           [] \<Rightarrow> (False, s)
         | c # r \<Rightarrow> if c = CHR ''-'' then (True, r)
                    else if c = CHR ''+'' then (False, r) else (False, s))
      in if ds \<noteq> [] \<and> list_all is_digit ds
         then Inr (if neg then - int (digits_val ds) else int (digits_val ds))
         else Inl ValueError)"

definition demo_resample :: "nat \<Rightarrow> nat \<Rightarrow> grid \<Rightarrow> grid" where
  "demo_resample h w g =
     map (\<lambda>i. map (\<lambda>j. if nrows g = 0 \<or> ncols g = 0 then NaN
                        else g ! (i * nrows g div h) ! (j * ncols g div w)) [0..<w]) [0..<h]"

definition demo_grey :: "pyfloat \<Rightarrow> rgba" where
  "demo_grey v =
     (case v of
        Fin r \<Rightarrow> (let c = max 0 (min 1 r) in (c, c, c, 1))
      | PInf \<Rightarrow> (1, 1, 1, 1)
      | NInf \<Rightarrow> (0, 0, 0, 1)
      | NaN \<Rightarrow> (0, 0, 0, 0))"

definition demo_libs :: "((string \<times> grid) list, grid, unit, nat \<times> nat, string) libs" where
  "demo_libs =
     \<lparr>pyproj_from_crs =
        (\<lambda>a b. if a = ''EPSG:3857'' \<or> a = ''EPSG:4326'' then Inr () else Inl CRSError),
      pyproj_transform = (\<lambda>tr a b. Inr (a, b)),
      cf_sel = (\<lambda>ds sel. Inr ds),
      xr_squeeze = (\<lambda>ds. Inr ds),
      rio_crs = (\<lambda>ds. None),
      rio_write_crs = (\<lambda>ds n. Inr ds),
      xr_getitem = (\<lambda>ds name. case map_of ds name of None \<Rightarrow> Inl KeyError | Some g \<Rightarrow> Inr g),
      rio_reproject =
        (\<lambda>da c shape r.
           if nrows da < 2 \<or> ncols da < 2 then Inl LibraryError
           else (case shape of
                   None \<Rightarrow> Inr da
                 | Some (h, w) \<Rightarrow>
                     if h \<le> 0 \<or> w \<le> 0 then Inl ValueError
                     else Inr (demo_resample (nat h) (nat w) da))),
      xr_values = (\<lambda>da. da),
      cm_get_cmap =
        (\<lambda>name. case name of
           None \<Rightarrow> Inr ''viridis''
         | Some n \<Rightarrow> if n = ''rainbow'' \<or> n = ''viridis'' then Inr n else Inl ValueError),
      cm_call = (\<lambda>cm. demo_grey),
      pil_save =
        (\<lambda>im fmt. Inr [137, 80, 78, 71, of_nat (im_width im), of_nat (im_height im)]),
      mercantile_bounds =
        (\<lambda>x y z. Inr \<lparr>west = real_of_int x, south = real_of_int y,
                       east = real_of_int x + 1, north = real_of_int y + 1\<rparr>),
      xe_Regridder = (\<lambda>q g m. Inr (length (lat g), length (lon g))),
      xe_regrid =
        (\<lambda>rg da. if nrows da < 2 \<or> ncols da < 2 then Inl LibraryError
                  else Inr (demo_resample (fst rg) (snd rg) da)),
      da_write_crs = (\<lambda>da n. Inr da),
      da_set_spatial_dims = (\<lambda>da a b. Inr da),
      fastapi_int = demo_int\<rparr>"

definition demo_dataset :: "(string \<times> grid) list" where
  "demo_dataset = [(''temp'', [[Fin 1, Fin 2], [Fin 3, Fin 5]])]"

definition demo_query :: ImageQuery where
  "demo_query =
     \<lparr>bbox = ''0,0,1,1'', width = 2, height = 3, parameter = ''temp'',
      datetime = ''2022-01-01'', crs = ''EPSG:4326'', cmap = None\<rparr>"

definition demo_params :: image_params where
  "demo_params =
     \<lparr>p_bbox = Some ''0,0,1,1'', p_width = Some ''2'', p_height = Some ''3'',
      p_parameter = Some ''temp'', p_datetime = Some ''2022-01-01'',
      p_crs = Some ''EPSG:4326'', p_cmap = None\<rparr>"

definition demo_tile :: tile_params where
  "demo_tile =
     \<lparr>tp_parameter = ''temp'', tp_t = ''2022-01-01'', tp_z = 1, tp_x = 0, tp_y = 0,
      tp_size = Some 2\<rparr>"

subsection \<open>Predicates on programs and traces\<close>

text \<open>A program that only appends to the trace, and only events that satisfy \<open>P\<close>.\<close>

definition emits_only :: "(event \<Rightarrow> bool) \<Rightarrow> (('q, 'ds) world, 'a) prog \<Rightarrow> bool" where
  "emits_only P m = (\<forall>w. \<exists>es. trace (snd (m w)) = trace w @ es \<and> list_all P es)"

text \<open>The two stand-in requests, served: what they return and the calls they make.\<close>

definition demo_image_response :: Response where
  "demo_image_response = \<lparr>content = [137, 80, 78, 71, 3, 2], media_type = ''image/png''\<rparr>"

definition demo_image_picture :: image where
  "demo_image_picture =
     \<lparr>im_mode = ''RGBA'', im_width = 3, im_height = 2,
      im_pixels =
        [[(0, 0, 0, 255), (0, 0, 0, 255), (63, 63, 63, 255)],
         [(127, 127, 127, 255), (127, 127, 127, 255), (255, 255, 255, 255)]]\<rparr>"

definition demo_image_trace :: "event list" where
  "demo_image_trace =
     [Float ''0'', Float ''0'', Float ''1'', Float ''1'',
      Cf_sel [(''X'', Slice (Fin 0) (Fin 1)), (''Y'', Slice (Fin 0) (Fin 1)),
              (''T'', Label ''2022-01-01'')],
      Squeeze, Rio_crs, Write_crs 4326, Getitem ''temp'',
      Reproject ''EPSG:4326'' (Some (2, 3)) Bilinear, Min_call, Max_call,
      Scale [[Fin 1, Fin 1, Fin 2], [Fin 3, Fin 3, Fin 5]] (Fin 1) (Fin 5),
      Get_cmap (Some ''rainbow''),
      Cmap_call [[Fin 0, Fin 0, Fin (1 / 4)], [Fin (1 / 2), Fin (1 / 2), Fin 1]],
      Fromarray, Save demo_image_picture ''PNG'', Respond ''image/png'']"

definition demo_tile_response :: Response where
  "demo_tile_response = \<lparr>content = [137, 80, 78, 71, 2, 2], media_type = ''image/png''\<rparr>"

definition demo_tile_picture :: image where
  "demo_tile_picture =
     \<lparr>im_mode = ''RGBA'', im_width = 2, im_height = 2,
      im_pixels =
        [[(51, 51, 51, 255), (102, 102, 102, 255)],
         [(153, 153, 153, 255), (255, 255, 255, 255)]]\<rparr>"

definition demo_tile_trace :: "event list" where
  "demo_tile_trace =
     [Rio_crs, Write_crs 4326, Cf_sel [(''T'', Label ''2022-01-01'')], Squeeze,
      Bounds 0 0 1, Log_warning \<lparr>west = 0, south = 0, east = 1, north = 1\<rparr>,
      Linspace 0 1 2, Linspace 0 1 2,
      Regridder_init \<lparr>lat = [0, 1], lon = [0, 1]\<rparr> ''bilinear'',
      Getitem ''temp'', Regrid, Write_crs 4326, Set_spatial_dims ''lon'' ''lat'',
      Reproject ''EPSG:3857'' None Nearest,
      Scale [[Fin 1, Fin 2], [Fin 3, Fin 5]] (Fin 0) (Fin 5),
      Get_cmap (Some ''rainbow''),
      Cmap_call [[Fin (1 / 5), Fin (2 / 5)], [Fin (3 / 5), Fin 1]],
      Fromarray, Save demo_tile_picture ''PNG'', Respond ''image/png'']"

subsection \<open>The steps of the pipeline\<close>

text \<open>
  The eight steps the specification names, in its order, and the step each call serves.
  Reading or writing the CRS tag, naming the spatial dimensions and the log line serve
  none of them. Deriving the bounds of a tile is the tile handler's form of the
  bounding-box step; picking the variable, building the output grid and regridding
  belong to resampling.
\<close>

datatype step =
    Parse | Transform_bbox | Slice_dataset | Resample | Normalize | Colorize | Encode
  | Respond_step

definition pipeline :: "step list" where
  "pipeline =
     [Parse, Transform_bbox, Slice_dataset, Resample, Normalize, Colorize, Encode,
      Respond_step]"

fun step_of :: "event \<Rightarrow> step option" where
  "step_of (Float s) = Some Parse"
| "step_of (From_crs a b) = Some Transform_bbox"
| "step_of (Transform a b) = Some Transform_bbox"
| "step_of (Bounds x y z) = Some Transform_bbox"
| "step_of (Cf_sel sel) = Some Slice_dataset"
| "step_of Squeeze = Some Slice_dataset"
| "step_of Rio_crs = None"
| "step_of (Write_crs n) = None"
| "step_of (Set_spatial_dims a b) = None"
| "step_of (Log_warning b) = None"
| "step_of (Getitem p) = Some Resample"
| "step_of (Linspace a b n) = Some Resample"
| "step_of (Regridder_init g m) = Some Resample"
| "step_of Regrid = Some Resample"
| "step_of (Reproject c s r) = Some Resample"
| "step_of Min_call = Some Normalize"
| "step_of Max_call = Some Normalize"
| "step_of (Scale g lo hi) = Some Normalize"
| "step_of (Get_cmap n) = Some Colorize"
| "step_of (Cmap_call g) = Some Colorize"
| "step_of Fromarray = Some Colorize"
| "step_of (Save im f) = Some Encode"
| "step_of (Respond m) = Some Respond_step"

text \<open>The steps of a trace in the order they are entered: consecutive calls of one step count once.\<close>

definition steps :: "event list \<Rightarrow> step list" where
  "steps tr = remdups_adj (List.map_filter step_of tr)"

subsection \<open>Cells\<close>

text \<open>A cell that is a finite number or missing: not an infinity.\<close>

definition finite_or_nan :: "pyfloat \<Rightarrow> bool" where
  "finite_or_nan v = (v \<noteq> PInf \<and> v \<noteq> NInf)"

text \<open>
  A dataset of finite values whose largest and smallest are too far apart for their
  difference to be a double (below), and a dataset whose values are all the same.
\<close>

text \<open>The double \<open>2\<^sup>1\<^sup>0\<^sup>2\<^sup>3\<close>.\<close>

definition huge :: real where
  "huge = 89884656743115795386465259539451236680898848947115328636715040578866337902750481566354238661203768010560056939935696678829394884407208311246423715319737062188883946712432742638151109800623047059726541476042502884419075341171231440736956555270413618581675255342293149119973622969239858152417678164812112068608"

definition demo_dataset_wide :: "(string \<times> grid) list" where
  "demo_dataset_wide = [(''temp'', [[Fin (- huge), Fin 0], [Fin 0, Fin huge]])]"

definition demo_dataset_const :: "(string \<times> grid) list" where
  "demo_dataset_const = [(''temp'', [[Fin 2, Fin 2], [Fin 2, Fin 2]])]"

subsection \<open>Decimal numbers\<close>

text \<open>
  What the specification calls a decimal number, read as: an optional sign, one or more
  digits and, optionally, a point followed by digits.
\<close>

definition decimal_number :: "string \<Rightarrow> bool" where
  "decimal_number s =
     (let u = (case s of
                 [] \<Rightarrow> s
               | c # r \<Rightarrow> if c = CHR ''-'' \<or> c = CHR ''+'' then r else s)
      in takeWhile is_digit u \<noteq> [] \<and>
         (case dropWhile is_digit u of
            [] \<Rightarrow> True
          | c # fp \<Rightarrow> c = CHR ''.'' \<and> list_all is_digit fp))"
section \<open>Properties\<close>

subsection \<open>Runs that return\<close>

lemma bnd_Inr:
  "bnd m f w = (Inr y, w'') \<longleftrightarrow> (\<exists>x w'. m w = (Inr x, w') \<and> f x w' = (Inr y, w''))"
  by (auto simp: bnd_def split: prod.splits sum.splits)

lemma bnd_InrE:
  assumes "bnd m f w = (Inr y, w'')"
  obtains x w' where "m w = (Inr x, w')" "f x w' = (Inr y, w'')"
  using assms by (auto simp: bnd_Inr)

lemma ret_Inr: "ret x w = (Inr y, w') \<longleftrightarrow> (y = x \<and> w' = w)"
  by (auto simp: ret_def)

lemma raise_Inr: "raise e w = (Inr y, w') \<longleftrightarrow> False"
  by (auto simp: raise_def)

lemma emit_Inr: "emit ev w = (Inr u, w') \<longleftrightarrow> w' = w\<lparr>trace := trace w @ [ev]\<rparr>"
  by (auto simp: emit_def)

lemma call_Inr:
  "call ev r w = (Inr x, w') \<longleftrightarrow> (r = Inr x \<and> w' = w\<lparr>trace := trace w @ [ev]\<rparr>)"
  by (cases r) (auto simp: call_def bnd_Inr emit_Inr ret_Inr raise_Inr)

lemma lift_Inr: "lift r w = (Inr x, w') \<longleftrightarrow> (r = Inr x \<and> w' = w)"
  by (cases r) (auto simp: lift_def ret_Inr raise_Inr)

lemma get_request_Inr: "get_request w = (Inr q, w') \<longleftrightarrow> (q = request_obj w \<and> w' = w)"
  by (auto simp: get_request_def)

lemma get_dataset_Inr: "get_dataset w = (Inr d, w') \<longleftrightarrow> (d = dataset_obj w \<and> w' = w)"
  by (auto simp: get_dataset_def)

lemma set_request_Inr: "set_request q w = (Inr u, w') \<longleftrightarrow> w' = w\<lparr>request_obj := q\<rparr>"
  by (auto simp: set_request_def)

lemma float_each_Inr:
  "float_each xs w = (Inr vs, w') \<longleftrightarrow>
     (map py_float xs = map Inr vs \<and> w' = w\<lparr>trace := trace w @ map Float xs\<rparr>)"
proof (induction xs arbitrary: w vs)
  case Nil
  then show ?case by (auto simp: ret_Inr)
next
  case (Cons x xs)
  show ?case
    by (cases vs) (auto simp: bnd_Inr call_Inr ret_Inr Cons.IH)
qed

lemma colorize_Inr:
  "colorize L cm g w = (Inr im, w') \<longleftrightarrow>
     (im = Image_fromarray (map (map (\<lambda>v. uint8_pixel (times255 (cm_call L cm v)))) g) \<and>
      w' = w\<lparr>trace := trace w @ [Cmap_call g, Fromarray]\<rparr>)"
  by (auto simp: colorize_def bnd_Inr call_Inr ret_Inr comp_def)

lemma if_prog_Inr:
  "(if c then a else b) w = (Inr x, w') \<longleftrightarrow>
     (if c then a w = (Inr x, w') else b w = (Inr x, w'))"
  by simp

lemma unpack4_Inr:
  "unpack4 vs = Inr t \<longleftrightarrow> vs = [fst t, fst (snd t), fst (snd (snd t)), snd (snd (snd t))]"
  by (auto simp: unpack4_def split: list.splits)

lemmas Inr_simps = bnd_Inr ret_Inr raise_Inr emit_Inr call_Inr lift_Inr get_request_Inr
  get_dataset_Inr set_request_Inr float_each_Inr colorize_Inr if_prog_Inr unpack4_Inr

text \<open>Everything a run of \<^verbatim>\<open>get_image\<close> that returns a response has gone through.\<close>

lemma get_image_success:
  assumes "get_image L w = (Inr resp, w')"
  obtains xmin ymin xmax ymax mc xc q0 q1 q da rd lo hi cm bytes where
     "map py_float (split_comma (bbox (request_obj w))) = map Inr [xmin, ymin, xmax, ymax]"
     "if crs (request_obj w) \<noteq> ''EPSG:4326''
      then \<exists>tr. pyproj_from_crs L (crs (request_obj w)) ''EPSG:4326'' = Inr tr \<and>
             pyproj_transform L tr xmin ymin = Inr mc \<and>
             pyproj_transform L tr xmax ymax = Inr xc
      else mc = (xmin, ymin) \<and> xc = (xmax, ymax)"
     "cf_sel L (dataset_obj w)
        [(''X'', Slice (fst mc) (fst xc)), (''Y'', Slice (snd mc) (snd xc)),
         (''T'', Label (datetime (request_obj w)))] = Inr q0"
     "xr_squeeze L q0 = Inr q1"
     "if rio_crs L q1 = None then rio_write_crs L q1 4326 = Inr q else q = q1"
     "xr_getitem L q (parameter (request_obj w)) = Inr da"
     "rio_reproject L da (crs (request_obj w))
        (Some (width (request_obj w), height (request_obj w))) Bilinear = Inr rd"
     "nanmin (concat (xr_values L rd)) = Inr lo"
     "nanmax (concat (xr_values L rd)) = Inr hi"
     "cm_get_cmap L (if truthy (cmap (request_obj w)) then cmap (request_obj w)
                     else Some ''rainbow'') = Inr cm"
     "pil_save L (Image_fromarray (map (map (\<lambda>v. uint8_pixel (times255 (cm_call L cm v))))
                    (scale_grid (xr_values L rd) lo hi))) ''PNG'' = Inr bytes"
     "resp = \<lparr>content = bytes, media_type = ''image/png''\<rparr>"
     "request_obj w' = (if truthy (cmap (request_obj w)) then request_obj w
                        else (request_obj w)\<lparr>cmap := Some ''rainbow''\<rparr>)"
     "dataset_obj w' = dataset_obj w"
     "trace w' = trace w @ map Float (split_comma (bbox (request_obj w))) @
       (if crs (request_obj w) \<noteq> ''EPSG:4326''
        then [From_crs (crs (request_obj w)) ''EPSG:4326'', Transform xmin ymin,
              Transform xmax ymax]
        else []) @
       [Cf_sel [(''X'', Slice (fst mc) (fst xc)), (''Y'', Slice (snd mc) (snd xc)),
                (''T'', Label (datetime (request_obj w)))], Squeeze, Rio_crs] @
       (if rio_crs L q1 = None then [Write_crs 4326] else []) @
       [Getitem (parameter (request_obj w)),
        Reproject (crs (request_obj w))
          (Some (width (request_obj w), height (request_obj w))) Bilinear,
        Min_call, Max_call, Scale (xr_values L rd) lo hi,
        Get_cmap (if truthy (cmap (request_obj w)) then cmap (request_obj w)
                  else Some ''rainbow''),
        Cmap_call (scale_grid (xr_values L rd) lo hi), Fromarray,
        Save (Image_fromarray (map (map (\<lambda>v. uint8_pixel (times255 (cm_call L cm v))))
                    (scale_grid (xr_values L rd) lo hi))) ''PNG'',
        Respond ''image/png'']"
  using assms(1) unfolding get_image_def
  apply (simp only: split_def)
  apply (elim bnd_InrE)
  apply (simp add: Inr_simps cong: if_cong)
  apply (elim exE conjE)
  subgoal for x xa xb xc xd w'd xe xf xg xh xi w'i xj xk xl xm xn w'o xp xq xr xs w't
    apply (rule that[of "fst xc" "fst (snd xc)" "fst (snd (snd xc))" "snd (snd (snd xc))"
           "fst xd" "snd xd" xf xg xi xj xk xl xm xq xs])
                  apply (simp_all split: if_splits)
    done
  done

text \<open>Everything a run of \<^verbatim>\<open>get_image_tile\<close> that returns a response has gone through.\<close>

lemma get_image_tile_success:
  assumes "get_image_tile L p t z x y n w = (Inr resp, w')"
  obtains ds1 q0 q b lats lons rg da r1 r2 r3 rd cm bytes where
     "if rio_crs L (dataset_obj w) = None
      then rio_write_crs L (dataset_obj w) 4326 = Inr ds1 else ds1 = dataset_obj w"
     "cf_sel L ds1 [(''T'', Label t)] = Inr q0"
     "xr_squeeze L q0 = Inr q"
     "mercantile_bounds L x y z = Inr b"
     "linspace (south b) (north b) n = Inr lats"
     "linspace (west b) (east b) n = Inr lons"
     "xe_Regridder L q \<lparr>lat = lats, lon = lons\<rparr> ''bilinear'' = Inr rg"
     "xr_getitem L q p = Inr da"
     "xe_regrid L rg da = Inr r1"
     "da_write_crs L r1 4326 = Inr r2"
     "da_set_spatial_dims L r2 ''lon'' ''lat'' = Inr r3"
     "rio_reproject L r3 ''EPSG:3857'' None Nearest = Inr rd"
     "cm_get_cmap L (Some ''rainbow'') = Inr cm"
     "pil_save L (Image_fromarray (map (map (\<lambda>v. uint8_pixel (times255 (cm_call L cm v))))
                    (scale_grid (xr_values L rd) (Fin 0) (Fin 5)))) ''PNG'' = Inr bytes"
     "resp = \<lparr>content = bytes, media_type = ''image/png''\<rparr>"
     "request_obj w' = request_obj w"
     "dataset_obj w' = dataset_obj w"
     "trace w' = trace w @ [Rio_crs] @
       (if rio_crs L (dataset_obj w) = None then [Write_crs 4326] else []) @
       [Cf_sel [(''T'', Label t)], Squeeze, Bounds x y z, Log_warning b,
        Linspace (south b) (north b) n, Linspace (west b) (east b) n,
        Regridder_init \<lparr>lat = lats, lon = lons\<rparr> ''bilinear'', Getitem p, Regrid,
        Write_crs 4326, Set_spatial_dims ''lon'' ''lat'',
        Reproject ''EPSG:3857'' None Nearest,
        Scale (xr_values L rd) (Fin 0) (Fin 5), Get_cmap (Some ''rainbow''),
        Cmap_call (scale_grid (xr_values L rd) (Fin 0) (Fin 5)), Fromarray,
        Save (Image_fromarray (map (map (\<lambda>v. uint8_pixel (times255 (cm_call L cm v))))
                    (scale_grid (xr_values L rd) (Fin 0) (Fin 5)))) ''PNG'',
        Respond ''image/png'']"
  using assms(1) unfolding get_image_tile_def
  apply (elim bnd_InrE)
  apply (simp add: Inr_simps cong: if_cong)
  apply (elim exE conjE)
  subgoal for xa xaa xb w'b xc xd xe w'f xg xh xi xj xk xl xm xn xo xp xq xr xs xt xu w'v
    apply (rule that[of xb xc xd xe xg xh xj xk xl xm xn xo xs xu])
                     apply (simp_all split: if_splits)
    done
  done

lemma serve_image_success:
  assumes "serve_image L ps ds = (Inr resp, ds', tr)"
  obtains query w' where
    "depends_image_query L ps = Inr query"
    "get_image L \<lparr>request_obj = query, dataset_obj = ds, trace = []\<rparr> = (Inr resp, w')"
    "ds' = dataset_obj w'" "tr = trace w'"
  using assms by (auto simp: serve_image_def split: sum.splits prod.splits)

lemma serve_tile_success:
  assumes "serve_tile L tp ds = (Inr resp, ds', tr)"
  obtains w' where
    "get_image_tile L (tp_parameter tp) (tp_t tp) (tp_z tp) (tp_x tp) (tp_y tp)
       (case tp_size tp of None \<Rightarrow> 256 | Some n \<Rightarrow> n)
       \<lparr>request_obj = (), dataset_obj = ds, trace = []\<rparr> = (Inr resp, w')"
    "ds' = dataset_obj w'" "tr = trace w'"
  using assms by (auto simp: serve_tile_def split: prod.splits)

subsection \<open>The stand-in requests\<close>

lemma demo_image_run:
  "serve_image demo_libs demo_params demo_dataset =
     (Inr demo_image_response, demo_dataset, demo_image_trace)"
  by code_simp

lemma demo_tile_run:
  "serve_tile demo_libs demo_tile demo_dataset =
     (Inr demo_tile_response, demo_dataset, demo_tile_trace)"
  by code_simp

subsection \<open>Requests that are answered\<close>

lemma serve_image_run:
  assumes "serve_image L ps ds = (Inr resp, ds', tr)"
  obtains query xmin ymin xmax ymax mc xc q0 q1 q da rd lo hi cm bytes where
     "depends_image_query L ps = Inr query"
     "map py_float (split_comma (bbox query)) = map Inr [xmin, ymin, xmax, ymax]"
     "if crs query \<noteq> ''EPSG:4326''
      then \<exists>tr. pyproj_from_crs L (crs query) ''EPSG:4326'' = Inr tr \<and>
             pyproj_transform L tr xmin ymin = Inr mc \<and>
             pyproj_transform L tr xmax ymax = Inr xc
      else mc = (xmin, ymin) \<and> xc = (xmax, ymax)"
     "cf_sel L ds
        [(''X'', Slice (fst mc) (fst xc)), (''Y'', Slice (snd mc) (snd xc)),
         (''T'', Label (datetime query))] = Inr q0"
     "xr_squeeze L q0 = Inr q1"
     "if rio_crs L q1 = None then rio_write_crs L q1 4326 = Inr q else q = q1"
     "xr_getitem L q (parameter query) = Inr da"
     "rio_reproject L da (crs query) (Some (width query, height query)) Bilinear = Inr rd"
     "nanmin (concat (xr_values L rd)) = Inr lo"
     "nanmax (concat (xr_values L rd)) = Inr hi"
     "cm_get_cmap L (if truthy (cmap query) then cmap query else Some ''rainbow'') = Inr cm"
     "pil_save L (Image_fromarray (map (map (\<lambda>v. uint8_pixel (times255 (cm_call L cm v))))
                    (scale_grid (xr_values L rd) lo hi))) ''PNG'' = Inr bytes"
     "resp = \<lparr>content = bytes, media_type = ''image/png''\<rparr>"
     "ds' = ds"
     "tr = map Float (split_comma (bbox query)) @
       (if crs query \<noteq> ''EPSG:4326''
        then [From_crs (crs query) ''EPSG:4326'', Transform xmin ymin, Transform xmax ymax]
        else []) @
       [Cf_sel [(''X'', Slice (fst mc) (fst xc)), (''Y'', Slice (snd mc) (snd xc)),
                (''T'', Label (datetime query))], Squeeze, Rio_crs] @
       (if rio_crs L q1 = None then [Write_crs 4326] else []) @
       [Getitem (parameter query),
        Reproject (crs query) (Some (width query, height query)) Bilinear,
        Min_call, Max_call, Scale (xr_values L rd) lo hi,
        Get_cmap (if truthy (cmap query) then cmap query else Some ''rainbow''),
        Cmap_call (scale_grid (xr_values L rd) lo hi), Fromarray,
        Save (Image_fromarray (map (map (\<lambda>v. uint8_pixel (times255 (cm_call L cm v))))
                    (scale_grid (xr_values L rd) lo hi))) ''PNG'',
        Respond ''image/png'']"
proof -
  from assms obtain query w' where
    dep: "depends_image_query L ps = Inr query"
    and run: "get_image L \<lparr>request_obj = query, dataset_obj = ds, trace = []\<rparr> = (Inr resp, w')"
    and ds': "ds' = dataset_obj w'" and tr: "tr = trace w'"
    by (rule serve_image_success)
  from run show thesis
    by (rule get_image_success) (rule that[OF dep], auto simp: ds' tr split: if_splits)
qed

lemma serve_tile_run:
  assumes "serve_tile L tp ds = (Inr resp, ds', tr)"
  obtains ds1 q0 q b lats lons rg da r1 r2 r3 rd cm bytes where
     "if rio_crs L ds = None then rio_write_crs L ds 4326 = Inr ds1 else ds1 = ds"
     "cf_sel L ds1 [(''T'', Label (tp_t tp))] = Inr q0"
     "xr_squeeze L q0 = Inr q"
     "mercantile_bounds L (tp_x tp) (tp_y tp) (tp_z tp) = Inr b"
     "linspace (south b) (north b) (case tp_size tp of None \<Rightarrow> 256 | Some n \<Rightarrow> n) = Inr lats"
     "linspace (west b) (east b) (case tp_size tp of None \<Rightarrow> 256 | Some n \<Rightarrow> n) = Inr lons"
     "xe_Regridder L q \<lparr>lat = lats, lon = lons\<rparr> ''bilinear'' = Inr rg"
     "xr_getitem L q (tp_parameter tp) = Inr da"
     "xe_regrid L rg da = Inr r1"
     "da_write_crs L r1 4326 = Inr r2"
     "da_set_spatial_dims L r2 ''lon'' ''lat'' = Inr r3"
     "rio_reproject L r3 ''EPSG:3857'' None Nearest = Inr rd"
     "cm_get_cmap L (Some ''rainbow'') = Inr cm"
     "pil_save L (Image_fromarray (map (map (\<lambda>v. uint8_pixel (times255 (cm_call L cm v))))
                    (scale_grid (xr_values L rd) (Fin 0) (Fin 5)))) ''PNG'' = Inr bytes"
     "resp = \<lparr>content = bytes, media_type = ''image/png''\<rparr>"
     "ds' = ds"
     "tr = [Rio_crs] @ (if rio_crs L ds = None then [Write_crs 4326] else []) @
       [Cf_sel [(''T'', Label (tp_t tp))], Squeeze, Bounds (tp_x tp) (tp_y tp) (tp_z tp),
        Log_warning b,
        Linspace (south b) (north b) (case tp_size tp of None \<Rightarrow> 256 | Some n \<Rightarrow> n),
        Linspace (west b) (east b) (case tp_size tp of None \<Rightarrow> 256 | Some n \<Rightarrow> n),
        Regridder_init \<lparr>lat = lats, lon = lons\<rparr> ''bilinear'', Getitem (tp_parameter tp),
        Regrid, Write_crs 4326, Set_spatial_dims ''lon'' ''lat'',
        Reproject ''EPSG:3857'' None Nearest,
        Scale (xr_values L rd) (Fin 0) (Fin 5), Get_cmap (Some ''rainbow''),
        Cmap_call (scale_grid (xr_values L rd) (Fin 0) (Fin 5)), Fromarray,
        Save (Image_fromarray (map (map (\<lambda>v. uint8_pixel (times255 (cm_call L cm v))))
                    (scale_grid (xr_values L rd) (Fin 0) (Fin 5)))) ''PNG'',
        Respond ''image/png'']"
proof -
  from assms obtain w' where
    run: "get_image_tile L (tp_parameter tp) (tp_t tp) (tp_z tp) (tp_x tp) (tp_y tp)
       (case tp_size tp of None \<Rightarrow> 256 | Some n \<Rightarrow> n)
       \<lparr>request_obj = (), dataset_obj = ds, trace = []\<rparr> = (Inr resp, w')"
    and ds': "ds' = dataset_obj w'" and tr: "tr = trace w'"
    by (rule serve_tile_success)
  from run show thesis
    by (rule get_image_tile_success) (rule that, auto simp: ds' tr split: if_splits)
qed

subsection \<open>The endpoints and their responses\<close>

lemma serve_image_png:
  assumes "serve_image L ps ds = (Inr resp, ds', tr)"
  shows "media_type resp = ''image/png'' \<and>
     (\<exists>cm g. Cmap_call g \<in> set tr \<and>
        Save (Image_fromarray (map (map (\<lambda>v. uint8_pixel (times255 (cm_call L cm v)))) g))
          ''PNG'' \<in> set tr \<and>
        pil_save L (Image_fromarray (map (map (\<lambda>v. uint8_pixel (times255 (cm_call L cm v)))) g))
          ''PNG'' = Inr (content resp)) \<and>
     last tr = Respond ''image/png''"
  using assms
proof (rule serve_image_run)
  fix query :: ImageQuery and xmin ymin xmax ymax mc xc q1 rd lo hi cm bytes
  let ?g = "scale_grid (xr_values L rd) lo hi"
  let ?im = "Image_fromarray (map (map (\<lambda>v. uint8_pixel (times255 (cm_call L cm v)))) ?g)"
  assume save: "pil_save L ?im ''PNG'' = Inr bytes"
    and resp: "resp = \<lparr>content = bytes, media_type = ''image/png''\<rparr>"
    and tr: "tr = map Float (split_comma (bbox query)) @
       (if crs query \<noteq> ''EPSG:4326''
        then [From_crs (crs query) ''EPSG:4326'', Transform xmin ymin, Transform xmax ymax]
        else []) @
       [Cf_sel [(''X'', Slice (fst mc) (fst xc)), (''Y'', Slice (snd mc) (snd xc)),
                (''T'', Label (datetime query))], Squeeze, Rio_crs] @
       (if rio_crs L q1 = None then [Write_crs 4326] else []) @
       [Getitem (parameter query),
        Reproject (crs query) (Some (width query, height query)) Bilinear,
        Min_call, Max_call, Scale (xr_values L rd) lo hi,
        Get_cmap (if truthy (cmap query) then cmap query else Some ''rainbow''),
        Cmap_call ?g, Fromarray, Save ?im ''PNG'', Respond ''image/png'']"
  have "Cmap_call ?g \<in> set tr" "Save ?im ''PNG'' \<in> set tr" "last tr = Respond ''image/png''"
    unfolding tr by simp_all
  with save resp show ?thesis by auto
qed

lemma serve_tile_png:
  assumes "serve_tile L tp ds = (Inr resp, ds', tr)"
  shows "media_type resp = ''image/png'' \<and>
     (\<exists>cm g. Cmap_call g \<in> set tr \<and>
        Save (Image_fromarray (map (map (\<lambda>v. uint8_pixel (times255 (cm_call L cm v)))) g))
          ''PNG'' \<in> set tr \<and>
        pil_save L (Image_fromarray (map (map (\<lambda>v. uint8_pixel (times255 (cm_call L cm v)))) g))
          ''PNG'' = Inr (content resp)) \<and>
     last tr = Respond ''image/png''"
  using assms
proof (rule serve_tile_run)
  fix b lats lons rd cm bytes
  let ?n = "case tp_size tp of None \<Rightarrow> 256 | Some n \<Rightarrow> n"
  let ?g = "scale_grid (xr_values L rd) (Fin 0) (Fin 5)"
  let ?im = "Image_fromarray (map (map (\<lambda>v. uint8_pixel (times255 (cm_call L cm v)))) ?g)"
  assume save: "pil_save L ?im ''PNG'' = Inr bytes"
    and resp: "resp = \<lparr>content = bytes, media_type = ''image/png''\<rparr>"
    and tr: "tr = [Rio_crs] @ (if rio_crs L ds = None then [Write_crs 4326] else []) @
       [Cf_sel [(''T'', Label (tp_t tp))], Squeeze, Bounds (tp_x tp) (tp_y tp) (tp_z tp),
        Log_warning b, Linspace (south b) (north b) ?n, Linspace (west b) (east b) ?n,
        Regridder_init \<lparr>lat = lats, lon = lons\<rparr> ''bilinear'', Getitem (tp_parameter tp),
        Regrid, Write_crs 4326, Set_spatial_dims ''lon'' ''lat'',
        Reproject ''EPSG:3857'' None Nearest,
        Scale (xr_values L rd) (Fin 0) (Fin 5), Get_cmap (Some ''rainbow''),
        Cmap_call ?g, Fromarray, Save ?im ''PNG'', Respond ''image/png'']"
  have "Cmap_call ?g \<in> set tr" "Save ?im ''PNG'' \<in> set tr" "last tr = Respond ''image/png''"
    unfolding tr by simp_all
  with save resp show ?thesis by auto
qed

text \<open>
  Claim C1, as amended. The router has exactly two routes, both for GET: \<^verbatim>\<open>/\<close>, which
  takes the bounding box, and \<^verbatim>\<open>/tile/{parameter}/{t}/{z}/{x}/{y}\<close>, which takes the tile.
  Every request that its handler carries through without an exception is answered with
  the media type \<^verbatim>\<open>image/png\<close> and, as body, the bytes PIL saves in the PNG format
  for the image that line 87 (line 126) builds from the colour-mapped data; saving and
  responding are the last things the handler does. A request on which a call raises is
  not answered by the handler.
\<close>

theorem endpoints_answer_with_png:
  "map route_method image_router = [GET, GET] \<and>
   map route_path image_router = [''/'', ''/tile/{parameter}/{t}/{z}/{x}/{y}''] \<and>
   map route_endpoint image_router = [Get_image, Get_image_tile] \<and>
   (serve_image L ps ds = (Inr resp, ds', tr) \<longrightarrow>
      media_type resp = ''image/png'' \<and>
      (\<exists>cm g. Cmap_call g \<in> set tr \<and>
         Save (Image_fromarray (map (map (\<lambda>v. uint8_pixel (times255 (cm_call L cm v)))) g))
           ''PNG'' \<in> set tr \<and>
         pil_save L (Image_fromarray (map (map (\<lambda>v. uint8_pixel (times255 (cm_call L cm v)))) g))
           ''PNG'' = Inr (content resp)) \<and>
      last tr = Respond ''image/png'') \<and>
   (serve_tile L tp ds = (Inr resp, ds', tr) \<longrightarrow>
      media_type resp = ''image/png'' \<and>
      (\<exists>cm g. Cmap_call g \<in> set tr \<and>
         Save (Image_fromarray (map (map (\<lambda>v. uint8_pixel (times255 (cm_call L cm v)))) g))
           ''PNG'' \<in> set tr \<and>
         pil_save L (Image_fromarray (map (map (\<lambda>v. uint8_pixel (times255 (cm_call L cm v)))) g))
           ''PNG'' = Inr (content resp)) \<and>
      last tr = Respond ''image/png'')"
  using serve_image_png[of L ps ds resp ds' tr] serve_tile_png[of L tp ds resp ds' tr]
  by (simp add: image_router_def)

theorem endpoints_answer_with_png_witness:
  "serve_image demo_libs demo_params demo_dataset =
     (Inr demo_image_response, demo_dataset, demo_image_trace) \<and>
   media_type demo_image_response = ''image/png'' \<and>
   last demo_image_trace = Respond ''image/png'' \<and>
   serve_tile demo_libs demo_tile demo_dataset =
     (Inr demo_tile_response, demo_dataset, demo_tile_trace) \<and>
   media_type demo_tile_response = ''image/png'' \<and>
   last demo_tile_trace = Respond ''image/png''"
  using endpoints_answer_with_png[of demo_libs demo_params demo_dataset demo_image_response
      demo_dataset demo_image_trace demo_tile]
    endpoints_answer_with_png[of demo_libs demo_params demo_dataset demo_tile_response
      demo_dataset demo_tile_trace demo_tile]
    demo_image_run demo_tile_run
  by simp

text \<open>
  The claim as it is written fails: the request with \<^verbatim>\<open>bbox=abc\<close> ends in the
  \<open>ValueError\<close> of \<^verbatim>\<open>float('abc')\<close> on line 52, and no PNG response is returned.
\<close>

theorem malformed_bbox_is_not_answered:
  "serve_image demo_libs (demo_params\<lparr>p_bbox := Some ''abc''\<rparr>) demo_dataset =
     (Inl ValueError, demo_dataset, [Float ''abc''])"
  by code_simp

subsection \<open>The order of the steps\<close>

lemma four_pieces:
  assumes "map py_float ps = map Inr [a, b, c, d]"
  obtains p1 p2 p3 p4 where "ps = [p1, p2, p3, p4]"
proof -
  from arg_cong[OF assms, of length] have "length ps = 4" by simp
  then show thesis
    using that by (auto simp: length_Suc_conv numeral_eq_Suc)
qed

lemma steps_get_image:
  assumes "serve_image L ps ds = (Inr resp, ds', tr)"
  shows "\<exists>query. depends_image_query L ps = Inr query \<and>
     steps tr = [Parse] @ (if crs query \<noteq> ''EPSG:4326'' then [Transform_bbox] else []) @
       [Slice_dataset, Resample, Normalize, Colorize, Encode, Respond_step] \<and>
     (\<exists>xs ys. Cf_sel [(''X'', xs), (''Y'', ys), (''T'', Label (datetime query))] \<in> set tr)"
  using assms
proof (rule serve_image_run)
  fix query :: ImageQuery and xmin ymin xmax ymax mc xc q1 rd lo hi cm
  let ?g = "scale_grid (xr_values L rd) lo hi"
  let ?im = "Image_fromarray (map (map (\<lambda>v. uint8_pixel (times255 (cm_call L cm v)))) ?g)"
  assume dep: "depends_image_query L ps = Inr query"
    and fl: "map py_float (split_comma (bbox query)) = map Inr [xmin, ymin, xmax, ymax]"
    and tr: "tr = map Float (split_comma (bbox query)) @
       (if crs query \<noteq> ''EPSG:4326''
        then [From_crs (crs query) ''EPSG:4326'', Transform xmin ymin, Transform xmax ymax]
        else []) @
       [Cf_sel [(''X'', Slice (fst mc) (fst xc)), (''Y'', Slice (snd mc) (snd xc)),
                (''T'', Label (datetime query))], Squeeze, Rio_crs] @
       (if rio_crs L q1 = None then [Write_crs 4326] else []) @
       [Getitem (parameter query),
        Reproject (crs query) (Some (width query, height query)) Bilinear,
        Min_call, Max_call, Scale (xr_values L rd) lo hi,
        Get_cmap (if truthy (cmap query) then cmap query else Some ''rainbow''),
        Cmap_call ?g, Fromarray, Save ?im ''PNG'', Respond ''image/png'']"
  from fl obtain p1 p2 p3 p4 where ps: "split_comma (bbox query) = [p1, p2, p3, p4]"
    by (rule four_pieces)
  have "steps tr = [Parse] @ (if crs query \<noteq> ''EPSG:4326'' then [Transform_bbox] else []) @
       [Slice_dataset, Resample, Normalize, Colorize, Encode, Respond_step]"
    unfolding tr ps by (simp add: steps_def)
  moreover have "Cf_sel [(''X'', Slice (fst mc) (fst xc)), (''Y'', Slice (snd mc) (snd xc)),
                (''T'', Label (datetime query))] \<in> set tr"
    unfolding tr by simp
  ultimately show ?thesis using dep by blast
qed

lemma steps_get_image_tile:
  assumes "serve_tile L tp ds = (Inr resp, ds', tr)"
  shows "steps tr =
     [Slice_dataset, Transform_bbox, Resample, Normalize, Colorize, Encode, Respond_step] \<and>
     Cf_sel [(''T'', Label (tp_t tp))] \<in> set tr"
  using assms
proof (rule serve_tile_run)
  fix b lats lons rd cm
  let ?n = "case tp_size tp of None \<Rightarrow> 256 | Some n \<Rightarrow> n"
  let ?g = "scale_grid (xr_values L rd) (Fin 0) (Fin 5)"
  let ?im = "Image_fromarray (map (map (\<lambda>v. uint8_pixel (times255 (cm_call L cm v)))) ?g)"
  assume tr: "tr = [Rio_crs] @ (if rio_crs L ds = None then [Write_crs 4326] else []) @
       [Cf_sel [(''T'', Label (tp_t tp))], Squeeze, Bounds (tp_x tp) (tp_y tp) (tp_z tp),
        Log_warning b, Linspace (south b) (north b) ?n, Linspace (west b) (east b) ?n,
        Regridder_init \<lparr>lat = lats, lon = lons\<rparr> ''bilinear'', Getitem (tp_parameter tp),
        Regrid, Write_crs 4326, Set_spatial_dims ''lon'' ''lat'',
        Reproject ''EPSG:3857'' None Nearest,
        Scale (xr_values L rd) (Fin 0) (Fin 5), Get_cmap (Some ''rainbow''),
        Cmap_call ?g, Fromarray, Save ?im ''PNG'', Respond ''image/png'']"
  show ?thesis
    unfolding tr by (simp add: steps_def)
qed

text \<open>
  Claim C2, as amended. A request to \<^verbatim>\<open>GET /\<close> that is answered has gone through the
  steps parse, transform the bounding box, slice (by X, Y and T), resample, normalize,
  colour, encode, respond, in this order, each once, except that the bounding box is
  transformed only when the CRS of the request is not \<^verbatim>\<open>EPSG:4326\<close>: otherwise no
  transformation is called. A tile request that is answered has gone through slice,
  bounding box of the tile, resample, normalize, colour, encode, respond, in this order:
  it parses nothing, it slices before it derives the bounding box, and it slices by T
  only.
\<close>

theorem handlers_step_order:
  "(serve_image L ps ds = (Inr resp, ds', tr) \<longrightarrow>
      (\<exists>query. depends_image_query L ps = Inr query \<and>
         steps tr = [Parse] @ (if crs query \<noteq> ''EPSG:4326'' then [Transform_bbox] else []) @
           [Slice_dataset, Resample, Normalize, Colorize, Encode, Respond_step] \<and>
         (\<exists>xs ys. Cf_sel [(''X'', xs), (''Y'', ys), (''T'', Label (datetime query))]
             \<in> set tr))) \<and>
   (serve_tile L tp ds = (Inr resp, ds', tr) \<longrightarrow>
      steps tr =
        [Slice_dataset, Transform_bbox, Resample, Normalize, Colorize, Encode, Respond_step] \<and>
      Cf_sel [(''T'', Label (tp_t tp))] \<in> set tr)"
  using steps_get_image[of L ps ds resp ds' tr] steps_get_image_tile[of L tp ds resp ds' tr]
  by blast

theorem handlers_step_order_witness:
  "serve_image demo_libs demo_params demo_dataset =
     (Inr demo_image_response, demo_dataset, demo_image_trace) \<and>
   steps demo_image_trace =
     [Parse, Slice_dataset, Resample, Normalize, Colorize, Encode, Respond_step] \<and>
   serve_tile demo_libs demo_tile demo_dataset =
     (Inr demo_tile_response, demo_dataset, demo_tile_trace) \<and>
   steps demo_tile_trace =
     [Slice_dataset, Transform_bbox, Resample, Normalize, Colorize, Encode, Respond_step]"
proof -
  have q: "depends_image_query demo_libs demo_params =
      Inr \<lparr>bbox = ''0,0,1,1'', width = 2, height = 3, parameter = ''temp'',
           datetime = ''2022-01-01'', crs = ''EPSG:4326'', cmap = None\<rparr>"
    by code_simp
  from handlers_step_order[of demo_libs demo_params demo_dataset demo_image_response
        demo_dataset demo_image_trace demo_tile] demo_image_run q
  have a: "steps demo_image_trace =
      [Parse, Slice_dataset, Resample, Normalize, Colorize, Encode, Respond_step]"
    by simp
  from handlers_step_order[of demo_libs demo_params demo_dataset demo_tile_response
        demo_dataset demo_tile_trace demo_tile] demo_tile_run
  have b: "steps demo_tile_trace =
      [Slice_dataset, Transform_bbox, Resample, Normalize, Colorize, Encode, Respond_step]"
    by simp
  show ?thesis using a b demo_image_run demo_tile_run by simp
qed

text \<open>
  The claim as it is written fails on both handlers: the steps of the answered tile
  request and of the answered bounding-box request of the stand-in are not the
  pipeline of the specification.
\<close>

theorem tile_request_out_of_order:
  "serve_tile demo_libs demo_tile demo_dataset =
     (Inr demo_tile_response, demo_dataset, demo_tile_trace) \<and>
   steps demo_tile_trace =
     [Slice_dataset, Transform_bbox, Resample, Normalize, Colorize, Encode, Respond_step] \<and>
   steps demo_tile_trace \<noteq> pipeline \<and>
   serve_image demo_libs demo_params demo_dataset =
     (Inr demo_image_response, demo_dataset, demo_image_trace) \<and>
   steps demo_image_trace =
     [Parse, Slice_dataset, Resample, Normalize, Colorize, Encode, Respond_step] \<and>
   steps demo_image_trace \<noteq> pipeline"
  by code_simp

subsection \<open>The size of the image\<close>

lemma ncols_map: "ncols (map (map f) g) = ncols g"
  by (cases g) (simp_all add: ncols_def)

lemma nrows_map: "nrows (map f g) = nrows g"
  by (simp add: nrows_def)

lemma image_size_get_image:
  assumes "serve_image L ps ds = (Inr resp, ds', tr)" and "Save im f \<in> set tr"
  shows "\<exists>query da rd. depends_image_query L ps = Inr query \<and>
     Reproject (crs query) (Some (width query, height query)) Bilinear \<in> set tr \<and>
     rio_reproject L da (crs query) (Some (width query, height query)) Bilinear = Inr rd \<and>
     im_height im = nrows (xr_values L rd) \<and> im_width im = ncols (xr_values L rd)"
  using assms(1)
proof (rule serve_image_run)
  fix query :: ImageQuery and xmin ymin xmax ymax mc xc q1 da rd lo hi cm
  let ?g = "scale_grid (xr_values L rd) lo hi"
  let ?im = "Image_fromarray (map (map (\<lambda>v. uint8_pixel (times255 (cm_call L cm v)))) ?g)"
  assume dep: "depends_image_query L ps = Inr query"
    and rp: "rio_reproject L da (crs query) (Some (width query, height query)) Bilinear = Inr rd"
    and tr: "tr = map Float (split_comma (bbox query)) @
       (if crs query \<noteq> ''EPSG:4326''
        then [From_crs (crs query) ''EPSG:4326'', Transform xmin ymin, Transform xmax ymax]
        else []) @
       [Cf_sel [(''X'', Slice (fst mc) (fst xc)), (''Y'', Slice (snd mc) (snd xc)),
                (''T'', Label (datetime query))], Squeeze, Rio_crs] @
       (if rio_crs L q1 = None then [Write_crs 4326] else []) @
       [Getitem (parameter query),
        Reproject (crs query) (Some (width query, height query)) Bilinear,
        Min_call, Max_call, Scale (xr_values L rd) lo hi,
        Get_cmap (if truthy (cmap query) then cmap query else Some ''rainbow''),
        Cmap_call ?g, Fromarray, Save ?im ''PNG'', Respond ''image/png'']"
  from assms(2) have im: "im = ?im"
    unfolding tr by (auto split: if_splits)
  have "im_height im = nrows (xr_values L rd)" "im_width im = ncols (xr_values L rd)"
    unfolding im by (simp_all add: Image_fromarray_def scale_grid_def ncols_map nrows_map)
  moreover have "Reproject (crs query) (Some (width query, height query)) Bilinear \<in> set tr"
    unfolding tr by simp
  ultimately show ?thesis using dep rp by blast
qed

text \<open>
  Claim C3 on the stand-in, whose reprojection takes \<^verbatim>\<open>shape\<close> as rioxarray does, number
  of rows first: the request with \<^verbatim>\<open>width=2\<close> and \<^verbatim>\<open>height=3\<close> passes
  \<^verbatim>\<open>shape=(2, 3)\<close>, gets two rows of three cells, and is answered with an image three
  pixels wide and two pixels tall.
\<close>

theorem width_and_height_are_swapped:
  "p_width demo_params = Some ''2'' \<and> p_height demo_params = Some ''3'' \<and>
   serve_image demo_libs demo_params demo_dataset =
     (Inr demo_image_response, demo_dataset, demo_image_trace) \<and>
   Reproject ''EPSG:4326'' (Some (2, 3)) Bilinear \<in> set demo_image_trace \<and>
   Save demo_image_picture ''PNG'' \<in> set demo_image_trace \<and>
   im_width demo_image_picture = 3 \<and> im_height demo_image_picture = 2"
  by code_simp

subsection \<open>What every run emits\<close>

lemma emits_ret: "emits_only P (ret x)"
  by (simp add: emits_only_def ret_def)

lemma emits_raise: "emits_only P (raise e)"
  by (simp add: emits_only_def raise_def)

lemma emits_get_request: "emits_only P get_request"
  by (simp add: emits_only_def get_request_def)

lemma emits_set_request: "emits_only P (set_request q)"
  by (simp add: emits_only_def set_request_def)

lemma emits_get_dataset: "emits_only P get_dataset"
  by (simp add: emits_only_def get_dataset_def)

lemma emits_lift: "emits_only P (lift r)"
  by (cases r) (simp_all add: lift_def emits_ret emits_raise)

lemma emits_emit: "P ev \<Longrightarrow> emits_only P (emit ev)"
  by (simp add: emits_only_def emit_def)

lemma emits_bnd_strong:
  assumes m: "emits_only P m"
    and f: "\<And>x w w1. m w = (Inr x, w1) \<Longrightarrow> emits_only P (f x)"
  shows "emits_only P (bnd m f)"
  unfolding emits_only_def
proof
  fix w
  obtain r w1 where mw: "m w = (r, w1)" by (cases "m w")
  from m obtain es where es: "trace w1 = trace w @ es" "list_all P es"
    using mw by (auto simp: emits_only_def dest: spec[of _ w])
  show "\<exists>es. trace (snd (bnd m f w)) = trace w @ es \<and> list_all P es"
  proof (cases r)
    case (Inl e)
    then show ?thesis using mw es by (auto simp: bnd_def)
  next
    case (Inr x)
    from f[of w x w1] mw Inr have "emits_only P (f x)" by simp
    then obtain es' where "trace (snd (f x w1)) = trace w1 @ es'" "list_all P es'"
      by (auto simp: emits_only_def dest: spec[of _ w1])
    then show ?thesis using mw Inr es by (auto simp: bnd_def)
  qed
qed

lemma emits_bnd:
  "emits_only P m \<Longrightarrow> (\<And>x. emits_only P (f x)) \<Longrightarrow> emits_only P (bnd m f)"
  by (rule emits_bnd_strong)

lemma emits_call: "P ev \<Longrightarrow> emits_only P (call ev r)"
  unfolding call_def by (cases r) (auto intro!: emits_bnd emits_emit emits_ret emits_raise)

lemma emits_bnd_call:
  assumes "P ev" and "\<And>x. r = Inr x \<Longrightarrow> emits_only P (f x)"
  shows "emits_only P (bnd (call ev r) f)"
proof (rule emits_bnd_strong)
  show "emits_only P (call ev r)" using assms(1) by (rule emits_call)
next
  fix x w w1
  assume "call ev r w = (Inr x, w1)"
  then have "r = Inr x" by (simp add: call_Inr)
  then show "emits_only P (f x)" by (rule assms(2))
qed

lemma emits_if:
  "emits_only P a \<Longrightarrow> emits_only P b \<Longrightarrow> emits_only P (if c then a else b)"
  by simp

lemma emits_float_each: "(\<And>x. P (Float x)) \<Longrightarrow> emits_only P (float_each xs)"
  by (induction xs) (auto intro!: emits_bnd emits_call emits_ret)

lemma emits_colorize: "P (Cmap_call g) \<Longrightarrow> P Fromarray \<Longrightarrow> emits_only P (colorize L cm g)"
  unfolding colorize_def by (intro emits_bnd emits_call emits_ret)

lemmas emits_intros = emits_bnd_call emits_bnd emits_ret emits_raise emits_get_request
  emits_set_request emits_get_dataset emits_lift emits_emit emits_call emits_if
  emits_float_each emits_colorize

lemma emits_any_get_image: "emits_only (\<lambda>ev. True) (get_image L)"
  unfolding get_image_def
  apply (simp only: split_def)
  apply (intro emits_intros TrueI)
  done

lemma emits_any_get_image_tile: "emits_only (\<lambda>ev. True) (get_image_tile L p t z x y n)"
  unfolding get_image_tile_def
  apply (intro emits_intros TrueI)
  done

subsection \<open>The request of the bounding-box endpoint\<close>

lemma split_comma_not_Nil: "split_comma s \<noteq> []"
  by (induction s) (auto split: list.splits)

lemma call_longer: "length (trace w) < length (trace (snd (call ev r w)))"
  by (cases r) (simp_all add: call_def bnd_def emit_def raise_def ret_def)

lemma bnd_longer:
  assumes m: "\<And>w. length (trace w) < length (trace (snd (m w)))"
    and f: "\<And>x. emits_only (\<lambda>ev. True) (f x)"
  shows "length (trace w) < length (trace (snd (bnd m f w)))"
proof -
  obtain r w1 where mw: "m w = (r, w1)" by (cases "m w")
  from m[of w] mw have l: "length (trace w) < length (trace w1)" by simp
  show ?thesis
  proof (cases r)
    case (Inl e)
    then show ?thesis using mw l by (simp add: bnd_def)
  next
    case (Inr x)
    from f[of x] obtain es where "trace (snd (f x w1)) = trace w1 @ es"
      by (auto simp: emits_only_def dest: spec[of _ w1])
    then show ?thesis using mw Inr l by (simp add: bnd_def)
  qed
qed

lemma float_each_longer:
  "xs \<noteq> [] \<Longrightarrow> length (trace w) < length (trace (snd (float_each xs w)))"
proof (cases xs)
  case Nil
  assume "xs \<noteq> []"
  with Nil show ?thesis by simp
next
  case (Cons p ps)
  show ?thesis
    unfolding Cons float_each.simps
    by (rule bnd_longer) (auto intro!: call_longer emits_intros)
qed

lemma get_request_longer:
  "(\<And>q. length (trace w) < length (trace (snd (f q w)))) \<Longrightarrow>
     length (trace w) < length (trace (snd (bnd get_request f w)))"
  by (simp add: bnd_def get_request_def)

lemma get_dataset_longer:
  "(\<And>d. length (trace w) < length (trace (snd (f d w)))) \<Longrightarrow>
     length (trace w) < length (trace (snd (bnd get_dataset f w)))"
  by (simp add: bnd_def get_dataset_def)

lemma get_image_longer: "length (trace w) < length (trace (snd (get_image L w)))"
  unfolding get_image_def
  apply (simp only: split_def)
  apply (rule get_request_longer)
  apply (rule get_dataset_longer)
  apply (rule bnd_longer)
   apply (rule float_each_longer)
   apply (rule split_comma_not_Nil)
  apply (intro emits_intros TrueI)
  done

lemma serve_image_accepted:
  assumes "depends_image_query L ps = Inr query"
  shows "snd (snd (serve_image L ps ds)) \<noteq> []"
  using get_image_longer[of "\<lparr>request_obj = query, dataset_obj = ds, trace = []\<rparr>" L] assms
  by (auto simp: serve_image_def split: prod.splits)


text \<open>
  Claim C4, as amended. The request of the bounding-box endpoint is the seven fields
  \<^verbatim>\<open>bbox\<close>, \<^verbatim>\<open>width\<close>, \<^verbatim>\<open>height\<close>, \<^verbatim>\<open>parameter\<close>, \<^verbatim>\<open>datetime\<close>, \<^verbatim>\<open>crs\<close>, \<^verbatim>\<open>cmap\<close>. A request
  that supplies the first six, with a \<^verbatim>\<open>width\<close> and a \<^verbatim>\<open>height\<close> that FastAPI converts
  to integers, is accepted, with or without \<^verbatim>\<open>cmap\<close>: the request object is built from
  exactly the values sent and the handler runs (it makes a call). Every other request,
  one that leaves out one of the six or whose \<^verbatim>\<open>width\<close> or \<^verbatim>\<open>height\<close> is not an integer,
  is refused, by FastAPI or by pydantic, and the handler does not run: nothing is called
  and the dataset is as it was.
\<close>

theorem six_fields_with_integer_sizes_are_required:
  "(p_bbox ps = Some b \<and> p_width ps = Some wt \<and> p_height ps = Some ht \<and>
    p_parameter ps = Some p \<and> p_datetime ps = Some d \<and> p_crs ps = Some c \<and>
    fastapi_int L wt = Inr w \<and> fastapi_int L ht = Inr h \<longrightarrow>
      depends_image_query L ps =
        Inr \<lparr>bbox = b, width = w, height = h, parameter = p, datetime = d, crs = c,
             cmap = p_cmap ps\<rparr> \<and>
      snd (snd (serve_image L ps ds)) \<noteq> []) \<and>
   (p_bbox ps = None \<or> p_width ps = None \<or> p_height ps = None \<or>
    p_parameter ps = None \<or> p_datetime ps = None \<or> p_crs ps = None \<or>
    (\<exists>wt e. p_width ps = Some wt \<and> fastapi_int L wt = Inl e) \<or>
    (\<exists>ht e. p_height ps = Some ht \<and> fastapi_int L ht = Inl e) \<longrightarrow>
      (\<exists>e. (e = RequestValidationError \<or> e = ValidationError) \<and>
         depends_image_query L ps = Inl e \<and> serve_image L ps ds = (Inl e, ds, [])))"
proof (intro conjI impI)
  assume a: "p_bbox ps = Some b \<and> p_width ps = Some wt \<and> p_height ps = Some ht \<and>
    p_parameter ps = Some p \<and> p_datetime ps = Some d \<and> p_crs ps = Some c \<and>
    fastapi_int L wt = Inr w \<and> fastapi_int L ht = Inr h"
  then show q: "depends_image_query L ps =
        Inr \<lparr>bbox = b, width = w, height = h, parameter = p, datetime = d, crs = c,
             cmap = p_cmap ps\<rparr>"
    by (simp add: depends_image_query_def image_query_def ImageQuery_init_def)
  then show "snd (snd (serve_image L ps ds)) \<noteq> []"
    by (rule serve_image_accepted)
next
  assume "p_bbox ps = None \<or> p_width ps = None \<or> p_height ps = None \<or>
    p_parameter ps = None \<or> p_datetime ps = None \<or> p_crs ps = None \<or>
    (\<exists>wt e. p_width ps = Some wt \<and> fastapi_int L wt = Inl e) \<or>
    (\<exists>ht e. p_height ps = Some ht \<and> fastapi_int L ht = Inl e)"
  then have "depends_image_query L ps = Inl RequestValidationError \<or>
      depends_image_query L ps = Inl ValidationError"
    by (auto simp: depends_image_query_def image_query_def ImageQuery_init_def
        split: option.splits sum.splits)
  then show "\<exists>e. (e = RequestValidationError \<or> e = ValidationError) \<and>
         depends_image_query L ps = Inl e \<and> serve_image L ps ds = (Inl e, ds, [])"
    by (auto simp: serve_image_def)
qed

theorem six_fields_with_integer_sizes_are_required_witness:
  "depends_image_query demo_libs demo_params =
     Inr \<lparr>bbox = ''0,0,1,1'', width = 2, height = 3, parameter = ''temp'',
          datetime = ''2022-01-01'', crs = ''EPSG:4326'', cmap = None\<rparr> \<and>
   snd (snd (serve_image demo_libs demo_params demo_dataset)) \<noteq> [] \<and>
   serve_image demo_libs (demo_params\<lparr>p_crs := None\<rparr>) demo_dataset =
     (Inl ValidationError, demo_dataset, []) \<and>
   serve_image demo_libs (demo_params\<lparr>p_width := None\<rparr>) demo_dataset =
     (Inl RequestValidationError, demo_dataset, []) \<and>
   serve_image demo_libs (demo_params\<lparr>p_height := Some ''3.5''\<rparr>) demo_dataset =
     (Inl RequestValidationError, demo_dataset, [])"
proof -
  have i: "fastapi_int demo_libs ''2'' = Inr 2" "fastapi_int demo_libs ''3'' = Inr 3"
    "fastapi_int demo_libs ''3.5'' = Inl ValueError"
    by code_simp+
  have 1: "depends_image_query demo_libs (demo_params\<lparr>p_crs := None\<rparr>) = Inl ValidationError"
    by code_simp
  have 2: "depends_image_query demo_libs (demo_params\<lparr>p_width := None\<rparr>) =
      Inl RequestValidationError"
    by code_simp
  have 3: "depends_image_query demo_libs (demo_params\<lparr>p_height := Some ''3.5''\<rparr>) =
      Inl RequestValidationError"
    by code_simp
  show ?thesis
    using six_fields_with_integer_sizes_are_required[of demo_params "''0,0,1,1''" "''2''"
        "''3''" "''temp''" "''2022-01-01''" "''EPSG:4326''" demo_libs 2 3 demo_dataset]
      six_fields_with_integer_sizes_are_required[of "demo_params\<lparr>p_crs := None\<rparr>"
        "''0,0,1,1''" "''2''" "''3''" "''temp''" "''2022-01-01''" "''EPSG:4326''" demo_libs 2 3
        demo_dataset]
      six_fields_with_integer_sizes_are_required[of "demo_params\<lparr>p_width := None\<rparr>"
        "''0,0,1,1''" "''2''" "''3''" "''temp''" "''2022-01-01''" "''EPSG:4326''" demo_libs 2 3
        demo_dataset]
      six_fields_with_integer_sizes_are_required[of "demo_params\<lparr>p_height := Some ''3.5''\<rparr>"
        "''0,0,1,1''" "''2''" "''3''" "''temp''" "''2022-01-01''" "''EPSG:4326''" demo_libs 2 3
        demo_dataset]
      i 1 2 3
    by (simp add: demo_params_def)
qed

text \<open>
  The claim as it is written fails: the request that supplies all six fields, with
  \<^verbatim>\<open>width=abc\<close>, is refused before the handler runs.
\<close>

theorem non_integer_width_is_refused:
  "p_bbox (demo_params\<lparr>p_width := Some ''abc''\<rparr>) = Some ''0,0,1,1'' \<and>
   p_width (demo_params\<lparr>p_width := Some ''abc''\<rparr>) = Some ''abc'' \<and>
   p_height (demo_params\<lparr>p_width := Some ''abc''\<rparr>) = Some ''3'' \<and>
   p_parameter (demo_params\<lparr>p_width := Some ''abc''\<rparr>) = Some ''temp'' \<and>
   p_datetime (demo_params\<lparr>p_width := Some ''abc''\<rparr>) = Some ''2022-01-01'' \<and>
   p_crs (demo_params\<lparr>p_width := Some ''abc''\<rparr>) = Some ''EPSG:4326'' \<and>
   serve_image demo_libs (demo_params\<lparr>p_width := Some ''abc''\<rparr>) demo_dataset =
     (Inl RequestValidationError, demo_dataset, [])"
  by code_simp


subsection \<open>Minimum and maximum of the numbers of an array\<close>

lemma fle_refl: "a \<noteq> NaN \<Longrightarrow> fle a a"
  by (cases a) simp_all

lemma fle_total: "a \<noteq> NaN \<Longrightarrow> b \<noteq> NaN \<Longrightarrow> fle a b \<or> fle b a"
  by (cases a; cases b) auto

lemma fle_trans: "fle a b \<Longrightarrow> fle b c \<Longrightarrow> fle a c"
  by (cases a; cases b; cases c) simp_all

lemma fle_antisym: "fle a b \<Longrightarrow> fle b a \<Longrightarrow> a = b"
  by (cases a; cases b) simp_all

lemma fle_not_NaN: "fle a b \<Longrightarrow> a \<noteq> NaN \<and> b \<noteq> NaN"
  by (cases a; cases b) simp_all

lemma foldl_fmin2:
  assumes "\<forall>v \<in> set (y # ys). v \<noteq> NaN"
  shows "foldl fmin2 y ys \<in> set (y # ys) \<and> (\<forall>v \<in> set (y # ys). fle (foldl fmin2 y ys) v)"
  using assms
proof (induction ys arbitrary: y)
  case Nil
  then show ?case by (simp add: fle_refl)
next
  case (Cons z zs)
  let ?m = "fmin2 y z"
  have m: "?m = y \<or> ?m = z" by (simp add: fmin2_def)
  have yz: "y \<noteq> NaN" "z \<noteq> NaN" using Cons.prems by simp_all
  have my: "fle ?m y" and mz: "fle ?m z"
    using fle_total[OF yz] fle_refl yz by (auto simp: fmin2_def)
  have "\<forall>v \<in> set (?m # zs). v \<noteq> NaN" using Cons.prems m by auto
  from Cons.IH[OF this]
  have in_set: "foldl fmin2 ?m zs \<in> set (?m # zs)"
    and le: "\<forall>v \<in> set (?m # zs). fle (foldl fmin2 ?m zs) v" by simp_all
  from le have lm: "fle (foldl fmin2 ?m zs) ?m" by simp
  have "foldl fmin2 y (z # zs) \<in> set (y # z # zs)"
    using in_set m by auto
  moreover have "\<forall>v \<in> set (y # z # zs). fle (foldl fmin2 y (z # zs)) v"
    using le fle_trans[OF lm my] fle_trans[OF lm mz] by auto
  ultimately show ?case by blast
qed

lemma foldl_fmax2:
  assumes "\<forall>v \<in> set (y # ys). v \<noteq> NaN"
  shows "foldl fmax2 y ys \<in> set (y # ys) \<and> (\<forall>v \<in> set (y # ys). fle v (foldl fmax2 y ys))"
  using assms
proof (induction ys arbitrary: y)
  case Nil
  then show ?case by (simp add: fle_refl)
next
  case (Cons z zs)
  let ?m = "fmax2 y z"
  have m: "?m = y \<or> ?m = z" by (simp add: fmax2_def)
  have yz: "y \<noteq> NaN" "z \<noteq> NaN" using Cons.prems by simp_all
  have my: "fle y ?m" and mz: "fle z ?m"
    using fle_total[OF yz] fle_refl yz by (auto simp: fmax2_def)
  have "\<forall>v \<in> set (?m # zs). v \<noteq> NaN" using Cons.prems m by auto
  from Cons.IH[OF this]
  have in_set: "foldl fmax2 ?m zs \<in> set (?m # zs)"
    and le: "\<forall>v \<in> set (?m # zs). fle v (foldl fmax2 ?m zs)" by simp_all
  from le have lm: "fle ?m (foldl fmax2 ?m zs)" by simp
  have "foldl fmax2 y (z # zs) \<in> set (y # z # zs)"
    using in_set m by auto
  moreover have "\<forall>v \<in> set (y # z # zs). fle v (foldl fmax2 y (z # zs))"
    using le fle_trans[OF my lm] fle_trans[OF mz lm] by auto
  ultimately show ?case by blast
qed

text \<open>When the array has a number, its minimum is one of its numbers and below all of them.\<close>

lemma nanmin_least:
  assumes "nanmin xs = Inr lo" and "v \<in> set xs" and "v \<noteq> NaN"
  shows "lo \<in> set xs \<and> lo \<noteq> NaN \<and> (\<forall>u \<in> set xs. u \<noteq> NaN \<longrightarrow> fle lo u)"
proof -
  let ?ns = "filter (\<lambda>v. v \<noteq> NaN) xs"
  from assms(2,3) have "v \<in> set ?ns" by simp
  then obtain y ys where ns: "?ns = y # ys" by (cases ?ns) auto
  have lo: "lo = foldl fmin2 y ys"
    using assms(1,2) ns by (auto simp: nanmin_def split: if_splits)
  have "\<forall>u \<in> set ?ns. u \<noteq> NaN" by simp
  then have "\<forall>u \<in> set (y # ys). u \<noteq> NaN" unfolding ns .
  from foldl_fmin2[OF this]
  have "lo \<in> set ?ns" and "\<forall>u \<in> set ?ns. fle lo u"
    unfolding lo ns by simp_all
  then show ?thesis by auto
qed

lemma nanmax_greatest:
  assumes "nanmax xs = Inr hi" and "v \<in> set xs" and "v \<noteq> NaN"
  shows "hi \<in> set xs \<and> hi \<noteq> NaN \<and> (\<forall>u \<in> set xs. u \<noteq> NaN \<longrightarrow> fle u hi)"
proof -
  let ?ns = "filter (\<lambda>v. v \<noteq> NaN) xs"
  from assms(2,3) have "v \<in> set ?ns" by simp
  then obtain y ys where ns: "?ns = y # ys" by (cases ?ns) auto
  have hi: "hi = foldl fmax2 y ys"
    using assms(1,2) ns by (auto simp: nanmax_def split: if_splits)
  have "\<forall>u \<in> set ?ns. u \<noteq> NaN" by simp
  then have "\<forall>u \<in> set (y # ys). u \<noteq> NaN" unfolding ns .
  from foldl_fmax2[OF this]
  have "hi \<in> set ?ns" and "\<forall>u \<in> set ?ns. fle u hi"
    unfolding hi ns by simp_all
  then show ?thesis by auto
qed

lemma nanmin_no_number:
  assumes "nanmin xs = Inr lo" and "\<forall>v \<in> set xs. v = NaN"
  shows "lo = NaN"
proof -
  have "filter (\<lambda>v. v \<noteq> NaN) xs = []" using assms(2) by (induction xs) auto
  then show ?thesis using assms(1) by (auto simp: nanmin_def split: if_splits)
qed

lemma overflow_threshold_pos: "0 < overflow_threshold"
  by (simp add: overflow_threshold_def)

lemma overflow_threshold_power: "overflow_threshold = 2 ^ 1024 - 2 ^ 970"
  by (simp add: overflow_threshold_def)

lemma to_double_Fin: "to_double x = Fin y \<longleftrightarrow> (y = x \<and> \<bar>x\<bar> < overflow_threshold)"
  using overflow_threshold_pos by (auto simp: to_double_def)

lemma to_double_in_range: "\<bar>x\<bar> < overflow_threshold \<Longrightarrow> to_double x = Fin x"
  by (simp add: to_double_Fin)

lemma to_double_not_NaN: "to_double x \<noteq> NaN"
  by (simp add: to_double_def)

lemma fsub_zero: "fsub hi lo = Fin 0 \<longleftrightarrow> (\<exists>c. hi = Fin c \<and> lo = Fin c)"
  using overflow_threshold_pos by (cases hi; cases lo) (auto simp: to_double_Fin)

subsection \<open>The normalisation of the bounding-box endpoint\<close>

lemma serve_image_emits:
  assumes "emits_only P (get_image L)" and "serve_image L ps ds = (r, ds', tr)"
  shows "list_all P tr"
proof (cases "depends_image_query L ps")
  case (Inl e)
  then show ?thesis using assms(2) by (auto simp: serve_image_def)
next
  case (Inr query)
  let ?w = "\<lparr>request_obj = query, dataset_obj = ds, trace = []\<rparr>"
  from assms(1) obtain es where "trace (snd (get_image L ?w)) = trace ?w @ es" "list_all P es"
    by (auto simp: emits_only_def dest: spec[of _ ?w])
  then show ?thesis using assms(2) Inr by (auto simp: serve_image_def split: prod.splits)
qed

lemma serve_tile_emits:
  assumes "emits_only P (get_image_tile L (tp_parameter tp) (tp_t tp) (tp_z tp) (tp_x tp)
      (tp_y tp) (case tp_size tp of None \<Rightarrow> 256 | Some n \<Rightarrow> n))"
    and "serve_tile L tp ds = (r, ds', tr)"
  shows "list_all P tr"
proof -
  let ?w = "\<lparr>request_obj = (), dataset_obj = ds, trace = []\<rparr>"
  let ?m = "get_image_tile L (tp_parameter tp) (tp_t tp) (tp_z tp) (tp_x tp) (tp_y tp)
       (case tp_size tp of None \<Rightarrow> 256 | Some n \<Rightarrow> n)"
  from assms(1) obtain es where "trace (snd (?m ?w)) = trace ?w @ es" "list_all P es"
    by (auto simp: emits_only_def dest: spec[of _ ?w])
  then show ?thesis using assms(2) by (auto simp: serve_tile_def split: prod.splits)
qed

lemma get_image_scale_events:
  "emits_only (\<lambda>ev. \<forall>g lo hi. ev = Scale g lo hi \<longrightarrow>
       nanmin (concat g) = Inr lo \<and> nanmax (concat g) = Inr hi) (get_image L)"
  unfolding get_image_def
  apply (simp only: split_def)
  apply (intro emits_intros)
                      apply simp_all
  done

lemma serve_image_scale:
  assumes "serve_image L ps ds = (r, ds', tr)" and "Scale g lo hi \<in> set tr"
  shows "nanmin (concat g) = Inr lo \<and> nanmax (concat g) = Inr hi"
  using serve_image_emits[OF get_image_scale_events assms(1)] assms(2)
  by (auto simp: list_all_iff)

lemma serve_image_scaled_is_coloured:
  assumes "serve_image L ps ds = (Inr resp, ds', tr)" and "Scale g lo hi \<in> set tr"
  shows "Cmap_call (scale_grid g lo hi) \<in> set tr"
  using assms(1)
proof (rule serve_image_run)
  fix query :: ImageQuery and xmin ymin xmax ymax mc xc q1 rd lo' hi' cm
  let ?g = "scale_grid (xr_values L rd) lo' hi'"
  let ?im = "Image_fromarray (map (map (\<lambda>v. uint8_pixel (times255 (cm_call L cm v)))) ?g)"
  assume tr: "tr = map Float (split_comma (bbox query)) @
       (if crs query \<noteq> ''EPSG:4326''
        then [From_crs (crs query) ''EPSG:4326'', Transform xmin ymin, Transform xmax ymax]
        else []) @
       [Cf_sel [(''X'', Slice (fst mc) (fst xc)), (''Y'', Slice (snd mc) (snd xc)),
                (''T'', Label (datetime query))], Squeeze, Rio_crs] @
       (if rio_crs L q1 = None then [Write_crs 4326] else []) @
       [Getitem (parameter query),
        Reproject (crs query) (Some (width query, height query)) Bilinear,
        Min_call, Max_call, Scale (xr_values L rd) lo' hi',
        Get_cmap (if truthy (cmap query) then cmap query else Some ''rainbow''),
        Cmap_call ?g, Fromarray, Save ?im ''PNG'', Respond ''image/png'']"
  from assms(2) have "g = xr_values L rd \<and> lo = lo' \<and> hi = hi'"
    unfolding tr by (auto split: if_splits)
  then show ?thesis unfolding tr by simp
qed


lemma serve_image_scaled_is_answered:
  assumes "serve_image L ps ds = (Inr resp, ds', tr)" and "Scale g lo hi \<in> set tr"
  shows "\<exists>query da rd cm. depends_image_query L ps = Inr query \<and>
     rio_reproject L da (crs query) (Some (width query, height query)) Bilinear = Inr rd \<and>
     g = xr_values L rd \<and>
     cm_get_cmap L (if truthy (cmap query) then cmap query else Some ''rainbow'') = Inr cm \<and>
     pil_save L (Image_fromarray (map (map (\<lambda>v. uint8_pixel (times255 (cm_call L cm v))))
                    (scale_grid g lo hi))) ''PNG'' = Inr (content resp)"
  using assms(1)
proof (rule serve_image_run)
  fix query :: ImageQuery and xmin ymin xmax ymax mc xc q1 da rd lo' hi' cm bytes
  let ?g = "scale_grid (xr_values L rd) lo' hi'"
  let ?im = "Image_fromarray (map (map (\<lambda>v. uint8_pixel (times255 (cm_call L cm v)))) ?g)"
  assume dep: "depends_image_query L ps = Inr query"
    and rp: "rio_reproject L da (crs query) (Some (width query, height query)) Bilinear = Inr rd"
    and cm: "cm_get_cmap L (if truthy (cmap query) then cmap query else Some ''rainbow'') = Inr cm"
    and save: "pil_save L ?im ''PNG'' = Inr bytes"
    and resp: "resp = \<lparr>content = bytes, media_type = ''image/png''\<rparr>"
    and tr: "tr = map Float (split_comma (bbox query)) @
       (if crs query \<noteq> ''EPSG:4326''
        then [From_crs (crs query) ''EPSG:4326'', Transform xmin ymin, Transform xmax ymax]
        else []) @
       [Cf_sel [(''X'', Slice (fst mc) (fst xc)), (''Y'', Slice (snd mc) (snd xc)),
                (''T'', Label (datetime query))], Squeeze, Rio_crs] @
       (if rio_crs L q1 = None then [Write_crs 4326] else []) @
       [Getitem (parameter query),
        Reproject (crs query) (Some (width query, height query)) Bilinear,
        Min_call, Max_call, Scale (xr_values L rd) lo' hi',
        Get_cmap (if truthy (cmap query) then cmap query else Some ''rainbow''),
        Cmap_call ?g, Fromarray, Save ?im ''PNG'', Respond ''image/png'']"
  from assms(2) have eq: "g = xr_values L rd \<and> lo = lo' \<and> hi = hi'"
    unfolding tr by (auto split: if_splits)
  from save resp eq have "pil_save L (Image_fromarray
      (map (map (\<lambda>v. uint8_pixel (times255 (cm_call L cm v)))) (scale_grid g lo hi))) ''PNG'' =
      Inr (content resp)"
    by simp
  with dep rp cm eq show ?thesis by blast
qed

lemma serve_image_is_scaled:
  assumes "serve_image L ps ds = (Inr resp, ds', tr)"
  shows "\<exists>g lo hi. Scale g lo hi \<in> set tr"
  using assms
proof (rule serve_image_run)
  fix query :: ImageQuery and xmin ymin xmax ymax mc xc q1 rd lo hi cm
  let ?g = "scale_grid (xr_values L rd) lo hi"
  let ?im = "Image_fromarray (map (map (\<lambda>v. uint8_pixel (times255 (cm_call L cm v)))) ?g)"
  assume tr: "tr = map Float (split_comma (bbox query)) @
       (if crs query \<noteq> ''EPSG:4326''
        then [From_crs (crs query) ''EPSG:4326'', Transform xmin ymin, Transform xmax ymax]
        else []) @
       [Cf_sel [(''X'', Slice (fst mc) (fst xc)), (''Y'', Slice (snd mc) (snd xc)),
                (''T'', Label (datetime query))], Squeeze, Rio_crs] @
       (if rio_crs L q1 = None then [Write_crs 4326] else []) @
       [Getitem (parameter query),
        Reproject (crs query) (Some (width query, height query)) Bilinear,
        Min_call, Max_call, Scale (xr_values L rd) lo hi,
        Get_cmap (if truthy (cmap query) then cmap query else Some ''rainbow''),
        Cmap_call ?g, Fromarray, Save ?im ''PNG'', Respond ''image/png'']"
  have "Scale (xr_values L rd) lo hi \<in> set tr" unfolding tr by simp
  then show ?thesis by blast
qed

lemma one_less_overflow_threshold: "1 < overflow_threshold"
  by (simp add: overflow_threshold_def)

text \<open>
  The arithmetic of line 81 on an array of finite numbers that are not all equal and of
  which no two are so far apart that their difference overflows.
\<close>

lemma autoscale_finite:
  assumes lo: "nanmin xs = Inr lo" and hi: "nanmax xs = Inr hi"
    and fin: "\<forall>v \<in> set xs. finite_or_nan v"
    and u: "Fin u \<in> set xs" and v: "Fin v \<in> set xs" and uv: "u \<noteq> v"
    and far: "\<forall>x y. Fin x \<in> set xs \<and> Fin y \<in> set xs \<longrightarrow> y - x < overflow_threshold"
  shows "\<exists>a b. lo = Fin a \<and> hi = Fin b \<and> a < b \<and> Fin a \<in> set xs \<and> Fin b \<in> set xs \<and>
     (\<forall>x. Fin x \<in> set xs \<longrightarrow> a \<le> x \<and> x \<le> b \<and>
        scale_cell lo hi (Fin x) = Fin ((x - a) / (b - a)) \<and>
        0 \<le> (x - a) / (b - a) \<and> (x - a) / (b - a) \<le> 1) \<and>
     scale_cell lo hi (Fin a) = Fin 0 \<and> scale_cell lo hi (Fin b) = Fin 1 \<and>
     scale_cell lo hi NaN = NaN"
proof -
  from nanmin_least[OF lo u] have lo_in: "lo \<in> set xs" and lo_num: "lo \<noteq> NaN"
    and lo_le: "\<forall>w \<in> set xs. w \<noteq> NaN \<longrightarrow> fle lo w" by simp_all
  from nanmax_greatest[OF hi u] have hi_in: "hi \<in> set xs" and hi_num: "hi \<noteq> NaN"
    and hi_ge: "\<forall>w \<in> set xs. w \<noteq> NaN \<longrightarrow> fle w hi" by simp_all
  from fin lo_in lo_num obtain a where a: "lo = Fin a"
    by (cases lo) (auto simp: finite_or_nan_def)
  from fin hi_in hi_num obtain b where b: "hi = Fin b"
    by (cases hi) (auto simp: finite_or_nan_def)
  have bounds: "a \<le> x \<and> x \<le> b" if "Fin x \<in> set xs" for x
    using lo_le hi_ge that unfolding a b by fastforce
  have "a \<le> u" "u \<le> b" "a \<le> v" "v \<le> b" using bounds u v by simp_all
  with uv have ab: "a < b" by linarith
  from far lo_in hi_in have range: "b - a < overflow_threshold" unfolding a b by blast
  have sub: "fsub (Fin x) (Fin a) = Fin (x - a)" if "a \<le> x" "x \<le> b" for x
  proof -
    from that range have "\<bar>x - a\<bar> < overflow_threshold" by simp
    then show ?thesis by (simp add: to_double_in_range)
  qed
  have quot: "fdiv (Fin (x - a)) (Fin (b - a)) = Fin ((x - a) / (b - a)) \<and>
      0 \<le> (x - a) / (b - a) \<and> (x - a) / (b - a) \<le> 1" if "a \<le> x" "x \<le> b" for x
  proof -
    from that ab have q: "0 \<le> (x - a) / (b - a)" "(x - a) / (b - a) \<le> 1"
      by (simp_all add: divide_le_eq)
    with one_less_overflow_threshold have "\<bar>(x - a) / (b - a)\<bar> < overflow_threshold"
      by linarith
    then have "to_double ((x - a) / (b - a)) = Fin ((x - a) / (b - a))"
      by (rule to_double_in_range)
    with ab q show ?thesis by simp
  qed
  have cell: "scale_cell lo hi (Fin x) = Fin ((x - a) / (b - a)) \<and>
        0 \<le> (x - a) / (b - a) \<and> (x - a) / (b - a) \<le> 1" if "a \<le> x" "x \<le> b" for x
    using sub[OF that] sub[of b] quot[OF that] ab unfolding a b scale_cell_def by simp
  have ends: "scale_cell lo hi (Fin a) = Fin 0" "scale_cell lo hi (Fin b) = Fin 1"
    using cell[of a] cell[of b] ab by simp_all
  have nan: "scale_cell lo hi NaN = NaN"
    unfolding a b by (simp add: scale_cell_def)
  have cells: "\<forall>x. Fin x \<in> set xs \<longrightarrow> a \<le> x \<and> x \<le> b \<and>
        scale_cell lo hi (Fin x) = Fin ((x - a) / (b - a)) \<and>
        0 \<le> (x - a) / (b - a) \<and> (x - a) / (b - a) \<le> 1"
    using bounds cell by blast
  from lo_in hi_in have "Fin a \<in> set xs" "Fin b \<in> set xs" unfolding a b by simp_all
  with a b ab cells ends nan show ?thesis by blast
qed

text \<open>
  Claim C5, as amended. Every request to the bounding-box endpoint that is answered has
  gone through line 81, on the array the reprojection returned, and its body is the
  picture of the normalized array. In every request that reaches line 81, \<open>min_value\<close>
  and \<open>max_value\<close> are the minimum and the maximum of the numbers of the resampled array
  (NaN cells, xarray's missing values, are skipped) and every cell \<open>v\<close> is mapped to
  \<open>(v - min_value) / (max_value - min_value)\<close>. When the resampled array has no infinite
  cell, its numbers are not all equal and no two of them are so far apart that their
  difference overflows (\<open>2\<^sup>1\<^sup>0\<^sup>2\<^sup>4 - 2\<^sup>9\<^sup>7\<^sup>0\<close> or more), every number \<open>v\<close> is mapped to the
  number \<open>(v - min) / (max - min)\<close>, which lies in \<open>[0, 1]\<close>, the minimum is mapped to 0
  and the maximum to 1; a NaN cell stays NaN. The quotient is the exact one: the
  rounding of the two operations is not modelled.
\<close>

theorem autoscale_maps_numbers_into_unit_interval:
  "(serve_image L ps ds = (Inr resp, ds', tr) \<longrightarrow> (\<exists>g lo hi. Scale g lo hi \<in> set tr)) \<and>
   (serve_image L ps ds = (r, ds', tr) \<and> Scale g lo hi \<in> set tr \<longrightarrow>
     nanmin (concat g) = Inr lo \<and> nanmax (concat g) = Inr hi \<and>
     scale_grid g lo hi = map (map (\<lambda>v. fdiv (fsub v lo) (fsub hi lo))) g \<and>
     (\<forall>resp. r = Inr resp \<longrightarrow>
        Cmap_call (scale_grid g lo hi) \<in> set tr \<and>
        (\<exists>query da rd cm. depends_image_query L ps = Inr query \<and>
           rio_reproject L da (crs query) (Some (width query, height query)) Bilinear =
             Inr rd \<and>
           g = xr_values L rd \<and>
           cm_get_cmap L (if truthy (cmap query) then cmap query else Some ''rainbow'') =
             Inr cm \<and>
           pil_save L (Image_fromarray
               (map (map (\<lambda>v. uint8_pixel (times255 (cm_call L cm v))))
                  (scale_grid g lo hi))) ''PNG'' = Inr (content resp))) \<and>
     ((\<forall>v \<in> set (concat g). finite_or_nan v) \<and>
      (\<exists>u v. Fin u \<in> set (concat g) \<and> Fin v \<in> set (concat g) \<and> u \<noteq> v) \<and>
      (\<forall>x y. Fin x \<in> set (concat g) \<and> Fin y \<in> set (concat g) \<longrightarrow>
         y - x < overflow_threshold) \<longrightarrow>
        (\<exists>a b. lo = Fin a \<and> hi = Fin b \<and> a < b \<and>
           Fin a \<in> set (concat g) \<and> Fin b \<in> set (concat g) \<and>
           (\<forall>x. Fin x \<in> set (concat g) \<longrightarrow> a \<le> x \<and> x \<le> b \<and>
              scale_cell lo hi (Fin x) = Fin ((x - a) / (b - a)) \<and>
              0 \<le> (x - a) / (b - a) \<and> (x - a) / (b - a) \<le> 1) \<and>
           scale_cell lo hi (Fin a) = Fin 0 \<and> scale_cell lo hi (Fin b) = Fin 1 \<and>
           scale_cell lo hi NaN = NaN)))"
proof (intro conjI impI)
  assume "serve_image L ps ds = (Inr resp, ds', tr)"
  then show "\<exists>g lo hi. Scale g lo hi \<in> set tr" by (rule serve_image_is_scaled)
next
  assume "serve_image L ps ds = (r, ds', tr) \<and> Scale g lo hi \<in> set tr"
  then have run: "serve_image L ps ds = (r, ds', tr)" and ev: "Scale g lo hi \<in> set tr"
    by simp_all
  from serve_image_scale[OF run ev]
  show lo: "nanmin (concat g) = Inr lo" and hi: "nanmax (concat g) = Inr hi" by simp_all
  show "scale_grid g lo hi = map (map (\<lambda>v. fdiv (fsub v lo) (fsub hi lo))) g"
    by (simp add: scale_grid_def scale_cell_def)
  show "\<forall>resp. r = Inr resp \<longrightarrow>
        Cmap_call (scale_grid g lo hi) \<in> set tr \<and>
        (\<exists>query da rd cm. depends_image_query L ps = Inr query \<and>
           rio_reproject L da (crs query) (Some (width query, height query)) Bilinear =
             Inr rd \<and>
           g = xr_values L rd \<and>
           cm_get_cmap L (if truthy (cmap query) then cmap query else Some ''rainbow'') =
             Inr cm \<and>
           pil_save L (Image_fromarray
               (map (map (\<lambda>v. uint8_pixel (times255 (cm_call L cm v))))
                  (scale_grid g lo hi))) ''PNG'' = Inr (content resp))"
  proof (intro allI impI)
    fix resp' assume "r = Inr resp'"
    with run have run': "serve_image L ps ds = (Inr resp', ds', tr)" by simp
    from serve_image_scaled_is_coloured[OF run' ev] serve_image_scaled_is_answered[OF run' ev]
    show "Cmap_call (scale_grid g lo hi) \<in> set tr \<and>
        (\<exists>query da rd cm. depends_image_query L ps = Inr query \<and>
           rio_reproject L da (crs query) (Some (width query, height query)) Bilinear =
             Inr rd \<and>
           g = xr_values L rd \<and>
           cm_get_cmap L (if truthy (cmap query) then cmap query else Some ''rainbow'') =
             Inr cm \<and>
           pil_save L (Image_fromarray
               (map (map (\<lambda>v. uint8_pixel (times255 (cm_call L cm v))))
                  (scale_grid g lo hi))) ''PNG'' = Inr (content resp'))"
      by (rule conjI)
  qed
  show "\<exists>a b. lo = Fin a \<and> hi = Fin b \<and> a < b \<and>
           Fin a \<in> set (concat g) \<and> Fin b \<in> set (concat g) \<and>
           (\<forall>x. Fin x \<in> set (concat g) \<longrightarrow> a \<le> x \<and> x \<le> b \<and>
              scale_cell lo hi (Fin x) = Fin ((x - a) / (b - a)) \<and>
              0 \<le> (x - a) / (b - a) \<and> (x - a) / (b - a) \<le> 1) \<and>
           scale_cell lo hi (Fin a) = Fin 0 \<and> scale_cell lo hi (Fin b) = Fin 1 \<and>
           scale_cell lo hi NaN = NaN"
    if h: "(\<forall>v \<in> set (concat g). finite_or_nan v) \<and>
      (\<exists>u v. Fin u \<in> set (concat g) \<and> Fin v \<in> set (concat g) \<and> u \<noteq> v) \<and>
      (\<forall>x y. Fin x \<in> set (concat g) \<and> Fin y \<in> set (concat g) \<longrightarrow>
         y - x < overflow_threshold)"
  proof -
    from h obtain u v where uv: "Fin u \<in> set (concat g)" "Fin v \<in> set (concat g)" "u \<noteq> v"
      by blast
    from h have fin: "\<forall>v \<in> set (concat g). finite_or_nan v"
      and far: "\<forall>x y. Fin x \<in> set (concat g) \<and> Fin y \<in> set (concat g) \<longrightarrow>
         y - x < overflow_threshold"
      by blast+
    show ?thesis by (rule autoscale_finite[OF lo hi fin uv far])
  qed
qed

theorem autoscale_maps_numbers_into_unit_interval_witness:
  "serve_image demo_libs demo_params demo_dataset =
     (Inr demo_image_response, demo_dataset, demo_image_trace) \<and>
   Scale [[Fin 1, Fin 1, Fin 2], [Fin 3, Fin 3, Fin 5]] (Fin 1) (Fin 5)
     \<in> set demo_image_trace \<and>
   list_all finite_or_nan [Fin 1, Fin 1, Fin 2, Fin 3, Fin 3, Fin 5] \<and>
   nanmin [Fin 1, Fin 1, Fin 2, Fin 3, Fin 3, Fin 5] = Inr (Fin 1) \<and>
   nanmax [Fin 1, Fin 1, Fin 2, Fin 3, Fin 3, Fin 5] = Inr (Fin 5) \<and>
   Cmap_call (scale_grid [[Fin 1, Fin 1, Fin 2], [Fin 3, Fin 3, Fin 5]] (Fin 1) (Fin 5))
     \<in> set demo_image_trace \<and>
   scale_cell (Fin 1) (Fin 5) (Fin 2) = Fin (1 / 4) \<and>
   scale_cell (Fin 1) (Fin 5) (Fin 1) = Fin 0 \<and>
   scale_cell (Fin 1) (Fin 5) (Fin 5) = Fin 1"
proof -
  let ?g = "[[Fin 1, Fin 1, Fin 2], [Fin 3, Fin 3, Fin 5]]"
  have mem: "Scale ?g (Fin 1) (Fin 5) \<in> set demo_image_trace"
    by (simp add: demo_image_trace_def)
  have fin: "\<forall>v \<in> set (concat ?g). finite_or_nan v"
    by (simp add: finite_or_nan_def)
  have two: "\<exists>u v. Fin u \<in> set (concat ?g) \<and> Fin v \<in> set (concat ?g) \<and> u \<noteq> v"
    by (intro exI[of _ 1] exI[of _ 2]) simp
  have far: "\<forall>x y. Fin x \<in> set (concat ?g) \<and> Fin y \<in> set (concat ?g) \<longrightarrow>
         y - x < overflow_threshold"
    by (auto simp: overflow_threshold_def)
  note inst = autoscale_maps_numbers_into_unit_interval[of demo_libs demo_params
      demo_dataset demo_image_response demo_dataset demo_image_trace
      "Inr demo_image_response" ?g "Fin 1" "Fin 5", THEN conjunct2, THEN mp,
      OF conjI[OF demo_image_run mem]]
  from inst
  have 1: "nanmin (concat ?g) = Inr (Fin 1)" and 2: "nanmax (concat ?g) = Inr (Fin 5)"
    by blast+
  from inst[THEN conjunct2, THEN conjunct2, THEN conjunct2, THEN conjunct1]
  have 3: "Cmap_call (scale_grid ?g (Fin 1) (Fin 5)) \<in> set demo_image_trace"
    by blast
  from inst[THEN conjunct2, THEN conjunct2, THEN conjunct2, THEN conjunct2, THEN mp,
      OF conjI[OF fin conjI[OF two far]]]
  obtain a b where ab: "Fin 1 = Fin a" "Fin 5 = Fin b"
    and cell: "\<forall>x. Fin x \<in> set (concat ?g) \<longrightarrow>
        scale_cell (Fin 1) (Fin 5) (Fin x) = Fin ((x - a) / (b - a))"
    and ends: "scale_cell (Fin 1) (Fin 5) (Fin a) = Fin 0"
      "scale_cell (Fin 1) (Fin 5) (Fin b) = Fin 1"
    by blast
  from ab have a: "a = 1" and b: "b = 5" by simp_all
  from cell have "scale_cell (Fin 1) (Fin 5) (Fin 2) = Fin ((2 - a) / (b - a))" by simp
  then have c: "scale_cell (Fin 1) (Fin 5) (Fin 2) = Fin (1 / 4)" by (simp add: a b)
  show ?thesis
    using demo_image_run mem 1 2 3 c ends by (simp add: a b finite_or_nan_def)
qed

text \<open>
  The claim as it is written fails on an array of finite numbers that are not all
  equal: with the values \<open>-2\<^sup>1\<^sup>0\<^sup>2\<^sup>3\<close>, 0 and \<open>2\<^sup>1\<^sup>0\<^sup>2\<^sup>3\<close> the difference of the maximum and
  the minimum is no double, the subtraction gives \<open>inf\<close>, the maximum is mapped to
  \<open>inf / inf\<close>, which is NaN and neither 1 nor in \<open>[0, 1]\<close>, and 0 is mapped to 0 as the
  minimum is.
\<close>

lemma huge_power: "huge = 2 ^ 1023"
  by (simp add: huge_def)

lemma demo_wide_run:
  "fst (serve_image demo_libs demo_params demo_dataset_wide) =
     Inr \<lparr>content = [137, 80, 78, 71, 3, 2], media_type = ''image/png''\<rparr> \<and>
   Scale [[Fin (- huge), Fin (- huge), Fin 0], [Fin 0, Fin 0, Fin huge]]
       (Fin (- huge)) (Fin huge)
     \<in> set (snd (snd (serve_image demo_libs demo_params demo_dataset_wide))) \<and>
   Cmap_call [[Fin 0, Fin 0, Fin 0], [Fin 0, Fin 0, NaN]]
     \<in> set (snd (snd (serve_image demo_libs demo_params demo_dataset_wide)))"
  by code_simp

theorem widely_spread_maximum_is_mapped_to_nan:
  "huge = 2 ^ 1023 \<and> huge - (- huge) = 2 ^ 1024 \<and> overflow_threshold \<le> 2 ^ 1024 \<and>
   fst (serve_image demo_libs demo_params demo_dataset_wide) =
     Inr \<lparr>content = [137, 80, 78, 71, 3, 2], media_type = ''image/png''\<rparr> \<and>
   Scale [[Fin (- huge), Fin (- huge), Fin 0], [Fin 0, Fin 0, Fin huge]]
       (Fin (- huge)) (Fin huge)
     \<in> set (snd (snd (serve_image demo_libs demo_params demo_dataset_wide))) \<and>
   Cmap_call [[Fin 0, Fin 0, Fin 0], [Fin 0, Fin 0, NaN]]
     \<in> set (snd (snd (serve_image demo_libs demo_params demo_dataset_wide))) \<and>
   list_all finite_or_nan
     [Fin (- huge), Fin (- huge), Fin 0, Fin 0, Fin 0, Fin huge] \<and>
   nanmin [Fin (- huge), Fin (- huge), Fin 0, Fin 0, Fin 0, Fin huge] =
     Inr (Fin (- huge)) \<and>
   nanmax [Fin (- huge), Fin (- huge), Fin 0, Fin 0, Fin 0, Fin huge] =
     Inr (Fin huge) \<and>
   fsub (Fin huge) (Fin (- huge)) = PInf \<and>
   scale_cell (Fin (- huge)) (Fin huge) (Fin huge) = NaN \<and>
   scale_cell (Fin (- huge)) (Fin huge) (Fin 0) = Fin 0"
proof -
  have "list_all finite_or_nan
      [Fin (- huge), Fin (- huge), Fin 0, Fin 0, Fin 0, Fin huge] \<and>
    nanmin [Fin (- huge), Fin (- huge), Fin 0, Fin 0, Fin 0, Fin huge] =
      Inr (Fin (- huge)) \<and>
    nanmax [Fin (- huge), Fin (- huge), Fin 0, Fin 0, Fin 0, Fin huge] =
      Inr (Fin huge) \<and>
    fsub (Fin huge) (Fin (- huge)) = PInf \<and>
    scale_cell (Fin (- huge)) (Fin huge) (Fin huge) = NaN \<and>
    scale_cell (Fin (- huge)) (Fin huge) (Fin 0) = Fin 0"
    by code_simp
  moreover have "huge - (- huge) = 2 ^ 1024" "overflow_threshold \<le> 2 ^ 1024"
    by (simp_all add: huge_def overflow_threshold_def)
  ultimately show ?thesis using huge_power demo_wide_run by simp
qed

lemma to_double_0: "to_double 0 = Fin 0"
  using overflow_threshold_pos by (simp add: to_double_def)

lemma divisor_zero:
  assumes lo: "nanmin xs = Inr lo" and hi: "nanmax xs = Inr hi" and z: "fsub hi lo = Fin 0"
  shows "\<exists>c. lo = Fin c \<and> hi = Fin c \<and> Fin c \<in> set xs \<and>
     (\<forall>v \<in> set xs. v = NaN \<or> v = Fin c)"
proof -
  from z obtain c where c: "hi = Fin c" "lo = Fin c" by (auto simp: fsub_zero)
  have ex: "\<exists>v \<in> set xs. v \<noteq> NaN"
  proof (rule ccontr)
    assume "\<not> (\<exists>v \<in> set xs. v \<noteq> NaN)"
    then have "\<forall>v \<in> set xs. v = NaN" by blast
    from nanmin_no_number[OF lo this] c show False by simp
  qed
  then obtain u where u: "u \<in> set xs" "u \<noteq> NaN" by blast
  from nanmin_least[OF lo u] have lo_in: "lo \<in> set xs"
    and lo_le: "\<forall>w \<in> set xs. w \<noteq> NaN \<longrightarrow> fle lo w" by simp_all
  from nanmax_greatest[OF hi u]
  have hi_ge: "\<forall>w \<in> set xs. w \<noteq> NaN \<longrightarrow> fle w hi" by simp
  have "v = Fin c" if "v \<in> set xs" "v \<noteq> NaN" for v
  proof -
    from lo_le hi_ge that have 1: "fle (Fin c) v" and 2: "fle v (Fin c)"
      unfolding c by simp_all
    from fle_antisym[OF 2 1] show ?thesis .
  qed
  then have all: "\<forall>v \<in> set xs. v = NaN \<or> v = Fin c" by blast
  from lo_in c(2) have "Fin c \<in> set xs" by simp
  with c all show ?thesis by blast
qed

lemma divisor_of_constant:
  assumes lo: "nanmin xs = Inr lo" and hi: "nanmax xs = Inr hi"
    and c: "Fin c \<in> set xs" and all: "\<forall>v \<in> set xs. v = NaN \<or> v = Fin c"
  shows "fsub hi lo = Fin 0"
proof -
  from nanmin_least[OF lo c] have "lo \<in> set xs" "lo \<noteq> NaN" by simp_all
  with all have l: "lo = Fin c" by blast
  from nanmax_greatest[OF hi c] have "hi \<in> set xs" "hi \<noteq> NaN" by simp_all
  with all have h: "hi = Fin c" by blast
  show ?thesis by (simp add: l h to_double_0)
qed

text \<open>
  Claim C10. For every request to the bounding-box endpoint that reaches line 81, the
  divisor \<open>max_value - min_value\<close> comes from the resampled array, and every cell is
  divided by it, whatever it is: the cell \<open>v\<close> becomes
  \<open>(v - min_value) / (max_value - min_value)\<close>. If two values of the array differ (a value
  is a cell that is not NaN), the divisor is not zero. The divisor is zero only if all
  values of the array are one and the same finite number, and for such an array it is
  zero; the division is then carried out all the same and gives NaN in every cell.
\<close>

theorem autoscale_divisor_is_zero_only_for_constant_data:
  "serve_image L ps ds = (r, ds', tr) \<and> Scale g lo hi \<in> set tr \<longrightarrow>
     nanmin (concat g) = Inr lo \<and> nanmax (concat g) = Inr hi \<and>
     scale_grid g lo hi = map (map (\<lambda>v. fdiv (fsub v lo) (fsub hi lo))) g \<and>
     ((\<exists>u v. u \<in> set (concat g) \<and> v \<in> set (concat g) \<and> u \<noteq> NaN \<and> v \<noteq> NaN \<and> u \<noteq> v)
        \<longrightarrow> fsub hi lo \<noteq> Fin 0) \<and>
     (fsub hi lo = Fin 0 \<longrightarrow>
        (\<exists>c. lo = Fin c \<and> hi = Fin c \<and> Fin c \<in> set (concat g) \<and>
           (\<forall>v \<in> set (concat g). v = NaN \<or> v = Fin c)) \<and>
        (\<forall>v \<in> set (concat g). fdiv (fsub v lo) (fsub hi lo) = NaN)) \<and>
     ((\<exists>c. Fin c \<in> set (concat g) \<and> (\<forall>v \<in> set (concat g). v = NaN \<or> v = Fin c))
        \<longrightarrow> fsub hi lo = Fin 0)"
proof (intro impI, elim conjE)
  assume run: "serve_image L ps ds = (r, ds', tr)" and ev: "Scale g lo hi \<in> set tr"
  from serve_image_scale[OF run ev]
  have lo: "nanmin (concat g) = Inr lo" and hi: "nanmax (concat g) = Inr hi" by simp_all
  have grid: "scale_grid g lo hi = map (map (\<lambda>v. fdiv (fsub v lo) (fsub hi lo))) g"
    by (simp add: scale_grid_def scale_cell_def)
  have zero: "fsub hi lo = Fin 0 \<longrightarrow>
        (\<exists>c. lo = Fin c \<and> hi = Fin c \<and> Fin c \<in> set (concat g) \<and>
           (\<forall>v \<in> set (concat g). v = NaN \<or> v = Fin c)) \<and>
        (\<forall>v \<in> set (concat g). fdiv (fsub v lo) (fsub hi lo) = NaN)"
  proof
    assume z: "fsub hi lo = Fin 0"
    from divisor_zero[OF lo hi z] obtain c where c: "lo = Fin c" "hi = Fin c"
      "Fin c \<in> set (concat g)" "\<forall>v \<in> set (concat g). v = NaN \<or> v = Fin c" by blast
    have "fdiv (fsub v lo) (fsub hi lo) = NaN" if "v \<in> set (concat g)" for v
    proof -
      from c(4) that have "v = NaN \<or> v = Fin c" by blast
      then show ?thesis by (auto simp: c(1,2) to_double_0)
    qed
    then have "\<forall>v \<in> set (concat g). fdiv (fsub v lo) (fsub hi lo) = NaN" by blast
    with c show "(\<exists>c. lo = Fin c \<and> hi = Fin c \<and> Fin c \<in> set (concat g) \<and>
           (\<forall>v \<in> set (concat g). v = NaN \<or> v = Fin c)) \<and>
        (\<forall>v \<in> set (concat g). fdiv (fsub v lo) (fsub hi lo) = NaN)" by blast
  qed
  have two: "(\<exists>u v. u \<in> set (concat g) \<and> v \<in> set (concat g) \<and> u \<noteq> NaN \<and> v \<noteq> NaN \<and> u \<noteq> v)
        \<longrightarrow> fsub hi lo \<noteq> Fin 0"
  proof (intro impI notI)
    assume "\<exists>u v. u \<in> set (concat g) \<and> v \<in> set (concat g) \<and> u \<noteq> NaN \<and> v \<noteq> NaN \<and> u \<noteq> v"
    then obtain u v where uv: "u \<in> set (concat g)" "v \<in> set (concat g)" "u \<noteq> NaN"
      "v \<noteq> NaN" "u \<noteq> v" by blast
    assume "fsub hi lo = Fin 0"
    from divisor_zero[OF lo hi this] obtain c where
      "\<forall>v \<in> set (concat g). v = NaN \<or> v = Fin c" by blast
    with uv show False by auto
  qed
  have const: "(\<exists>c. Fin c \<in> set (concat g) \<and> (\<forall>v \<in> set (concat g). v = NaN \<or> v = Fin c))
        \<longrightarrow> fsub hi lo = Fin 0"
    using divisor_of_constant[OF lo hi] by blast
  from lo hi grid two zero const
  show "nanmin (concat g) = Inr lo \<and> nanmax (concat g) = Inr hi \<and>
     scale_grid g lo hi = map (map (\<lambda>v. fdiv (fsub v lo) (fsub hi lo))) g \<and>
     ((\<exists>u v. u \<in> set (concat g) \<and> v \<in> set (concat g) \<and> u \<noteq> NaN \<and> v \<noteq> NaN \<and> u \<noteq> v)
        \<longrightarrow> fsub hi lo \<noteq> Fin 0) \<and>
     (fsub hi lo = Fin 0 \<longrightarrow>
        (\<exists>c. lo = Fin c \<and> hi = Fin c \<and> Fin c \<in> set (concat g) \<and>
           (\<forall>v \<in> set (concat g). v = NaN \<or> v = Fin c)) \<and>
        (\<forall>v \<in> set (concat g). fdiv (fsub v lo) (fsub hi lo) = NaN)) \<and>
     ((\<exists>c. Fin c \<in> set (concat g) \<and> (\<forall>v \<in> set (concat g). v = NaN \<or> v = Fin c))
        \<longrightarrow> fsub hi lo = Fin 0)"
    by (intro conjI)
qed

lemma demo_const_run:
  "Scale [[Fin 2, Fin 2, Fin 2], [Fin 2, Fin 2, Fin 2]] (Fin 2) (Fin 2)
     \<in> set (snd (snd (serve_image demo_libs demo_params demo_dataset_const)))"
  by code_simp

theorem autoscale_divisor_is_zero_only_for_constant_data_witness:
  "Scale [[Fin 1, Fin 1, Fin 2], [Fin 3, Fin 3, Fin 5]] (Fin 1) (Fin 5)
     \<in> set demo_image_trace \<and>
   fsub (Fin 5) (Fin 1) \<noteq> Fin 0 \<and>
   Scale [[Fin 2, Fin 2, Fin 2], [Fin 2, Fin 2, Fin 2]] (Fin 2) (Fin 2)
     \<in> set (snd (snd (serve_image demo_libs demo_params demo_dataset_const))) \<and>
   fsub (Fin 2) (Fin 2) = Fin 0 \<and>
   nanmin [Fin 2, Fin 2, Fin 2, Fin 2, Fin 2, Fin 2] = Inr (Fin 2) \<and>
   nanmax [Fin 2, Fin 2, Fin 2, Fin 2, Fin 2, Fin 2] = Inr (Fin 2) \<and>
   fdiv (fsub (Fin 2) (Fin 2)) (fsub (Fin 2) (Fin 2)) = NaN"
proof -
  let ?g = "[[Fin 1, Fin 1, Fin 2], [Fin 3, Fin 3, Fin 5]]"
  let ?c = "[[Fin 2, Fin 2, Fin 2], [Fin 2, Fin 2, Fin 2 :: pyfloat]]"
  let ?run = "serve_image demo_libs demo_params demo_dataset_const"
  have mem: "Scale ?g (Fin 1) (Fin 5) \<in> set demo_image_trace"
    by (simp add: demo_image_trace_def)
  have two: "\<exists>u v. u \<in> set (concat ?g) \<and> v \<in> set (concat ?g) \<and> u \<noteq> NaN \<and> v \<noteq> NaN \<and>
      u \<noteq> v"
    by (intro exI[of _ "Fin 1"] exI[of _ "Fin 2"]) simp
  from autoscale_divisor_is_zero_only_for_constant_data[of demo_libs demo_params
      demo_dataset "Inr demo_image_response" demo_dataset demo_image_trace ?g "Fin 1" "Fin 5"]
    demo_image_run mem two
  have a: "fsub (Fin 5) (Fin 1) \<noteq> Fin 0" by blast
  have run: "?run = (fst ?run, fst (snd ?run), snd (snd ?run))" by simp
  have z: "fsub (Fin 2) (Fin 2) = Fin 0" by (simp add: to_double_0)
  from autoscale_divisor_is_zero_only_for_constant_data[of demo_libs demo_params
      demo_dataset_const "fst ?run" "fst (snd ?run)" "snd (snd ?run)" ?c "Fin 2" "Fin 2"]
    run demo_const_run z
  have b: "nanmin (concat ?c) = Inr (Fin 2)" and c: "nanmax (concat ?c) = Inr (Fin 2)"
    and d: "\<forall>v \<in> set (concat ?c). fdiv (fsub v (Fin 2)) (fsub (Fin 2) (Fin 2)) = NaN"
    by blast+
  from d have e: "fdiv (fsub (Fin 2) (Fin 2)) (fsub (Fin 2) (Fin 2)) = NaN" by simp
  from b c have "nanmin [Fin 2, Fin 2, Fin 2, Fin 2, Fin 2, Fin 2] = Inr (Fin 2)"
    "nanmax [Fin 2, Fin 2, Fin 2, Fin 2, Fin 2, Fin 2] = Inr (Fin 2)"
    by simp_all
  with mem a demo_const_run z e show ?thesis by blast
qed


subsection \<open>Colour map and range of the two endpoints\<close>

lemma bnd_ret: "bnd (ret x) f = f x"
  by (simp add: bnd_def ret_def)

lemma emits_bnd_ret: "emits_only P (f x) \<Longrightarrow> emits_only P (bnd (ret x) f)"
  by (simp add: bnd_ret)

lemma five_less_overflow_threshold: "5 < overflow_threshold"
  by (simp add: overflow_threshold_def)

lemma scale_cell_tile:
  "scale_cell (Fin 0) (Fin 5) v = fdiv (fsub v (Fin 0)) (Fin 5)"
  using five_less_overflow_threshold by (simp add: scale_cell_def to_double_in_range)

lemma scale_cell_tile_number:
  assumes "\<bar>a\<bar> < overflow_threshold"
  shows "scale_cell (Fin 0) (Fin 5) (Fin a) = Fin (a / 5)"
proof -
  from assms have "\<bar>a / 5\<bar> < overflow_threshold" by simp
  with assms show ?thesis by (simp add: scale_cell_tile to_double_in_range)
qed

lemma scale_cell_tile_special:
  "scale_cell (Fin 0) (Fin 5) PInf = PInf" "scale_cell (Fin 0) (Fin 5) NInf = NInf"
  "scale_cell (Fin 0) (Fin 5) NaN = NaN"
  by (simp_all add: scale_cell_tile)

lemma get_image_tile_fixed_events:
  "emits_only (\<lambda>ev. (\<forall>n. ev = Get_cmap n \<longrightarrow> n = Some ''rainbow'') \<and>
       (\<forall>g lo hi. ev = Scale g lo hi \<longrightarrow> lo = Fin 0 \<and> hi = Fin 5))
     (get_image_tile L p t z x y n)"
  unfolding get_image_tile_def
  apply (intro emits_bnd_ret emits_intros)
                      apply simp_all
  done

lemma serve_tile_fixed:
  assumes "serve_tile L tp ds = (r, ds', tr)"
  shows "(\<forall>n. Get_cmap n \<in> set tr \<longrightarrow> n = Some ''rainbow'') \<and>
     (\<forall>g lo hi. Scale g lo hi \<in> set tr \<longrightarrow> lo = Fin 0 \<and> hi = Fin 5)"
proof -
  from serve_tile_emits[OF get_image_tile_fixed_events assms]
  have ev: "\<forall>ev \<in> set tr. (\<forall>n. ev = Get_cmap n \<longrightarrow> n = Some ''rainbow'') \<and>
       (\<forall>g lo hi. ev = Scale g lo hi \<longrightarrow> lo = Fin 0 \<and> hi = Fin 5)"
    by (simp add: list_all_iff)
  show ?thesis
  proof (intro conjI allI impI)
    fix n
    assume "Get_cmap n \<in> set tr"
    with ev show "n = Some ''rainbow''" by blast
  next
    fix g lo hi
    assume "Scale g lo hi \<in> set tr"
    with ev have "lo = Fin 0 \<and> hi = Fin 5" by blast
    then show "lo = Fin 0" "hi = Fin 5" by simp_all
  qed
qed

lemma serve_tile_colours:
  assumes "serve_tile L tp ds = (Inr resp, ds', tr)"
  shows "\<exists>r3 rd cm. rio_reproject L r3 ''EPSG:3857'' None Nearest = Inr rd \<and>
     cm_get_cmap L (Some ''rainbow'') = Inr cm \<and>
     Scale (xr_values L rd) (Fin 0) (Fin 5) \<in> set tr \<and>
     Get_cmap (Some ''rainbow'') \<in> set tr \<and>
     Cmap_call (scale_grid (xr_values L rd) (Fin 0) (Fin 5)) \<in> set tr \<and>
     pil_save L (Image_fromarray (map (map (\<lambda>v. uint8_pixel (times255 (cm_call L cm v))))
                    (scale_grid (xr_values L rd) (Fin 0) (Fin 5)))) ''PNG'' =
       Inr (content resp)"
  using assms
proof (rule serve_tile_run)
  fix b lats lons r3 rd cm bytes
  let ?n = "case tp_size tp of None \<Rightarrow> 256 | Some n \<Rightarrow> n"
  let ?g = "scale_grid (xr_values L rd) (Fin 0) (Fin 5)"
  let ?im = "Image_fromarray (map (map (\<lambda>v. uint8_pixel (times255 (cm_call L cm v)))) ?g)"
  assume rp: "rio_reproject L r3 ''EPSG:3857'' None Nearest = Inr rd"
    and cm: "cm_get_cmap L (Some ''rainbow'') = Inr cm"
    and save: "pil_save L ?im ''PNG'' = Inr bytes"
    and resp: "resp = \<lparr>content = bytes, media_type = ''image/png''\<rparr>"
    and tr: "tr = [Rio_crs] @ (if rio_crs L ds = None then [Write_crs 4326] else []) @
       [Cf_sel [(''T'', Label (tp_t tp))], Squeeze, Bounds (tp_x tp) (tp_y tp) (tp_z tp),
        Log_warning b, Linspace (south b) (north b) ?n, Linspace (west b) (east b) ?n,
        Regridder_init \<lparr>lat = lats, lon = lons\<rparr> ''bilinear'', Getitem (tp_parameter tp),
        Regrid, Write_crs 4326, Set_spatial_dims ''lon'' ''lat'',
        Reproject ''EPSG:3857'' None Nearest,
        Scale (xr_values L rd) (Fin 0) (Fin 5), Get_cmap (Some ''rainbow''),
        Cmap_call ?g, Fromarray, Save ?im ''PNG'', Respond ''image/png'']"
  have ev: "Scale (xr_values L rd) (Fin 0) (Fin 5) \<in> set tr"
    "Get_cmap (Some ''rainbow'') \<in> set tr" "Cmap_call ?g \<in> set tr"
    unfolding tr by simp_all
  from save resp have "pil_save L ?im ''PNG'' = Inr (content resp)" by simp
  with rp cm ev show ?thesis by blast
qed

lemma serve_image_colours:
  assumes "serve_image L ps ds = (Inr resp, ds', tr)"
  shows "\<exists>query da rd lo hi cm. depends_image_query L ps = Inr query \<and>
     cmap query = p_cmap ps \<and>
     rio_reproject L da (crs query) (Some (width query, height query)) Bilinear = Inr rd \<and>
     nanmin (concat (xr_values L rd)) = Inr lo \<and>
     nanmax (concat (xr_values L rd)) = Inr hi \<and>
     cm_get_cmap L (if truthy (cmap query) then cmap query else Some ''rainbow'') = Inr cm \<and>
     Get_cmap (if truthy (cmap query) then cmap query else Some ''rainbow'') \<in> set tr \<and>
     (\<forall>n. Get_cmap n \<in> set tr \<longrightarrow>
        n = (if truthy (cmap query) then cmap query else Some ''rainbow'')) \<and>
     Scale (xr_values L rd) lo hi \<in> set tr \<and>
     Cmap_call (scale_grid (xr_values L rd) lo hi) \<in> set tr \<and>
     pil_save L (Image_fromarray (map (map (\<lambda>v. uint8_pixel (times255 (cm_call L cm v))))
                    (scale_grid (xr_values L rd) lo hi))) ''PNG'' = Inr (content resp)"
  using assms
proof (rule serve_image_run)
  fix query :: ImageQuery and xmin ymin xmax ymax mc xc q1 da rd lo hi cm bytes
  let ?g = "scale_grid (xr_values L rd) lo hi"
  let ?im = "Image_fromarray (map (map (\<lambda>v. uint8_pixel (times255 (cm_call L cm v)))) ?g)"
  let ?name = "if truthy (cmap query) then cmap query else Some ''rainbow''"
  assume dep: "depends_image_query L ps = Inr query"
    and rp: "rio_reproject L da (crs query) (Some (width query, height query)) Bilinear = Inr rd"
    and lo: "nanmin (concat (xr_values L rd)) = Inr lo"
    and hi: "nanmax (concat (xr_values L rd)) = Inr hi"
    and cm: "cm_get_cmap L ?name = Inr cm"
    and save: "pil_save L ?im ''PNG'' = Inr bytes"
    and resp: "resp = \<lparr>content = bytes, media_type = ''image/png''\<rparr>"
    and tr: "tr = map Float (split_comma (bbox query)) @
       (if crs query \<noteq> ''EPSG:4326''
        then [From_crs (crs query) ''EPSG:4326'', Transform xmin ymin, Transform xmax ymax]
        else []) @
       [Cf_sel [(''X'', Slice (fst mc) (fst xc)), (''Y'', Slice (snd mc) (snd xc)),
                (''T'', Label (datetime query))], Squeeze, Rio_crs] @
       (if rio_crs L q1 = None then [Write_crs 4326] else []) @
       [Getitem (parameter query),
        Reproject (crs query) (Some (width query, height query)) Bilinear,
        Min_call, Max_call, Scale (xr_values L rd) lo hi, Get_cmap ?name,
        Cmap_call ?g, Fromarray, Save ?im ''PNG'', Respond ''image/png'']"
  have c: "cmap query = p_cmap ps"
    using dep by (auto simp: depends_image_query_def image_query_def ImageQuery_init_def
        split: option.splits sum.splits)
  have 1: "Get_cmap ?name \<in> set tr" unfolding tr by simp
  have 2: "\<forall>n. Get_cmap n \<in> set tr \<longrightarrow> n = ?name"
    unfolding tr by (auto split: if_splits)
  have 3: "Scale (xr_values L rd) lo hi \<in> set tr" "Cmap_call ?g \<in> set tr"
    unfolding tr by simp_all
  from save resp have 4: "pil_save L ?im ''PNG'' = Inr (content resp)" by simp
  from dep c rp lo hi cm 1 2 3 4 show ?thesis by blast
qed

text \<open>
  Claim C8. Whatever the tile request and whatever the libraries do, the only colour map
  the tile handler asks for is \<^verbatim>\<open>'rainbow'\<close> and the only range it scales with is
  \<open>min_value = 0\<close>, \<open>max_value = 5\<close>. A tile request that is answered is answered with
  the picture of the reprojected array, scaled with that range and coloured with the
  colour map matplotlib returns for \<^verbatim>\<open>'rainbow'\<close>; under that range a cell \<open>v\<close> becomes
  \<open>v / 5\<close> (an infinite cell and a NaN cell stay as they are). Nothing of this depends
  on the request. A request to the bounding-box endpoint that is answered is instead
  answered with the picture of the resampled array scaled with its own minimum and
  maximum and coloured with the colour map named by the \<^verbatim>\<open>cmap\<close> parameter of the
  request, or with \<^verbatim>\<open>'rainbow'\<close> when the parameter is absent (or empty).
\<close>

theorem tile_colour_map_and_range_are_fixed:
  "(serve_tile L tp ds = (r, ds', tr) \<longrightarrow>
      (\<forall>n. Get_cmap n \<in> set tr \<longrightarrow> n = Some ''rainbow'') \<and>
      (\<forall>g lo hi. Scale g lo hi \<in> set tr \<longrightarrow> lo = Fin 0 \<and> hi = Fin 5) \<and>
      (\<forall>resp. r = Inr resp \<longrightarrow>
         (\<exists>r3 rd cm. rio_reproject L r3 ''EPSG:3857'' None Nearest = Inr rd \<and>
            cm_get_cmap L (Some ''rainbow'') = Inr cm \<and>
            Scale (xr_values L rd) (Fin 0) (Fin 5) \<in> set tr \<and>
            Get_cmap (Some ''rainbow'') \<in> set tr \<and>
            Cmap_call (scale_grid (xr_values L rd) (Fin 0) (Fin 5)) \<in> set tr \<and>
            pil_save L (Image_fromarray
                (map (map (\<lambda>v. uint8_pixel (times255 (cm_call L cm v))))
                   (scale_grid (xr_values L rd) (Fin 0) (Fin 5)))) ''PNG'' =
              Inr (content resp)))) \<and>
   scale_grid g (Fin 0) (Fin 5) = map (map (\<lambda>v. fdiv (fsub v (Fin 0)) (Fin 5))) g \<and>
   (\<bar>a\<bar> < overflow_threshold \<longrightarrow> scale_cell (Fin 0) (Fin 5) (Fin a) = Fin (a / 5)) \<and>
   scale_cell (Fin 0) (Fin 5) PInf = PInf \<and> scale_cell (Fin 0) (Fin 5) NInf = NInf \<and>
   scale_cell (Fin 0) (Fin 5) NaN = NaN \<and>
   (serve_image L ps ds = (Inr resp', ds'', tr') \<longrightarrow>
      (\<exists>query da rd lo hi cm. depends_image_query L ps = Inr query \<and>
         cmap query = p_cmap ps \<and>
         rio_reproject L da (crs query) (Some (width query, height query)) Bilinear =
           Inr rd \<and>
         nanmin (concat (xr_values L rd)) = Inr lo \<and>
         nanmax (concat (xr_values L rd)) = Inr hi \<and>
         cm_get_cmap L (if truthy (cmap query) then cmap query else Some ''rainbow'') =
           Inr cm \<and>
         Get_cmap (if truthy (cmap query) then cmap query else Some ''rainbow'') \<in> set tr' \<and>
         (\<forall>n. Get_cmap n \<in> set tr' \<longrightarrow>
            n = (if truthy (cmap query) then cmap query else Some ''rainbow'')) \<and>
         Scale (xr_values L rd) lo hi \<in> set tr' \<and>
         Cmap_call (scale_grid (xr_values L rd) lo hi) \<in> set tr' \<and>
         pil_save L (Image_fromarray
             (map (map (\<lambda>v. uint8_pixel (times255 (cm_call L cm v))))
                (scale_grid (xr_values L rd) lo hi))) ''PNG'' = Inr (content resp'))) \<and>
   truthy None = False \<and> truthy (Some []) = False"
proof (intro conjI impI)
  assume run: "serve_tile L tp ds = (r, ds', tr)"
  note fixed = serve_tile_fixed[OF run]
  show "\<forall>n. Get_cmap n \<in> set tr \<longrightarrow> n = Some ''rainbow''"
    using fixed by (rule conjunct1)
  show "\<forall>g lo hi. Scale g lo hi \<in> set tr \<longrightarrow> lo = Fin 0 \<and> hi = Fin 5"
    using fixed by (rule conjunct2)
  show "\<forall>resp. r = Inr resp \<longrightarrow>
         (\<exists>r3 rd cm. rio_reproject L r3 ''EPSG:3857'' None Nearest = Inr rd \<and>
            cm_get_cmap L (Some ''rainbow'') = Inr cm \<and>
            Scale (xr_values L rd) (Fin 0) (Fin 5) \<in> set tr \<and>
            Get_cmap (Some ''rainbow'') \<in> set tr \<and>
            Cmap_call (scale_grid (xr_values L rd) (Fin 0) (Fin 5)) \<in> set tr \<and>
            pil_save L (Image_fromarray
                (map (map (\<lambda>v. uint8_pixel (times255 (cm_call L cm v))))
                   (scale_grid (xr_values L rd) (Fin 0) (Fin 5)))) ''PNG'' =
              Inr (content resp))"
  proof (intro allI impI)
    fix resp
    assume "r = Inr resp"
    with run have "serve_tile L tp ds = (Inr resp, ds', tr)" by simp
    then show "\<exists>r3 rd cm. rio_reproject L r3 ''EPSG:3857'' None Nearest = Inr rd \<and>
            cm_get_cmap L (Some ''rainbow'') = Inr cm \<and>
            Scale (xr_values L rd) (Fin 0) (Fin 5) \<in> set tr \<and>
            Get_cmap (Some ''rainbow'') \<in> set tr \<and>
            Cmap_call (scale_grid (xr_values L rd) (Fin 0) (Fin 5)) \<in> set tr \<and>
            pil_save L (Image_fromarray
                (map (map (\<lambda>v. uint8_pixel (times255 (cm_call L cm v))))
                   (scale_grid (xr_values L rd) (Fin 0) (Fin 5)))) ''PNG'' =
              Inr (content resp)"
      by (rule serve_tile_colours)
  qed
next
  show "scale_grid g (Fin 0) (Fin 5) = map (map (\<lambda>v. fdiv (fsub v (Fin 0)) (Fin 5))) g"
    by (simp add: scale_grid_def scale_cell_tile)
next
  assume "\<bar>a\<bar> < overflow_threshold"
  then show "scale_cell (Fin 0) (Fin 5) (Fin a) = Fin (a / 5)"
    by (rule scale_cell_tile_number)
next
  show "scale_cell (Fin 0) (Fin 5) PInf = PInf" "scale_cell (Fin 0) (Fin 5) NInf = NInf"
    "scale_cell (Fin 0) (Fin 5) NaN = NaN"
    by (rule scale_cell_tile_special)+
next
  assume "serve_image L ps ds = (Inr resp', ds'', tr')"
  then show "\<exists>query da rd lo hi cm. depends_image_query L ps = Inr query \<and>
         cmap query = p_cmap ps \<and>
         rio_reproject L da (crs query) (Some (width query, height query)) Bilinear =
           Inr rd \<and>
         nanmin (concat (xr_values L rd)) = Inr lo \<and>
         nanmax (concat (xr_values L rd)) = Inr hi \<and>
         cm_get_cmap L (if truthy (cmap query) then cmap query else Some ''rainbow'') =
           Inr cm \<and>
         Get_cmap (if truthy (cmap query) then cmap query else Some ''rainbow'') \<in> set tr' \<and>
         (\<forall>n. Get_cmap n \<in> set tr' \<longrightarrow>
            n = (if truthy (cmap query) then cmap query else Some ''rainbow'')) \<and>
         Scale (xr_values L rd) lo hi \<in> set tr' \<and>
         Cmap_call (scale_grid (xr_values L rd) lo hi) \<in> set tr' \<and>
         pil_save L (Image_fromarray
             (map (map (\<lambda>v. uint8_pixel (times255 (cm_call L cm v))))
                (scale_grid (xr_values L rd) lo hi))) ''PNG'' = Inr (content resp')"
    by (rule serve_image_colours)
next
  show "truthy None = False" "truthy (Some []) = False"
    by (simp_all add: truthy_def)
qed

theorem tile_colour_map_and_range_are_fixed_witness:
  "serve_tile demo_libs demo_tile demo_dataset =
     (Inr demo_tile_response, demo_dataset, demo_tile_trace) \<and>
   Scale [[Fin 1, Fin 2], [Fin 3, Fin 5]] (Fin 0) (Fin 5) \<in> set demo_tile_trace \<and>
   Get_cmap (Some ''rainbow'') \<in> set demo_tile_trace \<and>
   scale_cell (Fin 0) (Fin 5) (Fin 3) = Fin (3 / 5) \<and>
   (\<exists>rd cm. cm_get_cmap demo_libs (Some ''rainbow'') = Inr cm \<and>
      pil_save demo_libs (Image_fromarray
          (map (map (\<lambda>v. uint8_pixel (times255 (cm_call demo_libs cm v))))
             (scale_grid (xr_values demo_libs rd) (Fin 0) (Fin 5)))) ''PNG'' =
        Inr (content demo_tile_response)) \<and>
   serve_image demo_libs demo_params demo_dataset =
     (Inr demo_image_response, demo_dataset, demo_image_trace) \<and>
   Get_cmap (Some ''rainbow'') \<in> set demo_image_trace"
proof -
  let ?g = "[[Fin 1, Fin 2], [Fin 3, Fin 5]]"
  have m1: "Scale ?g (Fin 0) (Fin 5) \<in> set demo_tile_trace"
    and m2: "Get_cmap (Some ''rainbow'') \<in> set demo_tile_trace"
    and m3: "Get_cmap (Some ''rainbow'') \<in> set demo_image_trace"
    by (simp_all add: demo_tile_trace_def demo_image_trace_def)
  have small: "\<bar>3 :: real\<bar> < overflow_threshold"
    by (simp add: overflow_threshold_def)
  note inst = tile_colour_map_and_range_are_fixed[of demo_libs demo_tile demo_dataset
      "Inr demo_tile_response" demo_dataset demo_tile_trace ?g 3 demo_params
      demo_image_response demo_dataset demo_image_trace]
  note t = inst[THEN conjunct1, THEN mp, OF demo_tile_run]
  note c = inst[THEN conjunct2, THEN conjunct2, THEN conjunct1, THEN mp, OF small]
  from t[THEN conjunct2, THEN conjunct2, rule_format, OF refl]
  have e: "\<exists>rd cm. cm_get_cmap demo_libs (Some ''rainbow'') = Inr cm \<and>
      pil_save demo_libs (Image_fromarray
          (map (map (\<lambda>v. uint8_pixel (times255 (cm_call demo_libs cm v))))
             (scale_grid (xr_values demo_libs rd) (Fin 0) (Fin 5)))) ''PNG'' =
        Inr (content demo_tile_response)"
    by blast
  from demo_tile_run m1 m2 c e demo_image_run m3 show ?thesis by (intro conjI)
qed

subsection \<open>The output grid of the tile endpoint\<close>

lemma linspace_Inr:
  assumes "linspace a b n = Inr xs"
  shows "0 \<le> n \<and> length xs = nat n \<and>
     (\<forall>i. Suc i < nat n \<longrightarrow> xs ! Suc i - xs ! i = (b - a) / (real_of_int n - 1)) \<and>
     (1 \<le> n \<longrightarrow> hd xs = a) \<and> (2 \<le> n \<longrightarrow> last xs = b)"
proof -
  from assms have n0: "0 \<le> n" by (auto simp: linspace_def split: if_splits)
  show ?thesis
  proof (cases "n = 1")
    case True
    with assms have "xs = [a]" by (simp add: linspace_def)
    with True show ?thesis by simp
  next
    case False
    let ?step = "(b - a) / real (nat n - 1)"
    from assms False n0
    have xs: "xs = map (\<lambda>i. a + real i * ?step) [0..<nat n]"
      by (auto simp: linspace_def split: if_splits)
    have len: "length xs = nat n" by (simp add: xs)
    have nth: "xs ! i = a + real i * ?step" if "i < nat n" for i
      using that by (simp add: xs)
    have r: "real (nat n - 1) = real_of_int n - 1" if "1 \<le> n"
      using that by (simp add: of_nat_diff)
    have diff: "xs ! Suc i - xs ! i = (b - a) / (real_of_int n - 1)" if "Suc i < nat n" for i
    proof -
      from that have "1 \<le> n" by linarith
      from nth[of i] nth[of "Suc i"] that
      have "xs ! Suc i - xs ! i = (a + real (Suc i) * ?step) - (a + real i * ?step)"
        by simp
      also have "\<dots> = ?step"
      proof -
        have "(a + real (Suc i) * s) - (a + real i * s) = s" for s :: real
          by (simp add: algebra_simps)
        then show ?thesis .
      qed
      also have "\<dots> = (b - a) / (real_of_int n - 1)" using r[OF \<open>1 \<le> n\<close>] by simp
      finally show ?thesis .
    qed
    have first: "hd xs = a" if "1 \<le> n"
    proof -
      from that have "0 < nat n" by simp
      then have "xs \<noteq> []" using len by auto
      then have "hd xs = xs ! 0" by (simp add: hd_conv_nth)
      also have "\<dots> = a" using nth[of 0] \<open>0 < nat n\<close> by simp
      finally show ?thesis .
    qed
    have final: "last xs = b" if "2 \<le> n"
    proof -
      from that have pos: "0 < nat n" and n1: "1 \<le> n" by simp_all
      then have "xs \<noteq> []" using len by auto
      then have "last xs = xs ! (nat n - 1)" by (simp add: last_conv_nth len)
      also have "\<dots> = a + real (nat n - 1) * ?step" using nth[of "nat n - 1"] pos by simp
      also have "\<dots> = b" using that r[OF n1] by simp
      finally show ?thesis .
    qed
    from n0 len diff first final show ?thesis by blast
  qed
qed

lemma linspace_negative: "n < 0 \<Longrightarrow> linspace a b n = Inl ValueError"
  by (simp add: linspace_def)

lemma linspace_total: "0 \<le> n \<Longrightarrow> \<exists>xs. linspace a b n = Inr xs"
  by (simp add: linspace_def)


lemma get_image_tile_grid_events:
  "emits_only (\<lambda>ev. \<forall>g m. ev = Regridder_init g m \<longrightarrow> m = ''bilinear'' \<and>
       (\<exists>b. mercantile_bounds L x y z = Inr b \<and>
          linspace (south b) (north b) n = Inr (lat g) \<and>
          linspace (west b) (east b) n = Inr (lon g)))
     (get_image_tile L p t z x y n)"
  unfolding get_image_tile_def
  apply (intro emits_bnd_ret emits_intros)
                      apply simp_all
  done

lemma serve_tile_grid:
  assumes "serve_tile L tp ds = (r, ds', tr)" and "Regridder_init g m \<in> set tr"
  shows "m = ''bilinear'' \<and>
     (\<exists>b. mercantile_bounds L (tp_x tp) (tp_y tp) (tp_z tp) = Inr b \<and>
        linspace (south b) (north b) (case tp_size tp of None \<Rightarrow> 256 | Some k \<Rightarrow> k)
          = Inr (lat g) \<and>
        linspace (west b) (east b) (case tp_size tp of None \<Rightarrow> 256 | Some k \<Rightarrow> k)
          = Inr (lon g))"
  using serve_tile_emits[OF get_image_tile_grid_events assms(1)] assms(2)
  by (simp add: list_all_iff)

lemma bnd_call_Inr: "bnd (call ev (Inr x)) f w = f x (w\<lparr>trace := trace w @ [ev]\<rparr>)"
  by (simp add: bnd_def call_def emit_def ret_def)

lemma bnd_emit: "bnd (emit ev) f w = f () (w\<lparr>trace := trace w @ [ev]\<rparr>)"
  by (simp add: bnd_def emit_def)

lemma bnd_get_dataset: "bnd get_dataset f w = f (dataset_obj w) w"
  by (simp add: bnd_def get_dataset_def)

lemma bnd_get_request: "bnd get_request f w = f (request_obj w) w"
  by (simp add: bnd_def get_request_def)

lemma call_event_stays:
  assumes "\<And>x. emits_only (\<lambda>ev. True) (f x)"
  shows "ev \<in> set (trace (snd (bnd (call ev r) f w)))"
proof (cases r)
  case (Inl e)
  then show ?thesis by (simp add: bnd_def call_def emit_def raise_def)
next
  case (Inr x)
  let ?w = "w\<lparr>trace := trace w @ [ev]\<rparr>"
  from assms[of x] obtain es where "trace (snd (f x ?w)) = trace ?w @ es"
    by (auto simp: emits_only_def dest: spec[of _ ?w])
  then show ?thesis using Inr by (simp add: bnd_call_Inr)
qed


lemma stays_call:
  "r = Inr x \<Longrightarrow> (\<And>w'. ev \<in> set (trace (snd (f x w')))) \<Longrightarrow>
     ev \<in> set (trace (snd (bnd (call ev' r) f w)))"
  by (simp add: bnd_call_Inr)

lemma stays_emit:
  "(\<And>w'. ev \<in> set (trace (snd (f () w')))) \<Longrightarrow> ev \<in> set (trace (snd (bnd (emit ev') f w)))"
  by (simp add: bnd_emit)

lemma stays_ret:
  "(\<And>w'. ev \<in> set (trace (snd (f x w')))) \<Longrightarrow> ev \<in> set (trace (snd (bnd (ret x) f w)))"
  by (simp add: bnd_ret)

lemma stays_get_dataset:
  "ev \<in> set (trace (snd (f (dataset_obj w) w))) \<Longrightarrow>
     ev \<in> set (trace (snd (bnd get_dataset f w)))"
  by (simp add: bnd_get_dataset)

text \<open>
  When the calls before line 104 return, the tile handler calls \<^verbatim>\<open>xe.Regridder\<close> with the
  grid of the two \<^verbatim>\<open>np.linspace\<close> arrays, whatever happens afterwards.
\<close>

lemma get_image_tile_builds_grid:
  assumes crs: "if rio_crs L (dataset_obj w) = None
      then rio_write_crs L (dataset_obj w) 4326 = Inr ds1 else ds1 = dataset_obj w"
    and sel: "cf_sel L ds1 [(''T'', Label t)] = Inr q0"
    and sq: "xr_squeeze L q0 = Inr q"
    and bd: "mercantile_bounds L x y z = Inr b"
    and lats: "linspace (south b) (north b) n = Inr lats"
    and lons: "linspace (west b) (east b) n = Inr lons"
  shows "Regridder_init \<lparr>lat = lats, lon = lons\<rparr> ''bilinear''
     \<in> set (trace (snd (get_image_tile L p t z x y n w)))"
proof (cases "rio_crs L (dataset_obj w) = None")
  case True
  with crs have wr: "rio_write_crs L (dataset_obj w) 4326 = Inr ds1" by simp
  show ?thesis
    unfolding get_image_tile_def
    apply (rule stays_get_dataset)
    apply (rule stays_call[OF refl])
    apply (subst if_P[OF True])
    apply (rule stays_call[OF wr])
    apply (rule stays_call[OF sel])
    apply (rule stays_call[OF sq])
    apply (rule stays_call[OF bd])
    apply (rule stays_emit)
    apply (rule stays_call[OF lats])
    apply (rule stays_call[OF lons])
    apply (rule stays_ret)
    apply (rule call_event_stays)
    apply (intro emits_bnd_ret emits_intros TrueI)
    done
next
  case False
  with crs have ds1: "ds1 = dataset_obj w" by simp
  show ?thesis
    unfolding get_image_tile_def
    apply (rule stays_get_dataset)
    apply (rule stays_call[OF refl])
    apply (subst if_not_P[OF False])
    apply (rule stays_ret)
    apply (rule stays_call[OF sel[unfolded ds1]])
    apply (rule stays_call[OF sq])
    apply (rule stays_call[OF bd])
    apply (rule stays_emit)
    apply (rule stays_call[OF lats])
    apply (rule stays_call[OF lons])
    apply (rule stays_ret)
    apply (rule call_event_stays)
    apply (intro emits_bnd_ret emits_intros TrueI)
    done
qed

lemma serve_tile_builds_grid:
  assumes run: "serve_tile L tp ds = (r, ds', tr)"
    and crs: "if rio_crs L ds = None then rio_write_crs L ds 4326 = Inr ds1 else ds1 = ds"
    and sel: "cf_sel L ds1 [(''T'', Label (tp_t tp))] = Inr q0"
    and sq: "xr_squeeze L q0 = Inr q"
    and bd: "mercantile_bounds L (tp_x tp) (tp_y tp) (tp_z tp) = Inr b"
    and n: "0 \<le> (case tp_size tp of None \<Rightarrow> 256 | Some k \<Rightarrow> k)"
  shows "\<exists>lats lons.
     linspace (south b) (north b) (case tp_size tp of None \<Rightarrow> 256 | Some k \<Rightarrow> k) = Inr lats \<and>
     linspace (west b) (east b) (case tp_size tp of None \<Rightarrow> 256 | Some k \<Rightarrow> k) = Inr lons \<and>
     Regridder_init \<lparr>lat = lats, lon = lons\<rparr> ''bilinear'' \<in> set tr"
proof -
  let ?n = "case tp_size tp of None \<Rightarrow> 256 | Some k \<Rightarrow> k"
  let ?w = "\<lparr>request_obj = (), dataset_obj = ds, trace = []\<rparr>"
  from linspace_total[OF n] obtain lats where lats: "linspace (south b) (north b) ?n = Inr lats"
    by blast
  from linspace_total[OF n] obtain lons where lons: "linspace (west b) (east b) ?n = Inr lons"
    by blast
  from crs have crs': "if rio_crs L (dataset_obj ?w) = None
      then rio_write_crs L (dataset_obj ?w) 4326 = Inr ds1 else ds1 = dataset_obj ?w"
    by simp
  from get_image_tile_builds_grid[OF crs' sel sq bd lats lons, of "tp_parameter tp"]
  have "Regridder_init \<lparr>lat = lats, lon = lons\<rparr> ''bilinear'' \<in>
      set (trace (snd (get_image_tile L (tp_parameter tp) (tp_t tp) (tp_z tp) (tp_x tp)
        (tp_y tp) ?n ?w)))" .
  moreover from run have "tr = trace (snd (get_image_tile L (tp_parameter tp) (tp_t tp)
      (tp_z tp) (tp_x tp) (tp_y tp) ?n ?w))"
    by (auto simp: serve_tile_def split: prod.splits)
  ultimately show ?thesis using lats lons by blast
qed

lemma serve_tile_grid_shape:
  assumes run: "serve_tile L tp ds = (r, ds', tr)" and ev: "Regridder_init g m \<in> set tr"
    and n: "n = (case tp_size tp of None \<Rightarrow> 256 | Some k \<Rightarrow> k)"
  shows "m = ''bilinear'' \<and> 0 \<le> n \<and>
     (\<exists>b. mercantile_bounds L (tp_x tp) (tp_y tp) (tp_z tp) = Inr b \<and>
        linspace (south b) (north b) n = Inr (lat g) \<and>
        linspace (west b) (east b) n = Inr (lon g) \<and>
        length (lat g) = nat n \<and> length (lon g) = nat n \<and>
        (\<forall>i. Suc i < nat n \<longrightarrow>
           lat g ! Suc i - lat g ! i = (north b - south b) / (real_of_int n - 1)) \<and>
        (\<forall>i. Suc i < nat n \<longrightarrow>
           lon g ! Suc i - lon g ! i = (east b - west b) / (real_of_int n - 1)) \<and>
        (1 \<le> n \<longrightarrow> hd (lat g) = south b \<and> hd (lon g) = west b) \<and>
        (2 \<le> n \<longrightarrow> last (lat g) = north b \<and> last (lon g) = east b))"
proof -
  from serve_tile_grid[OF run ev] obtain b where m: "m = ''bilinear''"
    and b: "mercantile_bounds L (tp_x tp) (tp_y tp) (tp_z tp) = Inr b"
    and la: "linspace (south b) (north b) n = Inr (lat g)"
    and lo: "linspace (west b) (east b) n = Inr (lon g)"
    unfolding n by blast
  from linspace_Inr[OF la] linspace_Inr[OF lo] m b la lo show ?thesis by blast
qed

lemma serve_tile_negative_size:
  assumes run: "serve_tile L tp ds = (r, ds', tr)"
    and n: "(case tp_size tp of None \<Rightarrow> 256 | Some k \<Rightarrow> k) < 0"
  shows "(\<forall>resp. r \<noteq> Inr resp) \<and> (\<forall>g m. Regridder_init g m \<notin> set tr)"
proof -
  have no: "Regridder_init g m \<notin> set tr" for g m
  proof
    assume "Regridder_init g m \<in> set tr"
    from serve_tile_grid_shape[OF run this refl] n show False by simp
  qed
  have "r \<noteq> Inr resp" for resp
  proof
    assume "r = Inr resp"
    with run have "serve_tile L tp ds = (Inr resp, ds', tr)" by simp
    then have "\<exists>g m. Regridder_init g m \<in> set tr"
    proof (rule serve_tile_run)
      fix b lats lons rd cm
      let ?n = "case tp_size tp of None \<Rightarrow> 256 | Some n \<Rightarrow> n"
      let ?g = "scale_grid (xr_values L rd) (Fin 0) (Fin 5)"
      let ?im = "Image_fromarray (map (map (\<lambda>v. uint8_pixel (times255 (cm_call L cm v)))) ?g)"
      assume tr: "tr = [Rio_crs] @ (if rio_crs L ds = None then [Write_crs 4326] else []) @
         [Cf_sel [(''T'', Label (tp_t tp))], Squeeze, Bounds (tp_x tp) (tp_y tp) (tp_z tp),
          Log_warning b, Linspace (south b) (north b) ?n, Linspace (west b) (east b) ?n,
          Regridder_init \<lparr>lat = lats, lon = lons\<rparr> ''bilinear'', Getitem (tp_parameter tp),
          Regrid, Write_crs 4326, Set_spatial_dims ''lon'' ''lat'',
          Reproject ''EPSG:3857'' None Nearest,
          Scale (xr_values L rd) (Fin 0) (Fin 5), Get_cmap (Some ''rainbow''),
          Cmap_call ?g, Fromarray, Save ?im ''PNG'', Respond ''image/png'']"
      have "Regridder_init \<lparr>lat = lats, lon = lons\<rparr> ''bilinear'' \<in> set tr"
        unfolding tr by simp
      then show ?thesis by blast
    qed
    with no show False by blast
  qed
  with no show ?thesis by blast
qed

lemma serve_tile_answer_from_grid:
  assumes "serve_tile L tp ds = (Inr resp, ds', tr)"
  shows "\<exists>ds1 q0 q b lats lons rg da r1 r2 r3 rd cm.
     (if rio_crs L ds = None then rio_write_crs L ds 4326 = Inr ds1 else ds1 = ds) \<and>
     cf_sel L ds1 [(''T'', Label (tp_t tp))] = Inr q0 \<and>
     xr_squeeze L q0 = Inr q \<and>
     mercantile_bounds L (tp_x tp) (tp_y tp) (tp_z tp) = Inr b \<and>
     linspace (south b) (north b) (case tp_size tp of None \<Rightarrow> 256 | Some k \<Rightarrow> k) = Inr lats \<and>
     linspace (west b) (east b) (case tp_size tp of None \<Rightarrow> 256 | Some k \<Rightarrow> k) = Inr lons \<and>
     Regridder_init \<lparr>lat = lats, lon = lons\<rparr> ''bilinear'' \<in> set tr \<and>
     xe_Regridder L q \<lparr>lat = lats, lon = lons\<rparr> ''bilinear'' = Inr rg \<and>
     xr_getitem L q (tp_parameter tp) = Inr da \<and>
     xe_regrid L rg da = Inr r1 \<and>
     da_write_crs L r1 4326 = Inr r2 \<and>
     da_set_spatial_dims L r2 ''lon'' ''lat'' = Inr r3 \<and>
     rio_reproject L r3 ''EPSG:3857'' None Nearest = Inr rd \<and>
     cm_get_cmap L (Some ''rainbow'') = Inr cm \<and>
     pil_save L (Image_fromarray (map (map (\<lambda>v. uint8_pixel (times255 (cm_call L cm v))))
                    (scale_grid (xr_values L rd) (Fin 0) (Fin 5)))) ''PNG'' =
       Inr (content resp)"
  using assms
proof (rule serve_tile_run)
  fix ds1 q0 q b lats lons rg da r1 r2 r3 rd cm bytes
  let ?n = "case tp_size tp of None \<Rightarrow> 256 | Some n \<Rightarrow> n"
  let ?g = "scale_grid (xr_values L rd) (Fin 0) (Fin 5)"
  let ?im = "Image_fromarray (map (map (\<lambda>v. uint8_pixel (times255 (cm_call L cm v)))) ?g)"
  assume 1: "if rio_crs L ds = None then rio_write_crs L ds 4326 = Inr ds1 else ds1 = ds"
    and 2: "cf_sel L ds1 [(''T'', Label (tp_t tp))] = Inr q0"
    and 3: "xr_squeeze L q0 = Inr q"
    and 4: "mercantile_bounds L (tp_x tp) (tp_y tp) (tp_z tp) = Inr b"
    and 5: "linspace (south b) (north b) ?n = Inr lats"
    and 6: "linspace (west b) (east b) ?n = Inr lons"
    and 7: "xe_Regridder L q \<lparr>lat = lats, lon = lons\<rparr> ''bilinear'' = Inr rg"
    and 8: "xr_getitem L q (tp_parameter tp) = Inr da"
    and 9: "xe_regrid L rg da = Inr r1"
    and 10: "da_write_crs L r1 4326 = Inr r2"
    and 11: "da_set_spatial_dims L r2 ''lon'' ''lat'' = Inr r3"
    and 12: "rio_reproject L r3 ''EPSG:3857'' None Nearest = Inr rd"
    and 13: "cm_get_cmap L (Some ''rainbow'') = Inr cm"
    and save: "pil_save L ?im ''PNG'' = Inr bytes"
    and resp: "resp = \<lparr>content = bytes, media_type = ''image/png''\<rparr>"
    and tr: "tr = [Rio_crs] @ (if rio_crs L ds = None then [Write_crs 4326] else []) @
       [Cf_sel [(''T'', Label (tp_t tp))], Squeeze, Bounds (tp_x tp) (tp_y tp) (tp_z tp),
        Log_warning b, Linspace (south b) (north b) ?n, Linspace (west b) (east b) ?n,
        Regridder_init \<lparr>lat = lats, lon = lons\<rparr> ''bilinear'', Getitem (tp_parameter tp),
        Regrid, Write_crs 4326, Set_spatial_dims ''lon'' ''lat'',
        Reproject ''EPSG:3857'' None Nearest,
        Scale (xr_values L rd) (Fin 0) (Fin 5), Get_cmap (Some ''rainbow''),
        Cmap_call ?g, Fromarray, Save ?im ''PNG'', Respond ''image/png'']"
  have ev: "Regridder_init \<lparr>lat = lats, lon = lons\<rparr> ''bilinear'' \<in> set tr"
    unfolding tr by simp
  from save resp have 14: "pil_save L ?im ''PNG'' = Inr (content resp)" by simp
  from 1 2 3 4 5 6 ev 7 8 9 10 11 12 13 14 show ?thesis by blast
qed

text \<open>
  Claim C7, as amended. In every tile request the grid passed to \<^verbatim>\<open>xe.Regridder\<close>, when
  one is passed, is the one of lines 104 to 107: with \<open>b\<close> the bounds mercantile returns
  for the tile \<open>(x, y, z)\<close> and \<open>n\<close> the parameter \<^verbatim>\<open>size\<close>, 256 when the request has
  none, its latitudes are \<^verbatim>\<open>np.linspace(b.south, b.north, n)\<close> and its longitudes
  \<^verbatim>\<open>np.linspace(b.west, b.east, n)\<close>: \<open>n\<close> values each, evenly spaced, the first one the
  south (west) bound when there is one, the last one the north (east) bound when there
  are two or more. The grid is built and passed whenever the size is not negative and
  the calls before it (CRS tag, selection of the time, squeeze, bounds) return, and a
  request that is answered is answered with the picture of the data regridded onto it.
  With a negative size \<^verbatim>\<open>np.linspace\<close> raises: no grid is built and the request is not
  answered.
\<close>

theorem tile_grid_is_linspace_of_tile_bounds:
  "serve_tile L tp ds = (r, ds', tr) \<and>
   n = (case tp_size tp of None \<Rightarrow> 256 | Some k \<Rightarrow> k) \<longrightarrow>
     (\<forall>g m. Regridder_init g m \<in> set tr \<longrightarrow>
        m = ''bilinear'' \<and> 0 \<le> n \<and>
        (\<exists>b. mercantile_bounds L (tp_x tp) (tp_y tp) (tp_z tp) = Inr b \<and>
           linspace (south b) (north b) n = Inr (lat g) \<and>
           linspace (west b) (east b) n = Inr (lon g) \<and>
           length (lat g) = nat n \<and> length (lon g) = nat n \<and>
           (\<forall>i. Suc i < nat n \<longrightarrow>
              lat g ! Suc i - lat g ! i = (north b - south b) / (real_of_int n - 1)) \<and>
           (\<forall>i. Suc i < nat n \<longrightarrow>
              lon g ! Suc i - lon g ! i = (east b - west b) / (real_of_int n - 1)) \<and>
           (1 \<le> n \<longrightarrow> hd (lat g) = south b \<and> hd (lon g) = west b) \<and>
           (2 \<le> n \<longrightarrow> last (lat g) = north b \<and> last (lon g) = east b))) \<and>
     ((if rio_crs L ds = None then rio_write_crs L ds 4326 = Inr ds1 else ds1 = ds) \<and>
      cf_sel L ds1 [(''T'', Label (tp_t tp))] = Inr q0 \<and> xr_squeeze L q0 = Inr q \<and>
      mercantile_bounds L (tp_x tp) (tp_y tp) (tp_z tp) = Inr b \<and> 0 \<le> n \<longrightarrow>
        (\<exists>lats lons. linspace (south b) (north b) n = Inr lats \<and>
           linspace (west b) (east b) n = Inr lons \<and>
           Regridder_init \<lparr>lat = lats, lon = lons\<rparr> ''bilinear'' \<in> set tr)) \<and>
     (\<forall>resp. r = Inr resp \<longrightarrow>
        (\<exists>ds1 q0 q b lats lons rg da r1 r2 r3 rd cm.
           (if rio_crs L ds = None then rio_write_crs L ds 4326 = Inr ds1 else ds1 = ds) \<and>
           cf_sel L ds1 [(''T'', Label (tp_t tp))] = Inr q0 \<and>
           xr_squeeze L q0 = Inr q \<and>
           mercantile_bounds L (tp_x tp) (tp_y tp) (tp_z tp) = Inr b \<and>
           linspace (south b) (north b) n = Inr lats \<and>
           linspace (west b) (east b) n = Inr lons \<and>
           Regridder_init \<lparr>lat = lats, lon = lons\<rparr> ''bilinear'' \<in> set tr \<and>
           xe_Regridder L q \<lparr>lat = lats, lon = lons\<rparr> ''bilinear'' = Inr rg \<and>
           xr_getitem L q (tp_parameter tp) = Inr da \<and>
           xe_regrid L rg da = Inr r1 \<and>
           da_write_crs L r1 4326 = Inr r2 \<and>
           da_set_spatial_dims L r2 ''lon'' ''lat'' = Inr r3 \<and>
           rio_reproject L r3 ''EPSG:3857'' None Nearest = Inr rd \<and>
           cm_get_cmap L (Some ''rainbow'') = Inr cm \<and>
           pil_save L (Image_fromarray
               (map (map (\<lambda>v. uint8_pixel (times255 (cm_call L cm v))))
                  (scale_grid (xr_values L rd) (Fin 0) (Fin 5)))) ''PNG'' =
             Inr (content resp))) \<and>
     (n < 0 \<longrightarrow> (\<forall>resp. r \<noteq> Inr resp) \<and> (\<forall>g m. Regridder_init g m \<notin> set tr))"
proof (intro impI, elim conjE, intro conjI allI impI)
  assume run: "serve_tile L tp ds = (r, ds', tr)"
    and n: "n = (case tp_size tp of None \<Rightarrow> 256 | Some k \<Rightarrow> k)"
  {
    fix g m
    assume ev: "Regridder_init g m \<in> set tr"
    note shape = serve_tile_grid_shape[OF run ev n]
    from shape show "m = ''bilinear''" by (rule conjunct1)
    from shape show "0 \<le> n" by (rule conjunct1[OF conjunct2])
    from shape show "\<exists>b. mercantile_bounds L (tp_x tp) (tp_y tp) (tp_z tp) = Inr b \<and>
           linspace (south b) (north b) n = Inr (lat g) \<and>
           linspace (west b) (east b) n = Inr (lon g) \<and>
           length (lat g) = nat n \<and> length (lon g) = nat n \<and>
           (\<forall>i. Suc i < nat n \<longrightarrow>
              lat g ! Suc i - lat g ! i = (north b - south b) / (real_of_int n - 1)) \<and>
           (\<forall>i. Suc i < nat n \<longrightarrow>
              lon g ! Suc i - lon g ! i = (east b - west b) / (real_of_int n - 1)) \<and>
           (1 \<le> n \<longrightarrow> hd (lat g) = south b \<and> hd (lon g) = west b) \<and>
           (2 \<le> n \<longrightarrow> last (lat g) = north b \<and> last (lon g) = east b)"
      by (rule conjunct2[OF conjunct2])
  }
  {
    assume h: "(if rio_crs L ds = None then rio_write_crs L ds 4326 = Inr ds1 else ds1 = ds) \<and>
      cf_sel L ds1 [(''T'', Label (tp_t tp))] = Inr q0 \<and> xr_squeeze L q0 = Inr q \<and>
      mercantile_bounds L (tp_x tp) (tp_y tp) (tp_z tp) = Inr b \<and> 0 \<le> n"
    then have crs: "if rio_crs L ds = None then rio_write_crs L ds 4326 = Inr ds1 else ds1 = ds"
      and sel: "cf_sel L ds1 [(''T'', Label (tp_t tp))] = Inr q0"
      and sq: "xr_squeeze L q0 = Inr q"
      and bd: "mercantile_bounds L (tp_x tp) (tp_y tp) (tp_z tp) = Inr b"
      and n0: "0 \<le> (case tp_size tp of None \<Rightarrow> 256 | Some k \<Rightarrow> k)"
      unfolding n by blast+
    from serve_tile_builds_grid[OF run crs sel sq bd n0]
    show "\<exists>lats lons. linspace (south b) (north b) n = Inr lats \<and>
           linspace (west b) (east b) n = Inr lons \<and>
           Regridder_init \<lparr>lat = lats, lon = lons\<rparr> ''bilinear'' \<in> set tr"
      unfolding n .
  }
  {
    fix resp
    assume "r = Inr resp"
    with run have "serve_tile L tp ds = (Inr resp, ds', tr)" by simp
    from serve_tile_answer_from_grid[OF this]
    show "\<exists>ds1 q0 q b lats lons rg da r1 r2 r3 rd cm.
           (if rio_crs L ds = None then rio_write_crs L ds 4326 = Inr ds1 else ds1 = ds) \<and>
           cf_sel L ds1 [(''T'', Label (tp_t tp))] = Inr q0 \<and>
           xr_squeeze L q0 = Inr q \<and>
           mercantile_bounds L (tp_x tp) (tp_y tp) (tp_z tp) = Inr b \<and>
           linspace (south b) (north b) n = Inr lats \<and>
           linspace (west b) (east b) n = Inr lons \<and>
           Regridder_init \<lparr>lat = lats, lon = lons\<rparr> ''bilinear'' \<in> set tr \<and>
           xe_Regridder L q \<lparr>lat = lats, lon = lons\<rparr> ''bilinear'' = Inr rg \<and>
           xr_getitem L q (tp_parameter tp) = Inr da \<and>
           xe_regrid L rg da = Inr r1 \<and>
           da_write_crs L r1 4326 = Inr r2 \<and>
           da_set_spatial_dims L r2 ''lon'' ''lat'' = Inr r3 \<and>
           rio_reproject L r3 ''EPSG:3857'' None Nearest = Inr rd \<and>
           cm_get_cmap L (Some ''rainbow'') = Inr cm \<and>
           pil_save L (Image_fromarray
               (map (map (\<lambda>v. uint8_pixel (times255 (cm_call L cm v))))
                  (scale_grid (xr_values L rd) (Fin 0) (Fin 5)))) ''PNG'' =
             Inr (content resp)"
      unfolding n .
  }
  {
    assume "n < 0"
    then have neg: "(case tp_size tp of None \<Rightarrow> 256 | Some k \<Rightarrow> k) < 0" unfolding n .
    note no = serve_tile_negative_size[OF run neg]
    fix resp
    from no show "r \<noteq> Inr resp" by blast
  }
  {
    assume "n < 0"
    then have neg: "(case tp_size tp of None \<Rightarrow> 256 | Some k \<Rightarrow> k) < 0" unfolding n .
    note no = serve_tile_negative_size[OF run neg]
    fix g m
    from no show "Regridder_init g m \<notin> set tr" by blast
  }
qed

lemma demo_tile_default_calls:
  "rio_crs demo_libs demo_dataset = None"
  "rio_write_crs demo_libs demo_dataset 4326 = Inr demo_dataset"
  "cf_sel demo_libs demo_dataset [(''T'', Label ''2022-01-01'')] = Inr demo_dataset"
  "xr_squeeze demo_libs demo_dataset = Inr demo_dataset"
  "mercantile_bounds demo_libs 0 0 1 = Inr \<lparr>west = 0, south = 0, east = 1, north = 1\<rparr>"
  by (simp_all add: demo_libs_def)

theorem tile_grid_is_linspace_of_tile_bounds_witness:
  "serve_tile demo_libs demo_tile demo_dataset =
     (Inr demo_tile_response, demo_dataset, demo_tile_trace) \<and>
   tp_size demo_tile = Some 2 \<and>
   Regridder_init \<lparr>lat = [0, 1], lon = [0, 1]\<rparr> ''bilinear'' \<in> set demo_tile_trace \<and>
   mercantile_bounds demo_libs 0 0 1 = Inr \<lparr>west = 0, south = 0, east = 1, north = 1\<rparr> \<and>
   linspace 0 1 2 = Inr [0, 1] \<and>
   tp_size (demo_tile\<lparr>tp_size := None\<rparr>) = None \<and>
   (\<exists>lats lons. linspace 0 1 256 = Inr lats \<and> linspace 0 1 256 = Inr lons \<and>
      length lats = 256 \<and> length lons = 256 \<and>
      hd lats = 0 \<and> last lats = 1 \<and> lats ! 1 - lats ! 0 = 1 / 255 \<and>
      Regridder_init \<lparr>lat = lats, lon = lons\<rparr> ''bilinear''
        \<in> set (snd (snd (serve_tile demo_libs (demo_tile\<lparr>tp_size := None\<rparr>) demo_dataset))))"
proof -
  let ?g = "\<lparr>lat = [0, 1], lon = [0, 1 :: real]\<rparr>"
  have m: "Regridder_init ?g ''bilinear'' \<in> set demo_tile_trace"
    by (simp add: demo_tile_trace_def)
  have sz: "tp_size demo_tile = Some 2" "tp_x demo_tile = 0" "tp_y demo_tile = 0"
    "tp_z demo_tile = 1" "tp_t demo_tile = ''2022-01-01''"
    by (simp_all add: demo_tile_def)
  note inst = tile_grid_is_linspace_of_tile_bounds[of demo_libs demo_tile demo_dataset
      "Inr demo_tile_response" demo_dataset demo_tile_trace 2 demo_dataset demo_dataset
      demo_dataset "\<lparr>west = 0, south = 0, east = 1, north = 1\<rparr>"]
  have two: "(2 :: int) = (case tp_size demo_tile of None \<Rightarrow> 256 | Some k \<Rightarrow> k)"
    by (simp add: sz)
  note a = inst[THEN mp, OF conjI[OF demo_tile_run two], THEN conjunct1, rule_format, OF m]
  from a obtain b where b: "mercantile_bounds demo_libs (tp_x demo_tile) (tp_y demo_tile)
      (tp_z demo_tile) = Inr b" and la: "linspace (south b) (north b) 2 = Inr (lat ?g)"
    by blast
  from b have "b = \<lparr>west = 0, south = 0, east = 1, north = 1\<rparr>"
    by (simp add: sz demo_tile_default_calls)
  with la have l2: "linspace 0 1 2 = Inr [0, 1]" by simp
  let ?tp = "demo_tile\<lparr>tp_size := None\<rparr>"
  let ?run = "serve_tile demo_libs ?tp demo_dataset"
  have run: "?run = (fst ?run, fst (snd ?run), snd (snd ?run))" by simp
  have sz': "tp_size ?tp = None" "tp_x ?tp = 0" "tp_y ?tp = 0" "tp_z ?tp = 1"
    "tp_t ?tp = ''2022-01-01''"
    by (simp_all add: demo_tile_def)
  have dflt: "(256 :: int) = (case tp_size ?tp of None \<Rightarrow> 256 | Some k \<Rightarrow> k)"
    by (simp add: sz')
  note inst' = tile_grid_is_linspace_of_tile_bounds[of demo_libs ?tp demo_dataset
      "fst ?run" "fst (snd ?run)" "snd (snd ?run)" 256 demo_dataset demo_dataset
      demo_dataset "\<lparr>west = 0, south = 0, east = 1, north = 1\<rparr>"]
  note c = inst'[THEN mp, OF conjI[OF run dflt]]
  have pre: "(if rio_crs demo_libs demo_dataset = None
      then rio_write_crs demo_libs demo_dataset 4326 = Inr demo_dataset
      else demo_dataset = demo_dataset) \<and>
    cf_sel demo_libs demo_dataset [(''T'', Label (tp_t ?tp))] = Inr demo_dataset \<and>
    xr_squeeze demo_libs demo_dataset = Inr demo_dataset \<and>
    mercantile_bounds demo_libs (tp_x ?tp) (tp_y ?tp) (tp_z ?tp) =
      Inr \<lparr>west = 0, south = 0, east = 1, north = 1\<rparr> \<and> (0 :: int) \<le> 256"
    by (simp add: sz' demo_tile_default_calls)
  from c[THEN conjunct2, THEN conjunct1, THEN mp, OF pre]
  obtain lats lons where la': "linspace 0 1 256 = Inr lats"
    and lo': "linspace 0 1 256 = Inr lons"
    and ev: "Regridder_init \<lparr>lat = lats, lon = lons\<rparr> ''bilinear'' \<in> set (snd (snd ?run))"
    by auto
  note d = c[THEN conjunct1, rule_format, OF ev]
  from d obtain b' where b': "mercantile_bounds demo_libs (tp_x ?tp) (tp_y ?tp) (tp_z ?tp) =
      Inr b'"
    and len: "length lats = nat 256" "length lons = nat 256"
    and sp: "\<forall>i. Suc i < nat 256 \<longrightarrow>
        lats ! Suc i - lats ! i = (north b' - south b') / (real_of_int 256 - 1)"
    and en: "hd lats = south b'" "last lats = north b'"
    by auto
  from b' have bb: "b' = \<lparr>west = 0, south = 0, east = 1, north = 1\<rparr>"
    by (simp add: sz' demo_tile_default_calls)
  from sp have "lats ! Suc 0 - lats ! 0 = (north b' - south b') / (real_of_int 256 - 1)"
    by simp
  then have s1: "lats ! 1 - lats ! 0 = 1 / 255" by (simp add: bb)
  from len have len': "length lats = 256" "length lons = 256" by simp_all
  from en have en': "hd lats = 0" "last lats = 1" by (simp_all add: bb)
  from la' lo' len' en' s1 ev
  have e: "\<exists>lats lons. linspace 0 1 256 = Inr lats \<and> linspace 0 1 256 = Inr lons \<and>
      length lats = 256 \<and> length lons = 256 \<and>
      hd lats = 0 \<and> last lats = 1 \<and> lats ! 1 - lats ! 0 = 1 / 255 \<and>
      Regridder_init \<lparr>lat = lats, lon = lons\<rparr> ''bilinear'' \<in> set (snd (snd ?run))"
    by blast
  from demo_tile_run sz(1) m demo_tile_default_calls(5) l2 sz'(1) e
  show ?thesis by (intro conjI)
qed

text \<open>
  The claim as it is written fails: the tile request with \<^verbatim>\<open>size=-1\<close> ends in the
  \<open>ValueError\<close> of \<^verbatim>\<open>np.linspace\<close> on line 105; no grid is built and nothing is
  answered.
\<close>

lemma demo_negative_size_run:
  "serve_tile demo_libs (demo_tile\<lparr>tp_size := Some (- 1)\<rparr>) demo_dataset =
     (Inl ValueError, demo_dataset,
      [Rio_crs, Write_crs 4326, Cf_sel [(''T'', Label ''2022-01-01'')], Squeeze,
       Bounds 0 0 1, Log_warning \<lparr>west = 0, south = 0, east = 1, north = 1\<rparr>,
       Linspace 0 1 (- 1)])"
  by code_simp

theorem negative_size_builds_no_grid:
  "tp_size (demo_tile\<lparr>tp_size := Some (- 1)\<rparr>) = Some (- 1) \<and>
   fst (serve_tile demo_libs (demo_tile\<lparr>tp_size := Some (- 1)\<rparr>) demo_dataset) =
     Inl ValueError \<and>
   (\<exists>a b. last (snd (snd (serve_tile demo_libs (demo_tile\<lparr>tp_size := Some (- 1)\<rparr>)
       demo_dataset))) = Linspace a b (- 1)) \<and>
   \<not> (\<exists>g m. Regridder_init g m \<in> set (snd (snd (serve_tile demo_libs
       (demo_tile\<lparr>tp_size := Some (- 1)\<rparr>) demo_dataset))))"
  by (simp add: demo_negative_size_run)
end
